(* ===== verification/Prelude.thy ===== *)
theory Prelude
  imports Main
begin

text \<open>
  Shared vocabulary of the development. TypeScript's built-in containers appear in
  every component of the repository, so their semantics is fixed here once:
  \<^item> a JavaScript \<open>Map\<close> is an association list with distinct keys in insertion order
    (\<open>jsmap_set\<close> overwrites an existing key in place and appends a new one, as
    \<open>Map.prototype.set\<close> does; \<open>jsmap_values\<close> is the iteration order of \<open>values()\<close>);
  \<^item> \<open>Array.prototype.indexOf\<close> returns \<open>-1\<close> when the element is absent
    (\<open>js_index_of\<close>), and \<open>splice(i, 1)\<close> cuts one element out (\<open>js_splice1\<close>).
  Each operation comes with its characteristic lemmas, collected in \<open>jsmap_simps\<close>, and
  with the refinement of the association list to an abstract map
  (\<open>jsmap_get (jsmap_set k v m) = (jsmap_get m)(k \<mapsto> v)\<close>).
\<close>

named_theorems jsmap_simps "characteristic equations of the JavaScript Map model"

type_synonym name = string
type_synonym path = string

subsection \<open>JavaScript \<open>Map\<close>\<close>

type_synonym ('k, 'v) jsmap = "('k \<times> 'v) list"

definition jsmap_get :: "('k, 'v) jsmap \<Rightarrow> 'k \<Rightarrow> 'v option" where
  "jsmap_get m k = map_of m k"

definition jsmap_has :: "('k, 'v) jsmap \<Rightarrow> 'k \<Rightarrow> bool" where
  "jsmap_has m k = (k \<in> set (map fst m))"

fun jsmap_set :: "'k \<Rightarrow> 'v \<Rightarrow> ('k, 'v) jsmap \<Rightarrow> ('k, 'v) jsmap" where
  "jsmap_set k v [] = [(k, v)]"
| "jsmap_set k v ((k', v') # m) =
     (if k' = k then (k, v) # m else (k', v') # jsmap_set k v m)"

definition jsmap_delete :: "'k \<Rightarrow> ('k, 'v) jsmap \<Rightarrow> ('k, 'v) jsmap" where
  "jsmap_delete k m = filter (\<lambda>(k', _). k' \<noteq> k) m"

definition jsmap_values :: "('k, 'v) jsmap \<Rightarrow> 'v list" where
  "jsmap_values m = map snd m"

definition jsmap_wf :: "('k, 'v) jsmap \<Rightarrow> bool" where
  "jsmap_wf m = distinct (map fst m)"

subsection \<open>JavaScript arrays\<close>

primrec js_index_of :: "'a list \<Rightarrow> 'a \<Rightarrow> int" where
  "js_index_of [] x = -1"
| "js_index_of (y # ys) x =
     (if y = x then 0 else (let i = js_index_of ys x in if i = -1 then -1 else i + 1))"

definition js_splice1 :: "'a list \<Rightarrow> int \<Rightarrow> 'a list" where
  "js_splice1 xs i = take (nat i) xs @ drop (Suc (nat i)) xs"

text \<open>The dispose pattern of the source: look the element up, cut it out if found.\<close>

definition js_remove_found :: "'a list \<Rightarrow> 'a \<Rightarrow> 'a list" where
  "js_remove_found xs x = (let i = js_index_of xs x in if i \<noteq> -1 then js_splice1 xs i else xs)"

subsection \<open>Lemmas on the Map model\<close>

lemma jsmap_get_set [jsmap_simps]: "jsmap_get (jsmap_set k v m) = (jsmap_get m)(k \<mapsto> v)"
proof (induction m)
  case Nil
  then show ?case by (simp add: jsmap_get_def)
next
  case (Cons kv m)
  then show ?case by (cases kv) (auto simp: jsmap_get_def fun_eq_iff)
qed

lemma jsmap_keys_set [jsmap_simps]:
  "map fst (jsmap_set k v m) = (if k \<in> set (map fst m) then map fst m else map fst m @ [k])"
  by (induction m) (auto simp: rev_image_eqI)

lemma jsmap_key_set_set [jsmap_simps]: "fst ` set (jsmap_set k v m) = insert k (fst ` set m)"
  unfolding set_map [symmetric] jsmap_keys_set by auto

lemma jsmap_has_set [jsmap_simps]: "jsmap_has (jsmap_set k v m) k' = (k' = k \<or> jsmap_has m k')"
  by (auto simp: jsmap_has_def jsmap_keys_set)

lemma jsmap_get_delete [jsmap_simps]: "jsmap_get (jsmap_delete k m) = (jsmap_get m)(k := None)"
proof (induction m)
  case Nil
  then show ?case by (simp add: jsmap_get_def jsmap_delete_def)
next
  case (Cons kv m)
  then show ?case by (cases kv) (auto simp: jsmap_get_def jsmap_delete_def fun_eq_iff)
qed

lemma jsmap_has_delete [jsmap_simps]: "jsmap_has (jsmap_delete k m) k' = (k' \<noteq> k \<and> jsmap_has m k')"
  by (induction m) (auto simp: jsmap_has_def jsmap_delete_def)

lemma jsmap_has_get: "jsmap_has m k = (jsmap_get m k \<noteq> None)"
  by (simp add: jsmap_has_def jsmap_get_def map_of_eq_None_iff)

lemma jsmap_wf_set [jsmap_simps]: "jsmap_wf m \<Longrightarrow> jsmap_wf (jsmap_set k v m)"
  by (simp add: jsmap_wf_def jsmap_keys_set)

lemma jsmap_wf_delete [jsmap_simps]: "jsmap_wf m \<Longrightarrow> jsmap_wf (jsmap_delete k m)"
  by (induction m) (auto simp: jsmap_wf_def jsmap_delete_def)

lemma jsmap_values_set_new [jsmap_simps]:
  "\<not> jsmap_has m k \<Longrightarrow> jsmap_values (jsmap_set k v m) = jsmap_values m @ [v]"
  by (induction m) (auto simp: jsmap_has_def jsmap_values_def)

lemma jsmap_empty [jsmap_simps]:
  "jsmap_get [] = Map.empty" "\<not> jsmap_has [] k" "jsmap_wf []" "jsmap_values [] = []"
  by (simp_all add: jsmap_get_def jsmap_has_def jsmap_wf_def jsmap_values_def fun_eq_iff)

subsection \<open>Lemmas on the array model\<close>

lemma js_index_of_ge: "-1 \<le> js_index_of xs x"
  by (induction xs) (auto simp: Let_def)

lemma js_index_of_absent: "(js_index_of xs x = -1) = (x \<notin> set xs)"
proof (induction xs)
  case Nil
  then show ?case by simp
next
  case (Cons y ys)
  have "-1 \<le> js_index_of ys x" by (rule js_index_of_ge)
  with Cons.IH show ?case by (auto simp: Let_def)
qed

lemma js_index_of_found:
  "x \<in> set xs \<Longrightarrow> 0 \<le> js_index_of xs x \<and> nat (js_index_of xs x) < length xs \<and>
     xs ! nat (js_index_of xs x) = x \<and> x \<notin> set (take (nat (js_index_of xs x)) xs)"
proof (induction xs)
  case Nil
  then show ?case by simp
next
  case (Cons y ys)
  show ?case
  proof (cases "y = x")
    case True
    then show ?thesis by simp
  next
    case False
    with Cons.prems have x: "x \<in> set ys" by simp
    with Cons.IH have ih: "0 \<le> js_index_of ys x \<and> nat (js_index_of ys x) < length ys \<and>
      ys ! nat (js_index_of ys x) = x \<and> x \<notin> set (take (nat (js_index_of ys x)) ys)" by blast
    then have "js_index_of (y # ys) x = js_index_of ys x + 1"
      using False by (simp add: Let_def)
    with ih False show ?thesis by (simp add: nat_add_distrib)
  qed
qed

lemma remove1_split_at:
  "i < length xs \<Longrightarrow> xs ! i = x \<Longrightarrow> x \<notin> set (take i xs) \<Longrightarrow>
   remove1 x xs = take i xs @ drop (Suc i) xs"
proof (induction xs arbitrary: i)
  case Nil
  then show ?case by simp
next
  case (Cons y ys)
  then show ?case by (cases i) auto
qed

text \<open>The source's \<open>indexOf\<close>/\<open>splice\<close> idiom removes the first occurrence.\<close>

lemma js_remove_found_remove1 [simp]: "js_remove_found xs x = remove1 x xs"
proof (cases "x \<in> set xs")
  case True
  let ?i = "js_index_of xs x"
  from js_index_of_found [OF True] have i: "0 \<le> ?i" "nat ?i < length xs"
    "xs ! nat ?i = x" "x \<notin> set (take (nat ?i) xs)" by auto
  from i(2-4) have "remove1 x xs = take (nat ?i) xs @ drop (Suc (nat ?i)) xs"
    by (rule remove1_split_at)
  moreover from i(1) have "?i \<noteq> -1" by auto
  ultimately show ?thesis by (simp add: js_remove_found_def js_splice1_def Let_def)
next
  case False
  then show ?thesis by (simp add: js_remove_found_def js_index_of_absent remove1_idem)
qed

subsection \<open>Lists\<close>

lemma filter_eq_single: "distinct xs \<Longrightarrow> x \<in> set xs \<Longrightarrow> filter (\<lambda>y. y = x) xs = [x]"
  by (induction xs) (auto simp: filter_empty_conv)

lemma distinct_move:
  assumes "distinct (P @ Q)" "i \<in> set P"
  shows "distinct (remove1 i P @ Q @ [i]) \<and> set (remove1 i P @ Q @ [i]) = set (P @ Q)"
proof -
  from assms(1) have dP: "distinct P" and dQ: "distinct Q" and disj: "set P \<inter> set Q = {}" by auto
  from dP have sP: "set (remove1 i P) = set P - {i}" by (rule set_remove1_eq)
  from assms(2) disj have iQ: "i \<notin> set Q" by auto
  have "distinct (remove1 i P @ Q @ [i])"
    using dP dQ disj iQ sP by (auto simp: distinct_remove1)
  moreover have "set (remove1 i P @ Q @ [i]) = set (P @ Q)"
    using sP assms(2) by auto
  ultimately show ?thesis ..
qed


lemma ball_set_update: "\<forall>x\<in>set xs. P x \<Longrightarrow> P y \<Longrightarrow> \<forall>x\<in>set (xs[i := y]). P x"
  using set_update_subset_insert [of xs i y] by blast

lemma map_of_filter_first:
  "map snd (filter (\<lambda>q. fst q = i) xs) = v # vs \<Longrightarrow> map_of xs i = Some v"
  by (induction xs) (auto split: if_splits)

end
