(* ===== verification/Registry.thy ===== *)
theory Registry
  imports Prelude
begin

text \<open>
  The capability type registry, \<open>FeatureExtensionCapabilityRegistryImpl\<close> of
  \<open>src/packages/feature-extension/src/browser/extension.service.ts\<close> (lines 174--242).
  Its state is the record \<open>registry\<close>: the scan directories, the candidate paths, the
  extra-metadata object and the \<open>types\<close> Map. Every \<open>add\<dots>\<close>/\<open>register\<dots>\<close> method
  returns an \<open>IDisposable\<close> closure; the closures are defunctionalised into the datatype
  \<open>reg_disposer\<close>, and running one is \<open>reg_dispose\<close>.

  \<open>registerFeatureExtensionType\<close> checks \<open>this.types.has(type.name)\<close> but stores under
  the free identifier \<open>name\<close> (\<open>this.types.set(name, type)\<close>), which in a browser is the
  global \<open>window.name\<close>. The model takes the value of that global as the parameter
  \<open>gname\<close>, so the behaviour of the code, not the intention, is what is proved.
\<close>

record ftype =
  ftype_name :: name
  ftype_id :: nat

record registry =
  extensionScanDir :: "path list"
  extensionCandidate :: "path list"
  extraMetaData :: "(string, path) jsmap"
  types :: "(name, ftype) jsmap"

datatype reg_error = TypeExists name

datatype reg_disposer =
    DeleteExtraMeta string
  | RemoveScanDir path
  | RemoveCandidate path
  | DeleteType name

definition registry_init :: registry where
  "registry_init = \<lparr>extensionScanDir = [''~/.vscode/extensions''], extensionCandidate = [],
     extraMetaData = [], types = []\<rparr>"

definition getAllCandidatesFromFileSystem :: "registry \<Rightarrow> path list \<times> path list \<times> (string, path) jsmap" where
  "getAllCandidatesFromFileSystem r = (extensionScanDir r, extensionCandidate r, extraMetaData r)"

subsection \<open>The disposer closures\<close>

definition dispose_extra_meta :: "string \<Rightarrow> registry \<Rightarrow> registry" where
  "dispose_extra_meta f r = r\<lparr>extraMetaData := jsmap_delete f (extraMetaData r)\<rparr>"

definition dispose_scan_dir :: "path \<Rightarrow> registry \<Rightarrow> registry" where
  "dispose_scan_dir d r = r\<lparr>extensionScanDir := js_remove_found (extensionScanDir r) d\<rparr>"

definition dispose_candidate :: "path \<Rightarrow> registry \<Rightarrow> registry" where
  "dispose_candidate d r = r\<lparr>extensionCandidate := js_remove_found (extensionCandidate r) d\<rparr>"

definition dispose_type :: "name \<Rightarrow> registry \<Rightarrow> registry" where
  "dispose_type n r = r\<lparr>types := jsmap_delete n (types r)\<rparr>"

fun reg_dispose :: "reg_disposer \<Rightarrow> registry \<Rightarrow> registry" where
  "reg_dispose (DeleteExtraMeta f) r = dispose_extra_meta f r"
| "reg_dispose (RemoveScanDir d) r = dispose_scan_dir d r"
| "reg_dispose (RemoveCandidate d) r = dispose_candidate d r"
| "reg_dispose (DeleteType n) r = dispose_type n r"

subsection \<open>The registry's methods\<close>

definition addExtraMetaData :: "string \<Rightarrow> path \<Rightarrow> registry \<Rightarrow> registry \<times> reg_disposer" where
  "addExtraMetaData f p r =
     (r\<lparr>extraMetaData := jsmap_set f p (extraMetaData r)\<rparr>, DeleteExtraMeta f)"

definition addFeatureExtensionScanDirectory :: "path \<Rightarrow> registry \<Rightarrow> registry \<times> reg_disposer" where
  "addFeatureExtensionScanDirectory d r =
     (if js_index_of (extensionScanDir r) d = -1
      then r\<lparr>extensionScanDir := extensionScanDir r @ [d]\<rparr> else r, RemoveScanDir d)"

definition addFeatureExtensionCandidate :: "path \<Rightarrow> registry \<Rightarrow> registry \<times> reg_disposer" where
  "addFeatureExtensionCandidate d r =
     (r\<lparr>extensionCandidate := extensionCandidate r @ [d]\<rparr>, RemoveCandidate d)"

definition registerFeatureExtensionType ::
  "name \<Rightarrow> ftype \<Rightarrow> registry \<Rightarrow> reg_error + registry \<times> reg_disposer" where
  "registerFeatureExtensionType gname t r =
     (if jsmap_has (types r) (ftype_name t) then Inl (TypeExists (ftype_name t))
      else Inr (r\<lparr>types := jsmap_set gname t (types r)\<rparr>, DeleteType gname))"

definition getTypes :: "registry \<Rightarrow> ftype list" where
  "getTypes r = jsmap_values (types r)"

text \<open>
  The calls a capability contribution makes on the registry, as data, so that the
  manager can run a contribution's \<open>registerCapability\<close> hook
  (\<open>reg_exec\<close>: one call; its disposer is dropped, as the hooks of the source drop it).
\<close>

datatype reg_op =
    OpAddExtraMetaData string path
  | OpAddScanDirectory path
  | OpAddCandidate path
  | OpRegisterType ftype
  | OpDispose reg_disposer

fun reg_exec :: "name \<Rightarrow> reg_op \<Rightarrow> registry \<Rightarrow> reg_error + registry" where
  "reg_exec g (OpAddExtraMetaData f p) r = Inr (fst (addExtraMetaData f p r))"
| "reg_exec g (OpAddScanDirectory d) r = Inr (fst (addFeatureExtensionScanDirectory d r))"
| "reg_exec g (OpAddCandidate d) r = Inr (fst (addFeatureExtensionCandidate d r))"
| "reg_exec g (OpRegisterType t) r = map_sum id fst (registerFeatureExtensionType g t r)"
| "reg_exec g (OpDispose d) r = Inr (reg_dispose d r)"

subsection \<open>Well-formedness\<close>

text \<open>
  What every reachable registry satisfies: the scan directories are duplicate-free,
  both key-value stores have distinct keys, and every key of \<open>types\<close> is the global
  \<open>name\<close> the code stores under.
\<close>

definition registry_wf :: "name \<Rightarrow> registry \<Rightarrow> bool" where
  "registry_wf g r \<longleftrightarrow> distinct (extensionScanDir r) \<and> jsmap_wf (extraMetaData r) \<and>
     jsmap_wf (types r) \<and> set (map fst (types r)) \<subseteq> {g}"

text \<open>The registries a sequence of successful calls produces, with the global \<open>name\<close> fixed.\<close>

inductive reg_reach :: "name \<Rightarrow> registry \<Rightarrow> bool" for g where
  init: "reg_reach g registry_init"
| step: "reg_reach g r \<Longrightarrow> reg_exec g op r = Inr r' \<Longrightarrow> reg_reach g r'"

lemmas registry_defs = addExtraMetaData_def addFeatureExtensionScanDirectory_def
  addFeatureExtensionCandidate_def registerFeatureExtensionType_def
  dispose_extra_meta_def dispose_scan_dir_def dispose_candidate_def dispose_type_def

lemma registry_wf_init: "registry_wf g registry_init"
  by (simp add: registry_wf_def registry_init_def jsmap_simps)

lemma jsmap_delete_keys_sub: "set (map fst (jsmap_delete k m)) \<subseteq> set (map fst m)"
  by (auto simp: jsmap_delete_def)

lemma reg_dispose_wf: "registry_wf g r \<Longrightarrow> registry_wf g (reg_dispose d r)"
proof (cases d)
  case (DeleteType n)
  assume "registry_wf g r"
  with jsmap_delete_keys_sub [of n "types r"] show ?thesis
    by (auto simp: DeleteType registry_wf_def registry_defs jsmap_simps)
qed (auto simp: registry_wf_def registry_defs jsmap_simps)

lemma reg_exec_wf: "registry_wf g r \<Longrightarrow> reg_exec g op r = Inr r' \<Longrightarrow> registry_wf g r'"
proof (cases op)
  case (OpAddScanDirectory d)
  moreover assume "registry_wf g r" "reg_exec g op r = Inr r'"
  ultimately show ?thesis
    by (auto simp: registry_wf_def registry_defs js_index_of_absent image_subset_iff split: if_splits)
next
  case (OpRegisterType t)
  assume wf: "registry_wf g r" and ex: "reg_exec g op r = Inr r'"
  with OpRegisterType have r': "r' = r\<lparr>types := jsmap_set g t (types r)\<rparr>"
    by (auto simp: registerFeatureExtensionType_def split: if_splits)
  from wf have "fst ` set (jsmap_set g t (types r)) \<subseteq> {g}"
    by (simp add: registry_wf_def jsmap_key_set_set)
  with wf show ?thesis by (simp add: r' registry_wf_def jsmap_wf_set)
next
  case (OpDispose d)
  moreover assume "registry_wf g r" "reg_exec g op r = Inr r'"
  ultimately show ?thesis by (auto intro: reg_dispose_wf)
qed (auto simp: registry_wf_def registry_defs jsmap_simps image_subset_iff)

lemma reg_reach_wf: "reg_reach g r \<Longrightarrow> registry_wf g r"
  by (induction rule: reg_reach.induct) (auto intro: registry_wf_init reg_exec_wf)

lemma registry_wf_types_shape:
  assumes "registry_wf g r"
  shows "types r = [] \<or> (\<exists>t. types r = [(g, t)])"
proof (cases "types r")
  case Nil
  then show ?thesis by simp
next
  case (Cons kv rest)
  from assms have d: "distinct (map fst (types r))" and k: "fst ` set (types r) \<subseteq> {g}"
    by (simp_all add: registry_wf_def jsmap_wf_def)
  from k Cons have "fst kv = g" by auto
  moreover have "rest = []"
  proof (rule ccontr)
    assume "rest \<noteq> []"
    then obtain kv' rest' where "rest = kv' # rest'" by (cases rest) auto
    with k Cons have "fst kv' = g" by auto
    with d Cons \<open>rest = kv' # rest'\<close> \<open>fst kv = g\<close> show False by simp
  qed
  ultimately show ?thesis using Cons by (cases kv) auto
qed


subsection \<open>Properties of the registry\<close>

text \<open>C7. Because every type is stored under the one global key \<open>name\<close>, a registry built by
  any sequence of successful calls holds at most one capability type: \<open>getTypes()\<close>
  never yields two.\<close>

theorem registry_holds_at_most_one_type:
  "reg_reach g r \<Longrightarrow> length (getTypes r) \<le> 1"
proof -
  assume "reg_reach g r"
  then have "registry_wf g r" by (rule reg_reach_wf)
  then have "types r = [] \<or> (\<exists>t. types r = [(g, t)])" by (rule registry_wf_types_shape)
  then show ?thesis by (auto simp: getTypes_def jsmap_values_def)
qed

theorem registry_holds_at_most_one_type_witness:
  "reg_reach '''' (fst (addFeatureExtensionCandidate ''/ext/a''
      (registry_init\<lparr>types := [('''', \<lparr>ftype_name = ''git'', ftype_id = 3\<rparr>)]\<rparr>))) \<and>
   length (getTypes (fst (addFeatureExtensionCandidate ''/ext/a''
      (registry_init\<lparr>types := [('''', \<lparr>ftype_name = ''git'', ftype_id = 3\<rparr>)]\<rparr>)))) \<le> 1"
proof -
  let ?r1 = "registry_init\<lparr>types := [('''', \<lparr>ftype_name = ''git'', ftype_id = 3\<rparr>)]\<rparr>"
  have "reg_exec '''' (OpRegisterType \<lparr>ftype_name = ''git'', ftype_id = 3\<rparr>) registry_init = Inr ?r1"
    by (simp add: registry_init_def registerFeatureExtensionType_def jsmap_has_def)
  then have r1: "reg_reach '''' ?r1" by (rule reg_reach.step [OF reg_reach.init])
  have "reg_exec '''' (OpAddCandidate ''/ext/a'') ?r1 =
      Inr (fst (addFeatureExtensionCandidate ''/ext/a'' ?r1))" by simp
  with r1 have r2: "reg_reach '''' (fst (addFeatureExtensionCandidate ''/ext/a'' ?r1))"
    by (rule reg_reach.step)
  with registry_holds_at_most_one_type [OF r2] show ?thesis by simp
qed

text \<open>C8. The duplicate check tests \<open>type.name\<close> but the store uses the global \<open>name\<close>: a second
  type with the same name as a registered one is accepted (no error is raised) and it
  silently replaces the first in the Map.\<close>

theorem register_same_name_overwrites:
  assumes "registry_wf g r" "ftype_name t1 = ftype_name t2" "ftype_name t1 \<noteq> g"
    "registerFeatureExtensionType g t1 r = Inr (r1, d1)"
  shows "registerFeatureExtensionType g t2 r1 = Inr (r1\<lparr>types := [(g, t2)]\<rparr>, DeleteType g) \<and>
    getTypes r1 = [t1] \<and> getTypes (r1\<lparr>types := [(g, t2)]\<rparr>) = [t2]"
proof -
  from assms(1) have shape: "types r = [] \<or> (\<exists>t. types r = [(g, t)])" by (rule registry_wf_types_shape)
  from assms(4) have r1: "r1 = r\<lparr>types := jsmap_set g t1 (types r)\<rparr>"
    by (simp add: registerFeatureExtensionType_def split: if_splits)
  from shape have t1: "types r1 = [(g, t1)]" by (auto simp: r1)
  with assms(2,3) have "\<not> jsmap_has (types r1) (ftype_name t2)" by (simp add: jsmap_has_def)
  with t1 show ?thesis
    by (simp add: registerFeatureExtensionType_def getTypes_def jsmap_values_def)
qed

theorem register_same_name_overwrites_witness:
  "registerFeatureExtensionType '''' \<lparr>ftype_name = ''scm'', ftype_id = 2\<rparr>
      (registry_init\<lparr>types := [('''', \<lparr>ftype_name = ''scm'', ftype_id = 1\<rparr>)]\<rparr>) =
     Inr (registry_init\<lparr>types := [('''', \<lparr>ftype_name = ''scm'', ftype_id = 2\<rparr>)]\<rparr>, DeleteType '''') \<and>
   getTypes (registry_init\<lparr>types := [('''', \<lparr>ftype_name = ''scm'', ftype_id = 1\<rparr>)]\<rparr>) =
     [\<lparr>ftype_name = ''scm'', ftype_id = 1\<rparr>]"
proof -
  have wf: "registry_wf '''' registry_init" by (rule registry_wf_init)
  have r1: "registerFeatureExtensionType '''' \<lparr>ftype_name = ''scm'', ftype_id = 1\<rparr> registry_init =
     Inr (registry_init\<lparr>types := [('''', \<lparr>ftype_name = ''scm'', ftype_id = 1\<rparr>)]\<rparr>, DeleteType '''')"
    by (simp add: registry_init_def registerFeatureExtensionType_def jsmap_has_def)
  from register_same_name_overwrites [OF wf _ _ r1, of "\<lparr>ftype_name = ''scm'', ftype_id = 2\<rparr>"]
  show ?thesis by simp
qed

text \<open>C9. The error branch of \<open>registerFeatureExtensionType\<close>: on a reachable registry it
  raises exactly when the type's name equals the global \<open>name\<close> and a type is already
  stored; every other registration succeeds.\<close>

theorem register_fails_iff:
  assumes "reg_reach g r"
  shows "(\<exists>e. registerFeatureExtensionType g t r = Inl e) \<longleftrightarrow> ftype_name t = g \<and> getTypes r \<noteq> []"
proof -
  from assms have "registry_wf g r" by (rule reg_reach_wf)
  then have "types r = [] \<or> (\<exists>x. types r = [(g, x)])" by (rule registry_wf_types_shape)
  then show ?thesis
    by (auto simp: registerFeatureExtensionType_def getTypes_def jsmap_values_def jsmap_has_def)
qed

theorem register_fails_iff_witness:
  "reg_reach '''' (registry_init\<lparr>types := [('''', \<lparr>ftype_name = ''git'', ftype_id = 3\<rparr>)]\<rparr>) \<and>
   (\<exists>e. registerFeatureExtensionType '''' \<lparr>ftype_name = '''', ftype_id = 4\<rparr>
      (registry_init\<lparr>types := [('''', \<lparr>ftype_name = ''git'', ftype_id = 3\<rparr>)]\<rparr>) = Inl e)"
proof -
  let ?r = "registry_init\<lparr>types := [('''', \<lparr>ftype_name = ''git'', ftype_id = 3\<rparr>)]\<rparr>"
  have "reg_exec '''' (OpRegisterType \<lparr>ftype_name = ''git'', ftype_id = 3\<rparr>) registry_init = Inr ?r"
    by (simp add: registry_init_def registerFeatureExtensionType_def jsmap_has_def)
  then have r: "reg_reach '''' ?r" by (rule reg_reach.step [OF reg_reach.init])
  have "ftype_name \<lparr>ftype_name = '''', ftype_id = 4\<rparr> = '''' \<and> getTypes ?r \<noteq> []"
    by (simp add: getTypes_def jsmap_values_def)
  with register_fails_iff [OF r, of "\<lparr>ftype_name = '''', ftype_id = 4\<rparr>"] r show ?thesis by blast
qed

text \<open>C10. Round trip of a scan directory: adding a directory that is not yet listed and then
  running the returned disposer gives back the registry unchanged.\<close>

theorem scan_dir_add_dispose_roundtrip:
  assumes "d \<notin> set (extensionScanDir r)"
  shows "reg_dispose (snd (addFeatureExtensionScanDirectory d r)) (fst (addFeatureExtensionScanDirectory d r)) = r"
  using assms
  by (simp add: addFeatureExtensionScanDirectory_def dispose_scan_dir_def js_index_of_absent remove1_append)

theorem scan_dir_add_dispose_roundtrip_witness:
  "''/opt/ext'' \<notin> set (extensionScanDir registry_init) \<and>
   reg_dispose (snd (addFeatureExtensionScanDirectory ''/opt/ext'' registry_init))
     (fst (addFeatureExtensionScanDirectory ''/opt/ext'' registry_init)) = registry_init"
proof -
  have h: "''/opt/ext'' \<notin> set (extensionScanDir registry_init)" by (simp add: registry_init_def)
  with scan_dir_add_dispose_roundtrip [OF h] show ?thesis by simp
qed

text \<open>C11. Adding a directory that is already listed is a no-op, yet its disposer removes the
  directory: disposing such an add deletes the pre-existing entry (for instance the default
  \<open>~/.vscode/extensions\<close>), not only what the add contributed.\<close>

theorem scan_dir_dispose_removes_preexisting:
  assumes "registry_wf g r" "d \<in> set (extensionScanDir r)"
  shows "fst (addFeatureExtensionScanDirectory d r) = r \<and>
    extensionScanDir (reg_dispose (snd (addFeatureExtensionScanDirectory d r))
       (fst (addFeatureExtensionScanDirectory d r))) = remove1 d (extensionScanDir r) \<and>
    d \<notin> set (extensionScanDir (reg_dispose (snd (addFeatureExtensionScanDirectory d r))
       (fst (addFeatureExtensionScanDirectory d r))))"
  using assms
  by (simp add: addFeatureExtensionScanDirectory_def dispose_scan_dir_def js_index_of_absent registry_wf_def)

theorem scan_dir_dispose_removes_preexisting_witness:
  "registry_wf '''' registry_init \<and> ''~/.vscode/extensions'' \<in> set (extensionScanDir registry_init) \<and>
   extensionScanDir (reg_dispose (snd (addFeatureExtensionScanDirectory ''~/.vscode/extensions'' registry_init))
       (fst (addFeatureExtensionScanDirectory ''~/.vscode/extensions'' registry_init))) = []"
proof -
  have h: "registry_wf '''' registry_init" "''~/.vscode/extensions'' \<in> set (extensionScanDir registry_init)"
    by (rule registry_wf_init) (simp add: registry_init_def)
  from scan_dir_dispose_removes_preexisting [OF h]
  have "extensionScanDir (reg_dispose (snd (addFeatureExtensionScanDirectory ''~/.vscode/extensions'' registry_init))
       (fst (addFeatureExtensionScanDirectory ''~/.vscode/extensions'' registry_init))) =
    remove1 ''~/.vscode/extensions'' (extensionScanDir registry_init)" by blast
  also have "\<dots> = []" by (simp add: registry_init_def)
  finally show ?thesis using h by blast
qed

text \<open>C12. The extra-metadata object refines a partial map: \<open>addExtraMetaData\<close> is a map update
  (the last writer of a field wins) and its disposer deletes the field, whatever was stored
  under it before.\<close>

theorem extra_meta_refines_map:
  "jsmap_get (extraMetaData (fst (addExtraMetaData f p r))) = (jsmap_get (extraMetaData r))(f \<mapsto> p) \<and>
   jsmap_get (extraMetaData (reg_dispose (snd (addExtraMetaData f p r)) (fst (addExtraMetaData f p r)))) =
     (jsmap_get (extraMetaData r))(f := None)"
  by (simp add: addExtraMetaData_def dispose_extra_meta_def jsmap_simps)

text \<open>C13. Candidate paths are not de-duplicated, and the disposer of an add removes the first
  occurrence of the path: when the path was already listed, disposing the new add removes
  the old entry and keeps the new one at the end.\<close>

theorem candidate_dispose_removes_first_occurrence:
  assumes "d \<in> set (extensionCandidate r)"
  shows "extensionCandidate (fst (addFeatureExtensionCandidate d r)) = extensionCandidate r @ [d] \<and>
    extensionCandidate (reg_dispose (snd (addFeatureExtensionCandidate d r))
      (fst (addFeatureExtensionCandidate d r))) = remove1 d (extensionCandidate r) @ [d]"
  using assms by (simp add: addFeatureExtensionCandidate_def dispose_candidate_def remove1_append)

theorem candidate_dispose_removes_first_occurrence_witness:
  "''/a'' \<in> set (extensionCandidate (registry_init\<lparr>extensionCandidate := [''/a'', ''/b'']\<rparr>)) \<and>
   extensionCandidate (reg_dispose (snd (addFeatureExtensionCandidate ''/a'' (registry_init\<lparr>extensionCandidate := [''/a'', ''/b'']\<rparr>)))
      (fst (addFeatureExtensionCandidate ''/a'' (registry_init\<lparr>extensionCandidate := [''/a'', ''/b'']\<rparr>)))) = [''/b'', ''/a'']"
proof -
  have h: "''/a'' \<in> set (extensionCandidate (registry_init\<lparr>extensionCandidate := [''/a'', ''/b'']\<rparr>))"
    by simp
  with candidate_dispose_removes_first_occurrence [OF h] show ?thesis by simp
qed

text \<open>C39. Well-formedness of every reachable registry: the scan directories are
  duplicate-free, the extra-metadata object and the \<open>types\<close> Map have distinct keys, and
  the only key \<open>types\<close> ever holds is the global \<open>name\<close>.\<close>

theorem registry_maps_well_formed:
  "reg_reach g r \<Longrightarrow> distinct (extensionScanDir r) \<and> distinct (map fst (extraMetaData r)) \<and>
     distinct (map fst (types r)) \<and> set (map fst (types r)) \<subseteq> {g}"
  using reg_reach_wf by (simp add: registry_wf_def jsmap_wf_def)

theorem registry_maps_well_formed_witness:
  "reg_reach '''' (fst (addFeatureExtensionScanDirectory ''/ext'' registry_init)) \<and>
   distinct (extensionScanDir (fst (addFeatureExtensionScanDirectory ''/ext'' registry_init))) \<and>
   distinct (map fst (extraMetaData (fst (addFeatureExtensionScanDirectory ''/ext'' registry_init)))) \<and>
   distinct (map fst (types (fst (addFeatureExtensionScanDirectory ''/ext'' registry_init)))) \<and>
   set (map fst (types (fst (addFeatureExtensionScanDirectory ''/ext'' registry_init)))) \<subseteq> {''''}"
proof -
  have "reg_exec '''' (OpAddScanDirectory ''/ext'') registry_init =
      Inr (fst (addFeatureExtensionScanDirectory ''/ext'' registry_init))" by simp
  with reg_reach.init have r: "reg_reach '''' (fst (addFeatureExtensionScanDirectory ''/ext'' registry_init))"
    by (rule reg_reach.step)
  from r registry_maps_well_formed [OF r] show ?thesis by blast
qed

end
