(* ===== verification/Lifecycle.thy ===== *)
theory Lifecycle
  imports Prelude
begin

text \<open>
  The extension lifecycle, class \<open>FeatureExtension\<close> of
  \<open>src/packages/feature-extension/src/browser/extension.service.ts\<close> (lines 244--369),
  with the interleavings of its async methods.

  The record \<open>fext\<close> holds the class's mutable fields. A promise stored in
  \<open>_enabling\<close>/\<open>_activating\<close> is named by a number; a disposer returned by the capability
  is named by a number too; both come from the counter \<open>fresh\<close>, so names are unique.

  JavaScript runs one segment of an async method at a time: from its call, or from the
  resumption after an \<open>await\<close>, to its next \<open>await\<close> or its end. The record \<open>world\<close>
  holds the extension, the suspended method activations (\<open>tasks\<close>, one \<open>task\<close>
  constructor per \<open>await\<close> of the source), the capability promises still pending
  (\<open>pending_en\<close>, \<open>pending_act\<close>), the chained promises already settled (\<open>resolved\<close>),
  and the trace of the calls made into the capability and the logger (\<open>trace\<close>).
  \<open>ext_exec\<close> is one scheduling step, selected by an \<open>event\<close>: a new call of a public
  method, the settlement of a pending capability promise (success or rejection), or the
  resumption of a suspended activation chosen by its index. Every scheduler of the
  JavaScript event loop is one sequence of events, so a property of every reachable
  world (\<open>ext_reach\<close>) holds under every timing of the capability and every order of
  callers.
\<close>

record fext =
  fext_name :: name
  fext_path :: path
  activated :: bool
  enabled :: bool
  enableDisposer :: "nat option"
  enabling :: "nat option"
  activating :: "nat option"
  activateDisposer :: "nat option"

datatype effect =
    OnEnable nat
  | OnActivate nat
  | EnableSettled nat bool
  | ActivateSettled nat bool
  | Dispose nat
  | LogError

text \<open>
  Suspension points. \<open>DWait p\<close>: \<open>deactivate\<close> at \<open>await this._activating\<close>;
  \<open>DDisposing d\<close>: at \<open>await this._activateDisposer.dispose()\<close>. A \<open>None\<close> in
  \<open>TDisDeact\<close>/\<open>TDspDeact\<close> is the caller's \<open>await this.deactivate()\<close> after the
  nested call has returned, waiting for its turn.
\<close>

datatype dwait = DWait nat | DDisposing nat

datatype task =
    TEnable nat
  | TActivate nat
  | TDeactivate dwait
  | TDisDeact "dwait option"
  | TDisWait nat
  | TDisDisposing nat
  | TDspDeact "dwait option"

record world =
  ext :: fext
  tasks :: "task list"
  pending_en :: "nat list"
  pending_act :: "nat list"
  resolved :: "nat list"
  fresh :: nat
  trace :: "effect list"

datatype event =
    CallEnable | CallDisable | CallActivate | CallDeactivate | CallDispose
  | EnableOk nat | EnableFail nat | ActivateOk nat | ActivateFail nat
  | Resume nat bool

definition fext_new :: "name \<Rightarrow> path \<Rightarrow> fext" where
  "fext_new n p = \<lparr>fext_name = n, fext_path = p, activated = False, enabled = False,
     enableDisposer = None, enabling = None, activating = None, activateDisposer = None\<rparr>"

definition world_init :: "fext \<Rightarrow> world" where
  "world_init e = \<lparr>ext = e, tasks = [], pending_en = [], pending_act = [], resolved = [],
     fresh = 0, trace = []\<rparr>"

definition log_if :: "bool \<Rightarrow> world \<Rightarrow> world" where
  "log_if f w = (if f then w\<lparr>trace := trace w @ [LogError]\<rparr> else w)"

subsection \<open>\<open>enable\<close> and \<open>activate\<close>\<close>

definition enable_call :: "world \<Rightarrow> world \<times> task option" where
  "enable_call w =
     (if enabled (ext w) then (w, None)
      else case enabling (ext w) of
        Some p \<Rightarrow> (w, Some (TEnable p))
      | None \<Rightarrow> (let p = fresh w in
          (w\<lparr>ext := (ext w)\<lparr>enabling := Some p\<rparr>, pending_en := pending_en w @ [p],
             fresh := Suc p, trace := trace w @ [OnEnable p]\<rparr>, None)))"

definition enable_resolve :: "nat \<Rightarrow> world \<Rightarrow> world option" where
  "enable_resolve p w =
     (if p \<in> set (pending_en w) then
        (let d = fresh w in
         Some (w\<lparr>ext := (ext w)\<lparr>enableDisposer := Some d, enabled := True\<rparr>,
                 pending_en := remove1 p (pending_en w), resolved := p # resolved w,
                 fresh := Suc d, trace := trace w @ [EnableSettled p True]\<rparr>))
      else None)"

definition enable_reject :: "nat \<Rightarrow> world \<Rightarrow> world option" where
  "enable_reject p w =
     (if p \<in> set (pending_en w) then
        Some (w\<lparr>ext := (ext w)\<lparr>enabling := None\<rparr>,
                pending_en := remove1 p (pending_en w), resolved := p # resolved w,
                trace := trace w @ [EnableSettled p False, LogError]\<rparr>)
      else None)"

definition activate_call :: "world \<Rightarrow> world \<times> task option" where
  "activate_call w =
     (if activated (ext w) then (w, None)
      else case activating (ext w) of
        Some p \<Rightarrow> (w, Some (TActivate p))
      | None \<Rightarrow> (let p = fresh w in
          (w\<lparr>ext := (ext w)\<lparr>activating := Some p\<rparr>, pending_act := pending_act w @ [p],
             fresh := Suc p, trace := trace w @ [OnActivate p]\<rparr>, None)))"

definition activate_resolve :: "nat \<Rightarrow> world \<Rightarrow> world option" where
  "activate_resolve p w =
     (if p \<in> set (pending_act w) then
        (let d = fresh w in
         Some (w\<lparr>ext := (ext w)\<lparr>activateDisposer := Some d, activated := True\<rparr>,
                 pending_act := remove1 p (pending_act w), resolved := p # resolved w,
                 fresh := Suc d, trace := trace w @ [ActivateSettled p True]\<rparr>))
      else None)"

definition activate_reject :: "nat \<Rightarrow> world \<Rightarrow> world option" where
  "activate_reject p w =
     (if p \<in> set (pending_act w) then
        Some (w\<lparr>ext := (ext w)\<lparr>activating := None\<rparr>,
                pending_act := remove1 p (pending_act w), resolved := p # resolved w,
                trace := trace w @ [ActivateSettled p False, LogError]\<rparr>)
      else None)"

subsection \<open>\<open>deactivate\<close>\<close>

definition deact_finish :: "world \<Rightarrow> world \<times> dwait option" where
  "deact_finish w =
     (let e = (ext w)\<lparr>activated := False\<rparr> in
      case activateDisposer e of
        None \<Rightarrow> (w\<lparr>ext := e\<rparr>, None)
      | Some d \<Rightarrow> (w\<lparr>ext := e, trace := trace w @ [Dispose d]\<rparr>, Some (DDisposing d)))"

definition deact_start :: "world \<Rightarrow> world \<times> dwait option" where
  "deact_start w =
     (if \<not> activated (ext w) then
        (case activating (ext w) of None \<Rightarrow> (w, None) | Some p \<Rightarrow> (w, Some (DWait p)))
      else deact_finish w)"

fun deact_resume :: "dwait \<Rightarrow> bool \<Rightarrow> world \<Rightarrow> (world \<times> dwait option) option" where
  "deact_resume (DWait p) f w = (if p \<in> set (resolved w) then Some (deact_finish w) else None)"
| "deact_resume (DDisposing d) f w =
     Some (log_if f (w\<lparr>ext := (ext w)\<lparr>activateDisposer := None\<rparr>\<rparr>), None)"

subsection \<open>\<open>disable\<close> and \<open>dispose\<close>\<close>

definition dis_finish :: "world \<Rightarrow> world \<times> task option" where
  "dis_finish w =
     (let e = (ext w)\<lparr>enabled := False\<rparr> in
      case enableDisposer e of
        None \<Rightarrow> (w\<lparr>ext := e\<rparr>, None)
      | Some d \<Rightarrow> (w\<lparr>ext := e, trace := trace w @ [Dispose d]\<rparr>, Some (TDisDisposing d)))"

definition dis_check :: "world \<Rightarrow> world \<times> task option" where
  "dis_check w =
     (if \<not> enabled (ext w) then
        (case enabling (ext w) of None \<Rightarrow> (w, None) | Some p \<Rightarrow> (w, Some (TDisWait p)))
      else dis_finish w)"

definition disable_call :: "world \<Rightarrow> world \<times> task option" where
  "disable_call w = (let (w', dw) = deact_start w in (w', Some (TDisDeact dw)))"

definition deactivate_call :: "world \<Rightarrow> world \<times> task option" where
  "deactivate_call w = (let (w', dw) = deact_start w in (w', map_option TDeactivate dw))"

definition dispose_call :: "world \<Rightarrow> world \<times> task option" where
  "dispose_call w = (let (w', dw) = deact_start w in (w', Some (TDspDeact dw)))"

subsection \<open>Resumption and the scheduling step\<close>

definition lift_deact :: "(dwait option \<Rightarrow> task option) \<Rightarrow> (world \<times> dwait option) option \<Rightarrow>
    (world \<times> task option) option" where
  "lift_deact k r = map_option (\<lambda>(w', dw). (w', k dw)) r"

fun task_step :: "task \<Rightarrow> bool \<Rightarrow> world \<Rightarrow> (world \<times> task option) option" where
  "task_step (TEnable p) f w = (if p \<in> set (resolved w) then Some (w, None) else None)"
| "task_step (TActivate p) f w = (if p \<in> set (resolved w) then Some (w, None) else None)"
| "task_step (TDeactivate dw) f w = lift_deact (map_option TDeactivate) (deact_resume dw f w)"
| "task_step (TDisDeact (Some dw)) f w = lift_deact (\<lambda>x. Some (TDisDeact x)) (deact_resume dw f w)"
| "task_step (TDisDeact None) f w = Some (dis_check w)"
| "task_step (TDisWait p) f w = (if p \<in> set (resolved w) then Some (dis_finish w) else None)"
| "task_step (TDisDisposing d) f w =
     Some (log_if f (w\<lparr>ext := (ext w)\<lparr>enableDisposer := None\<rparr>\<rparr>), None)"
| "task_step (TDspDeact (Some dw)) f w = lift_deact (\<lambda>x. Some (TDspDeact x)) (deact_resume dw f w)"
| "task_step (TDspDeact None) f w = Some (disable_call w)"

definition spawn :: "world \<times> task option \<Rightarrow> world" where
  "spawn r = (case r of (w, None) \<Rightarrow> w | (w, Some t) \<Rightarrow> w\<lparr>tasks := tasks w @ [t]\<rparr>)"

definition drop_task :: "nat \<Rightarrow> world \<Rightarrow> world" where
  "drop_task i w = w\<lparr>tasks := take i (tasks w) @ drop (Suc i) (tasks w)\<rparr>"

fun ext_exec :: "world \<Rightarrow> event \<Rightarrow> world option" where
  "ext_exec w CallEnable = Some (spawn (enable_call w))"
| "ext_exec w CallDisable = Some (spawn (disable_call w))"
| "ext_exec w CallActivate = Some (spawn (activate_call w))"
| "ext_exec w CallDeactivate = Some (spawn (deactivate_call w))"
| "ext_exec w CallDispose = Some (spawn (dispose_call w))"
| "ext_exec w (EnableOk p) = enable_resolve p w"
| "ext_exec w (EnableFail p) = enable_reject p w"
| "ext_exec w (ActivateOk p) = activate_resolve p w"
| "ext_exec w (ActivateFail p) = activate_reject p w"
| "ext_exec w (Resume i f) =
     (if i < length (tasks w)
      then map_option spawn (task_step (tasks w ! i) f (drop_task i w)) else None)"

fun ext_run :: "world \<Rightarrow> event list \<Rightarrow> world option" where
  "ext_run w [] = Some w"
| "ext_run w (ev # evs) = (case ext_exec w ev of None \<Rightarrow> None | Some w' \<Rightarrow> ext_run w' evs)"

inductive ext_reach :: "world \<Rightarrow> bool" where
  init: "ext_reach (world_init (fext_new n p))"
| step: "ext_reach w \<Longrightarrow> ext_exec w ev = Some w' \<Longrightarrow> ext_reach w'"

subsection \<open>Observations on the trace and the lifecycle invariant\<close>

text \<open>
  \<open>teardown w w'\<close>: \<open>w'\<close> differs from \<open>w\<close> only as the teardown code
  (\<open>deactivate\<close>, \<open>disable\<close> and their resumptions) can make it differ: no
  capability promise is created or settled, the in-flight slots are untouched, the
  flags can only be cleared, and the trace grows by disposer calls and log lines only.
  \<open>lc_inv\<close> is the lifecycle invariant: each in-flight slot holds the one pending
  capability promise (if any) and its flag is still down, the calls into the
  capability are matched by settlements up to the pending ones, and once an
  \<open>onEnable\<close> has succeeded \<open>_enabling\<close> is never cleared again.
\<close>

definition is_teardown :: "effect \<Rightarrow> bool" where
  "is_teardown e = (case e of Dispose _ \<Rightarrow> True | LogError \<Rightarrow> True | _ \<Rightarrow> False)"

definition teardown :: "world \<Rightarrow> world \<Rightarrow> bool" where
  "teardown w w' \<longleftrightarrow> pending_en w' = pending_en w \<and> pending_act w' = pending_act w \<and>
     resolved w' = resolved w \<and> fresh w' = fresh w \<and>
     enabling (ext w') = enabling (ext w) \<and> activating (ext w') = activating (ext w) \<and>
     (enabled (ext w') \<longrightarrow> enabled (ext w)) \<and> (activated (ext w') \<longrightarrow> activated (ext w)) \<and>
     (\<exists>es. trace w' = trace w @ es \<and> list_all is_teardown es)"

definition is_on_enable :: "effect \<Rightarrow> bool" where
  "is_on_enable e = (case e of OnEnable _ \<Rightarrow> True | _ \<Rightarrow> False)"

definition is_enable_settled :: "effect \<Rightarrow> bool" where
  "is_enable_settled e = (case e of EnableSettled _ _ \<Rightarrow> True | _ \<Rightarrow> False)"

definition is_enable_success :: "effect \<Rightarrow> bool" where
  "is_enable_success e = (case e of EnableSettled _ b \<Rightarrow> b | _ \<Rightarrow> False)"

definition is_on_activate :: "effect \<Rightarrow> bool" where
  "is_on_activate e = (case e of OnActivate _ \<Rightarrow> True | _ \<Rightarrow> False)"

definition is_activate_settled :: "effect \<Rightarrow> bool" where
  "is_activate_settled e = (case e of ActivateSettled _ _ \<Rightarrow> True | _ \<Rightarrow> False)"

definition on_enable_calls :: "world \<Rightarrow> nat" where
  "on_enable_calls w = length (filter is_on_enable (trace w))"

definition enable_settlements :: "world \<Rightarrow> nat" where
  "enable_settlements w = length (filter is_enable_settled (trace w))"

definition on_activate_calls :: "world \<Rightarrow> nat" where
  "on_activate_calls w = length (filter is_on_activate (trace w))"

definition activate_settlements :: "world \<Rightarrow> nat" where
  "activate_settlements w = length (filter is_activate_settled (trace w))"

definition enable_succeeded :: "world \<Rightarrow> bool" where
  "enable_succeeded w = list_ex is_enable_success (trace w)"

definition slot_ok :: "nat list \<Rightarrow> nat option \<Rightarrow> bool \<Rightarrow> bool" where
  "slot_ok pend slot done \<longleftrightarrow> pend = [] \<or> (\<exists>p. pend = [p] \<and> slot = Some p \<and> \<not> done)"

definition lc_inv :: "world \<Rightarrow> bool" where
  "lc_inv w \<longleftrightarrow>
     slot_ok (pending_en w) (enabling (ext w)) (enabled (ext w)) \<and>
     slot_ok (pending_act w) (activating (ext w)) (activated (ext w)) \<and>
     on_enable_calls w = enable_settlements w + length (pending_en w) \<and>
     on_activate_calls w = activate_settlements w + length (pending_act w) \<and>
     (enable_succeeded w \<longrightarrow> enabling (ext w) \<noteq> None \<and> pending_en w = [])"

subsection \<open>Frame lemmas and invariant preservation\<close>

lemma teardown_refl [simp]: "teardown w w"
  by (auto simp: teardown_def intro: exI [of _ "[]"])

lemma teardown_trans: "teardown w1 w2 \<Longrightarrow> teardown w2 w3 \<Longrightarrow> teardown w1 w3"
  unfolding teardown_def by (metis (no_types, lifting) append.assoc list_all_append)

lemma teardown_tasks [simp]: "teardown w (w'\<lparr>tasks := ts\<rparr>) = teardown w w'"
  by (simp add: teardown_def)

lemma teardown_tasks_left [simp]: "teardown (w\<lparr>tasks := ts\<rparr>) w' = teardown w w'"
  by (simp add: teardown_def)

lemma teardown_snoc:
  assumes td: "teardown w w'" and e: "is_teardown e"
  shows "teardown w (w'\<lparr>trace := trace w' @ [e]\<rparr>)"
proof -
  from td obtain es where es: "trace w' = trace w @ es" "list_all is_teardown es"
    unfolding teardown_def by blast
  from es e have "trace w' @ [e] = trace w @ (es @ [e]) \<and> list_all is_teardown (es @ [e])"
    by simp
  with td show ?thesis unfolding teardown_def by auto
qed

lemma teardown_log_if: "teardown w w' \<Longrightarrow> teardown w (log_if f w')"
  by (simp add: log_if_def teardown_snoc is_teardown_def)

lemma deact_finish_td: "teardown w (fst (deact_finish w))"
  by (auto simp: deact_finish_def Let_def teardown_def is_teardown_def split: option.splits
      intro: exI [of _ "[]"])

lemma deact_start_td: "teardown w (fst (deact_start w))"
  by (simp add: deact_start_def deact_finish_td split: option.splits)

lemma deact_resume_td: "deact_resume dw f w = Some r \<Longrightarrow> teardown w (fst r)"
proof (cases dw)
  case (DWait p)
  moreover assume "deact_resume dw f w = Some r"
  ultimately show ?thesis by (auto simp: deact_finish_td split: if_splits)
next
  case (DDisposing d)
  moreover assume "deact_resume dw f w = Some r"
  moreover have "teardown w (w\<lparr>ext := (ext w)\<lparr>activateDisposer := None\<rparr>\<rparr>)"
    by (auto simp: teardown_def intro: exI [of _ "[]"])
  ultimately show ?thesis by (auto intro: teardown_log_if)
qed

lemma dis_finish_td: "teardown w (fst (dis_finish w))"
  by (auto simp: dis_finish_def Let_def teardown_def is_teardown_def split: option.splits
      intro: exI [of _ "[]"])

lemma dis_check_td: "teardown w (fst (dis_check w))"
  by (simp add: dis_check_def dis_finish_td split: option.splits)

lemma disable_call_td: "teardown w (fst (disable_call w))"
  using deact_start_td [of w] by (cases "deact_start w") (simp add: disable_call_def)

lemma deactivate_call_td: "teardown w (fst (deactivate_call w))"
  using deact_start_td [of w] by (cases "deact_start w") (simp add: deactivate_call_def)

lemma dispose_call_td: "teardown w (fst (dispose_call w))"
  using deact_start_td [of w] by (cases "deact_start w") (simp add: dispose_call_def)

lemma lift_deact_td:
  "(\<And>r. d = Some r \<Longrightarrow> teardown w (fst r)) \<Longrightarrow> lift_deact k d = Some r' \<Longrightarrow> teardown w (fst r')"
  by (auto simp: lift_deact_def)

lemma task_step_td: "task_step t f w = Some r \<Longrightarrow> teardown w (fst r)"
proof (induction t f w rule: task_step.induct)
  case (7 d f w)
  have "teardown w (w\<lparr>ext := (ext w)\<lparr>enableDisposer := None\<rparr>\<rparr>)"
    by (auto simp: teardown_def intro: exI [of _ "[]"])
  with "7" show ?case by (auto intro: teardown_log_if)
qed (auto split: if_splits intro: deact_resume_td lift_deact_td dis_check_td dis_finish_td
       disable_call_td)

lemma spawn_td: "teardown w (fst r) \<Longrightarrow> teardown w (spawn r)"
  by (auto simp: spawn_def split: prod.splits option.splits)

lemma drop_task_td [simp]: "teardown (drop_task i w) w' = teardown w w'"
  by (simp add: drop_task_def)

lemmas effect_preds = is_on_enable_def is_enable_settled_def is_enable_success_def
  is_on_activate_def is_activate_settled_def is_teardown_def

lemmas trace_counts = on_enable_calls_def enable_settlements_def on_activate_calls_def
  activate_settlements_def enable_succeeded_def

lemma teardown_effects:
  "list_all is_teardown es \<Longrightarrow> filter is_on_enable es = [] \<and> filter is_enable_settled es = [] \<and>
     filter is_on_activate es = [] \<and> filter is_activate_settled es = [] \<and>
     \<not> list_ex is_enable_success es"
  by (induction es) (auto simp: effect_preds split: effect.splits)

lemma slot_ok_weaken: "slot_ok pend slot d \<Longrightarrow> (d' \<longrightarrow> d) \<Longrightarrow> slot_ok pend slot d'"
  by (auto simp: slot_ok_def)

lemma lc_inv_teardown:
  assumes inv: "lc_inv w" and td: "teardown w w'"
  shows "lc_inv w'"
proof -
  from td obtain es where es: "trace w' = trace w @ es" "list_all is_teardown es"
    and same: "pending_en w' = pending_en w" "pending_act w' = pending_act w"
      "enabling (ext w') = enabling (ext w)" "activating (ext w') = activating (ext w)"
    and mono: "enabled (ext w') \<longrightarrow> enabled (ext w)" "activated (ext w') \<longrightarrow> activated (ext w)"
    unfolding teardown_def by blast
  from es(2) have none: "filter is_on_enable es = []" "filter is_enable_settled es = []"
    "filter is_on_activate es = []" "filter is_activate_settled es = []"
    "\<not> list_ex is_enable_success es" by (simp_all add: teardown_effects)
  have counts: "on_enable_calls w' = on_enable_calls w" "enable_settlements w' = enable_settlements w"
    "on_activate_calls w' = on_activate_calls w" "activate_settlements w' = activate_settlements w"
    "enable_succeeded w' = enable_succeeded w"
    using es(1) none by (simp_all add: trace_counts)
  from inv have "slot_ok (pending_en w) (enabling (ext w)) (enabled (ext w))"
    "slot_ok (pending_act w) (activating (ext w)) (activated (ext w))"
    by (simp_all add: lc_inv_def)
  from slot_ok_weaken [OF this(1) mono(1)] slot_ok_weaken [OF this(2) mono(2)]
  have "slot_ok (pending_en w') (enabling (ext w')) (enabled (ext w'))"
    "slot_ok (pending_act w') (activating (ext w')) (activated (ext w'))"
    by (simp_all add: same)
  then show ?thesis
    using inv by (simp add: lc_inv_def counts same)
qed

lemma lc_inv_init: "lc_inv (world_init e)"
  by (simp add: lc_inv_def world_init_def slot_ok_def trace_counts)

lemma lc_inv_tasks [simp]: "lc_inv (w\<lparr>tasks := ts\<rparr>) = lc_inv w"
  by (simp add: lc_inv_def trace_counts)

lemma lc_inv_spawn [simp]: "lc_inv (spawn r) = lc_inv (fst r)"
  by (simp add: spawn_def split: prod.splits option.splits)

lemma enable_call_cases:
  "enabled (ext w) \<Longrightarrow> enable_call w = (w, None)"
  "\<not> enabled (ext w) \<Longrightarrow> enabling (ext w) = Some p \<Longrightarrow> enable_call w = (w, Some (TEnable p))"
  "\<not> enabled (ext w) \<Longrightarrow> enabling (ext w) = None \<Longrightarrow>
     enable_call w = (w\<lparr>ext := (ext w)\<lparr>enabling := Some (fresh w)\<rparr>,
        pending_en := pending_en w @ [fresh w], fresh := Suc (fresh w),
        trace := trace w @ [OnEnable (fresh w)]\<rparr>, None)"
  by (simp_all add: enable_call_def Let_def)

lemma lc_inv_enable_call:
  assumes inv: "lc_inv w"
  shows "lc_inv (fst (enable_call w))"
proof (cases "enabled (ext w)")
  case True
  with inv show ?thesis by (simp add: enable_call_cases)
next
  case False
  show ?thesis
  proof (cases "enabling (ext w)")
    case (Some p)
    with False inv show ?thesis by (simp add: enable_call_cases)
  next
    case None
    with inv have "pending_en w = []" "\<not> enable_succeeded w"
      by (auto simp: lc_inv_def slot_ok_def)
    with inv False None show ?thesis
      by (simp add: enable_call_cases lc_inv_def slot_ok_def trace_counts effect_preds)
  qed
qed

lemma activate_call_cases:
  "activated (ext w) \<Longrightarrow> activate_call w = (w, None)"
  "\<not> activated (ext w) \<Longrightarrow> activating (ext w) = Some p \<Longrightarrow> activate_call w = (w, Some (TActivate p))"
  "\<not> activated (ext w) \<Longrightarrow> activating (ext w) = None \<Longrightarrow>
     activate_call w = (w\<lparr>ext := (ext w)\<lparr>activating := Some (fresh w)\<rparr>,
        pending_act := pending_act w @ [fresh w], fresh := Suc (fresh w),
        trace := trace w @ [OnActivate (fresh w)]\<rparr>, None)"
  by (simp_all add: activate_call_def Let_def)

lemma lc_inv_activate_call:
  assumes inv: "lc_inv w"
  shows "lc_inv (fst (activate_call w))"
proof (cases "activated (ext w)")
  case True
  with inv show ?thesis by (simp add: activate_call_cases)
next
  case False
  show ?thesis
  proof (cases "activating (ext w)")
    case (Some p)
    with False inv show ?thesis by (simp add: activate_call_cases)
  next
    case None
    with inv have "pending_act w = []"
      by (auto simp: lc_inv_def slot_ok_def)
    with inv False None show ?thesis
      by (simp add: activate_call_cases lc_inv_def slot_ok_def trace_counts effect_preds)
  qed
qed

lemma lc_inv_enable_resolve: "lc_inv w \<Longrightarrow> enable_resolve p w = Some w' \<Longrightarrow> lc_inv w'"
  by (auto simp: enable_resolve_def lc_inv_def slot_ok_def trace_counts effect_preds Let_def
      split: if_splits)

lemma lc_inv_enable_reject: "lc_inv w \<Longrightarrow> enable_reject p w = Some w' \<Longrightarrow> lc_inv w'"
  by (auto simp: enable_reject_def lc_inv_def slot_ok_def trace_counts effect_preds Let_def
      split: if_splits)

lemma lc_inv_activate_resolve: "lc_inv w \<Longrightarrow> activate_resolve p w = Some w' \<Longrightarrow> lc_inv w'"
  by (auto simp: activate_resolve_def lc_inv_def slot_ok_def trace_counts effect_preds Let_def
      split: if_splits)

lemma lc_inv_activate_reject: "lc_inv w \<Longrightarrow> activate_reject p w = Some w' \<Longrightarrow> lc_inv w'"
  by (auto simp: activate_reject_def lc_inv_def slot_ok_def trace_counts effect_preds Let_def
      split: if_splits)

lemma lc_inv_spawn_td: "lc_inv w \<Longrightarrow> teardown w (fst r) \<Longrightarrow> lc_inv (spawn r)"
  by (simp add: lc_inv_teardown)

lemma lc_inv_exec:
  assumes inv: "lc_inv w" and ex: "ext_exec w ev = Some w'"
  shows "lc_inv w'"
proof (cases ev)
  case CallEnable
  with inv ex show ?thesis by (auto simp: lc_inv_enable_call)
next
  case CallActivate
  with inv ex show ?thesis by (auto simp: lc_inv_activate_call)
next
  case CallDisable
  with ex lc_inv_spawn_td [OF inv disable_call_td] show ?thesis by simp
next
  case CallDeactivate
  with ex lc_inv_spawn_td [OF inv deactivate_call_td] show ?thesis by simp
next
  case CallDispose
  with ex lc_inv_spawn_td [OF inv dispose_call_td] show ?thesis by simp
next
  case (EnableOk p)
  with inv ex show ?thesis by (simp add: lc_inv_enable_resolve)
next
  case (EnableFail p)
  with inv ex show ?thesis by (simp add: lc_inv_enable_reject)
next
  case (ActivateOk p)
  with inv ex show ?thesis by (simp add: lc_inv_activate_resolve)
next
  case (ActivateFail p)
  with inv ex show ?thesis by (simp add: lc_inv_activate_reject)
next
  case (Resume i f)
  with ex obtain r where r: "task_step (tasks w ! i) f (drop_task i w) = Some r" "w' = spawn r"
    by (auto split: if_splits)
  from r(1) have "teardown (drop_task i w) (fst r)" by (rule task_step_td)
  then have "teardown w (fst r)" by simp
  with inv r(2) show ?thesis by (simp add: lc_inv_teardown)
qed

lemma ext_reach_lc_inv: "ext_reach w \<Longrightarrow> lc_inv w"
  by (induction rule: ext_reach.induct) (auto intro: lc_inv_init lc_inv_exec)

lemma ext_reach_run: "ext_reach w \<Longrightarrow> ext_run w evs = Some w' \<Longrightarrow> ext_reach w'"
proof (induction evs arbitrary: w)
  case Nil
  then show ?case by simp
next
  case (Cons ev evs)
  then obtain w1 where "ext_exec w ev = Some w1" "ext_run w1 evs = Some w'"
    by (auto split: option.splits)
  with Cons show ?case by (blast intro: ext_reach.step)
qed

lemma ext_run_append:
  "ext_run w (xs @ ys) = (case ext_run w xs of None \<Rightarrow> None | Some w' \<Rightarrow> ext_run w' ys)"
  by (induction xs arbitrary: w) (auto split: option.splits)

lemma ext_reach_from_init:
  "ext_run (world_init (fext_new n p)) evs = Some w \<Longrightarrow> ext_reach w"
  by (rule ext_reach_run [OF ext_reach.init])

lemmas world_simps = world_init_def fext_new_def spawn_def drop_task_def log_if_def
  enable_call_def enable_resolve_def enable_reject_def activate_call_def activate_resolve_def
  activate_reject_def deact_finish_def deact_start_def dis_finish_def dis_check_def
  disable_call_def deactivate_call_def dispose_call_def lift_deact_def Let_def


subsection \<open>Runs of the scheduler\<close>

lemma ext_run_join_enables:
  "\<not> enabled (ext w) \<Longrightarrow> enabling (ext w) = Some p \<Longrightarrow>
   ext_run w (replicate n CallEnable) = Some (w\<lparr>tasks := tasks w @ replicate n (TEnable p)\<rparr>)"
proof (induction n arbitrary: w)
  case 0
  then show ?case by simp
next
  case (Suc n)
  let ?w1 = "w\<lparr>tasks := tasks w @ [TEnable p]\<rparr>"
  have step: "ext_exec w CallEnable = Some ?w1"
    using Suc.prems by (simp add: enable_call_cases spawn_def)
  have "ext_run ?w1 (replicate n CallEnable) = Some (?w1\<lparr>tasks := tasks ?w1 @ replicate n (TEnable p)\<rparr>)"
    using Suc.prems by (intro Suc.IH) simp_all
  with step show ?case by simp
qed

lemma ext_run_release_joined:
  "p \<in> set (resolved w) \<Longrightarrow> tasks w = ts @ replicate n (TEnable p) \<Longrightarrow>
   ext_run w (replicate n (Resume (length ts) f)) = Some (w\<lparr>tasks := ts\<rparr>)"
proof (induction n arbitrary: w)
  case 0
  then show ?case by simp
next
  case (Suc n)
  let ?w1 = "w\<lparr>tasks := ts @ replicate n (TEnable p)\<rparr>"
  have step: "ext_exec w (Resume (length ts) f) = Some ?w1"
    using Suc.prems by (simp add: drop_task_def spawn_def nth_append)
  have "ext_run ?w1 (replicate n (Resume (length ts) f)) = Some (?w1\<lparr>tasks := ts\<rparr>)"
    using Suc.prems by (intro Suc.IH) simp_all
  with step show ?case by simp
qed

lemma teardown_counts:
  assumes td: "teardown w w'"
  shows "on_enable_calls w' = on_enable_calls w \<and> enable_settlements w' = enable_settlements w \<and>
    on_activate_calls w' = on_activate_calls w \<and> activate_settlements w' = activate_settlements w \<and>
    enable_succeeded w' = enable_succeeded w"
proof -
  from td obtain es where es: "trace w' = trace w @ es" "list_all is_teardown es"
    unfolding teardown_def by blast
  from es(2) have "filter is_on_enable es = []" "filter is_enable_settled es = []"
    "filter is_on_activate es = []" "filter is_activate_settled es = []"
    "\<not> list_ex is_enable_success es" by (simp_all add: teardown_effects)
  with es(1) show ?thesis by (simp add: trace_counts)
qed

lemma activate_events_keep_enable:
  assumes "ev = CallActivate \<or> ev = ActivateOk q \<or> ev = ActivateFail q" "ext_exec w ev = Some w'"
  shows "enabled (ext w') = enabled (ext w) \<and> on_enable_calls w' = on_enable_calls w \<and>
    enable_succeeded w' = enable_succeeded w"
  using assms
  by (auto simp: activate_call_def activate_resolve_def activate_reject_def spawn_def Let_def
      trace_counts effect_preds split: if_splits option.splits)

lemma stays_disabled_step:
  assumes inv: "lc_inv w" and succ: "enable_succeeded w" and off: "\<not> enabled (ext w)"
    and ex: "ext_exec w ev = Some w'"
  shows "enable_succeeded w' \<and> \<not> enabled (ext w') \<and> on_enable_calls w' = on_enable_calls w"
proof -
  from inv succ obtain p where slot: "enabling (ext w) = Some p" and pend: "pending_en w = []"
    by (auto simp: lc_inv_def)
  show ?thesis
  proof (cases ev)
    case CallEnable
    with ex off slot succ show ?thesis by (auto simp: enable_call_cases spawn_def trace_counts)
  next
    case (EnableOk q)
    with ex pend show ?thesis by (simp add: enable_resolve_def)
  next
    case (EnableFail q)
    with ex pend show ?thesis by (simp add: enable_reject_def)
  next
    case CallActivate
    with ex off succ activate_events_keep_enable [of ev] show ?thesis by blast
  next
    case (ActivateOk q)
    with ex off succ activate_events_keep_enable [of ev q] show ?thesis by blast
  next
    case (ActivateFail q)
    with ex off succ activate_events_keep_enable [of ev q] show ?thesis by blast
  next
    case CallDisable
    with ex have "teardown w w'" using spawn_td [OF disable_call_td [of w]] by simp
    with off succ teardown_counts [of w w'] show ?thesis by (simp add: teardown_def)
  next
    case CallDeactivate
    with ex have "teardown w w'" using spawn_td [OF deactivate_call_td [of w]] by simp
    with off succ teardown_counts [of w w'] show ?thesis by (simp add: teardown_def)
  next
    case CallDispose
    with ex have "teardown w w'" using spawn_td [OF dispose_call_td [of w]] by simp
    with off succ teardown_counts [of w w'] show ?thesis by (simp add: teardown_def)
  next
    case (Resume i f)
    with ex obtain r where r: "task_step (tasks w ! i) f (drop_task i w) = Some r" "w' = spawn r"
      by (auto split: if_splits)
    from r(1) have "teardown (drop_task i w) (fst r)" by (rule task_step_td)
    with r(2) have "teardown w w'" by (simp add: spawn_td)
    with off succ teardown_counts [of w w'] show ?thesis by (simp add: teardown_def)
  qed
qed

subsection \<open>Properties of the lifecycle\<close>

text \<open>C1. Concurrency safety of the in-flight guards (\<open>if (this._enabling) return this._enabling\<close>
  and its activation twin): in every reachable world, under every interleaving of callers
  and every timing of the capability, \<open>onEnable\<close> has been invoked at most once more than
  its promises have settled, and likewise \<open>onActivate\<close>: the capability never runs two
  enables (or two activations) at the same time.\<close>

theorem at_most_one_capability_call_in_flight:
  "ext_reach w \<Longrightarrow> on_enable_calls w \<le> enable_settlements w + 1 \<and>
     on_activate_calls w \<le> activate_settlements w + 1"
proof -
  assume "ext_reach w"
  then have inv: "lc_inv w" by (rule ext_reach_lc_inv)
  then have "length (pending_en w) \<le> 1" "length (pending_act w) \<le> 1"
    by (auto simp: lc_inv_def slot_ok_def)
  with inv show ?thesis by (simp add: lc_inv_def)
qed

theorem at_most_one_capability_call_in_flight_witness:
  "\<exists>w. ext_run (world_init (fext_new ''foo'' ''/ext/foo''))
       [CallEnable, CallEnable, CallActivate, CallActivate] = Some w \<and> ext_reach w \<and>
     on_enable_calls w \<le> enable_settlements w + 1 \<and> on_activate_calls w \<le> activate_settlements w + 1"
proof -
  obtain w where w: "ext_run (world_init (fext_new ''foo'' ''/ext/foo''))
       [CallEnable, CallEnable, CallActivate, CallActivate] = Some w"
    by (simp add: world_simps)
  then have r: "ext_reach w" by (rule ext_reach_from_init)
  have b: "on_enable_calls w \<le> enable_settlements w + 1 \<and> on_activate_calls w \<le> activate_settlements w + 1"
    using r by (rule at_most_one_capability_call_in_flight)
  show ?thesis by (intro exI [of _ w] conjI w r b)
qed

text \<open>C2. Concurrent \<open>enable()\<close> calls collapse onto one operation: from a reachable world in which
  the extension is neither enabled nor enabling, n+1 calls of \<open>enable()\<close> invoke
  \<open>onEnable\<close> exactly once; the n later callers join the same promise, and when it
  succeeds all of them are released, the extension is enabled with the returned disposer,
  and the trace holds exactly one \<open>onEnable\<close> and its settlement.\<close>

theorem enable_calls_collapse:
  assumes reach: "ext_reach w" and off: "\<not> enabled (ext w)" "enabling (ext w) = None"
  shows "ext_run w (replicate (Suc n) CallEnable @ [EnableOk (fresh w)] @
             replicate n (Resume (length (tasks w)) f)) =
         Some (w\<lparr>ext := (ext w)\<lparr>enabling := Some (fresh w), enableDisposer := Some (Suc (fresh w)),
                    enabled := True\<rparr>,
                 resolved := fresh w # resolved w, fresh := Suc (Suc (fresh w)),
                 trace := trace w @ [OnEnable (fresh w), EnableSettled (fresh w) True]\<rparr>)"
proof -
  let ?p = "fresh w"
  from ext_reach_lc_inv [OF reach] off have pend: "pending_en w = []"
    by (auto simp: lc_inv_def slot_ok_def)
  let ?w1 = "w\<lparr>ext := (ext w)\<lparr>enabling := Some ?p\<rparr>, pending_en := [?p], fresh := Suc ?p,
                trace := trace w @ [OnEnable ?p]\<rparr>"
  have s1: "ext_exec w CallEnable = Some ?w1"
    using off pend by (simp add: enable_call_cases spawn_def)
  have s2: "ext_run ?w1 (replicate n CallEnable) =
      Some (?w1\<lparr>tasks := tasks w @ replicate n (TEnable ?p)\<rparr>)"
    using ext_run_join_enables [of ?w1 ?p n] off by simp
  let ?w2 = "?w1\<lparr>tasks := tasks w @ replicate n (TEnable ?p)\<rparr>"
  let ?w3 = "?w2\<lparr>ext := (ext ?w2)\<lparr>enableDisposer := Some (Suc ?p), enabled := True\<rparr>,
                 pending_en := [], resolved := ?p # resolved w, fresh := Suc (Suc ?p),
                 trace := trace w @ [OnEnable ?p, EnableSettled ?p True]\<rparr>"
  have s3: "ext_exec ?w2 (EnableOk ?p) = Some ?w3"
    by (simp add: enable_resolve_def)
  have s4: "ext_run ?w3 (replicate n (Resume (length (tasks w)) f)) = Some (?w3\<lparr>tasks := tasks w\<rparr>)"
    using ext_run_release_joined [of ?p ?w3 "tasks w" n] by simp
  have fin: "?w3\<lparr>tasks := tasks w\<rparr> = w\<lparr>ext := (ext w)\<lparr>enabling := Some ?p, enableDisposer := Some (Suc ?p),
                    enabled := True\<rparr>,
                 resolved := ?p # resolved w, fresh := Suc (Suc ?p),
                 trace := trace w @ [OnEnable ?p, EnableSettled ?p True]\<rparr>"
    using pend by simp
  let ?R = "replicate n (Resume (length (tasks w)) f)"
  have "ext_run w (replicate (Suc n) CallEnable @ [EnableOk ?p] @ ?R) =
      ext_run ?w1 (replicate n CallEnable @ [EnableOk ?p] @ ?R)"
    by (simp only: replicate_Suc append_Cons ext_run.simps s1 option.case)
  also have "\<dots> = ext_run ?w2 (EnableOk ?p # ?R)"
    by (simp only: ext_run_append s2 option.case append_Cons append_Nil)
  also have "\<dots> = ext_run ?w3 ?R"
    by (simp only: ext_run.simps s3 option.case)
  finally show ?thesis using s4 fin by simp
qed

theorem enable_calls_collapse_witness:
  "let w = world_init (fext_new ''foo'' ''/ext/foo'') in
   ext_reach w \<and> \<not> enabled (ext w) \<and> enabling (ext w) = None \<and>
   ext_run w (replicate (Suc 2) CallEnable @ [EnableOk (fresh w)] @
       replicate 2 (Resume (length (tasks w)) False)) =
     Some (w\<lparr>ext := (ext w)\<lparr>enabling := Some (fresh w), enableDisposer := Some (Suc (fresh w)),
                    enabled := True\<rparr>,
                 resolved := fresh w # resolved w, fresh := Suc (Suc (fresh w)),
                 trace := trace w @ [OnEnable (fresh w), EnableSettled (fresh w) True]\<rparr>)"
  unfolding Let_def
proof (intro conjI)
  let ?w = "world_init (fext_new ''foo'' ''/ext/foo'')"
  show h1: "ext_reach ?w" by (rule ext_reach.init)
  show h2: "\<not> enabled (ext ?w)" by (simp add: world_init_def fext_new_def)
  show h3: "enabling (ext ?w) = None" by (simp add: world_init_def fext_new_def)
  show "ext_run ?w (replicate (Suc 2) CallEnable @ [EnableOk (fresh ?w)] @
       replicate 2 (Resume (length (tasks ?w)) False)) =
     Some (?w\<lparr>ext := (ext ?w)\<lparr>enabling := Some (fresh ?w), enableDisposer := Some (Suc (fresh ?w)),
                    enabled := True\<rparr>,
                 resolved := fresh ?w # resolved ?w, fresh := Suc (Suc (fresh ?w)),
                 trace := trace ?w @ [OnEnable (fresh ?w), EnableSettled (fresh ?w) True]\<rparr>)"
    by (rule enable_calls_collapse [OF h1 h2 h3])
qed

text \<open>C3. A disabled extension can never be enabled again: once an \<open>onEnable\<close> has succeeded, the
  \<open>_enabling\<close> promise is never reset (\<open>disable\<close> leaves it in place), so after the
  extension is disabled every later \<open>enable()\<close> returns the stale settled promise: in
  every continuation the extension stays disabled and \<open>onEnable\<close> is not called again.\<close>

theorem disabled_extension_never_reenabled:
  assumes "ext_reach w" "enable_succeeded w" "\<not> enabled (ext w)" "ext_run w evs = Some w'"
  shows "\<not> enabled (ext w') \<and> on_enable_calls w' = on_enable_calls w"
  using assms
proof (induction evs arbitrary: w)
  case Nil
  then show ?case by simp
next
  case (Cons ev evs)
  then obtain w1 where w1: "ext_exec w ev = Some w1" "ext_run w1 evs = Some w'"
    by (auto split: option.splits)
  from Cons.prems(1) have inv: "lc_inv w" by (rule ext_reach_lc_inv)
  from stays_disabled_step [OF inv Cons.prems(2,3) w1(1)]
  have s: "enable_succeeded w1" "\<not> enabled (ext w1)" "on_enable_calls w1 = on_enable_calls w"
    by simp_all
  from Cons.prems(1) w1(1) have "ext_reach w1" by (rule ext_reach.step)
  from Cons.IH [OF this s(1,2) w1(2)] s(3) show ?case by simp
qed

theorem disabled_extension_never_reenabled_witness:
  "\<exists>w w'. ext_run (world_init (fext_new ''foo'' ''/ext/foo''))
       [CallEnable, EnableOk 0, CallDisable, Resume 0 False, Resume 0 False] = Some w \<and>
     ext_reach w \<and> enable_succeeded w \<and> \<not> enabled (ext w) \<and>
     ext_run w [CallEnable, Resume 0 False] = Some w' \<and>
     \<not> enabled (ext w') \<and> on_enable_calls w' = on_enable_calls w"
proof -
  let ?w0 = "world_init (fext_new ''foo'' ''/ext/foo'')"
  obtain w where w: "ext_run ?w0 [CallEnable, EnableOk 0, CallDisable, Resume 0 False, Resume 0 False] = Some w"
    by (simp add: world_simps)
  then have r: "ext_reach w" by (rule ext_reach_from_init)
  from w have props: "enable_succeeded w" "\<not> enabled (ext w)"
    by (auto simp: world_simps trace_counts effect_preds)
  obtain w' where w': "ext_run w [CallEnable, Resume 0 False] = Some w'"
    using w by (auto simp: world_simps)
  from disabled_extension_never_reenabled [OF r props w'] w w' r props show ?thesis by blast
qed

text \<open>C4. Concurrent teardown is not idempotent: two overlapping \<open>disable()\<close> calls on an enabled
  extension both invoke the same enable-disposer, because the first is suspended in
  \<open>await this._enableDisposer.dispose()\<close> before it clears the field while the second
  reaches the same test.\<close>

theorem concurrent_disable_disposes_twice:
  "\<exists>w. ext_run (world_init (fext_new n p))
       [CallEnable, EnableOk 0, CallDisable, CallDisable, Resume 0 False, Resume 0 False,
        Resume 1 False] = Some w \<and> ext_reach w \<and> count_list (trace w) (Dispose 1) = 2"
proof -
  obtain w where w: "ext_run (world_init (fext_new n p))
       [CallEnable, EnableOk 0, CallDisable, CallDisable, Resume 0 False, Resume 0 False,
        Resume 1 False] = Some w"
    by (simp add: world_simps)
  moreover from w have "ext_reach w" by (rule ext_reach_from_init)
  moreover from w have "count_list (trace w) (Dispose 1) = 2" by (auto simp: world_simps)
  ultimately show ?thesis by blast
qed

text \<open>C5. \<open>disable()\<close> on an extension that was never enabled nor activated returns after its one
  \<open>await\<close> without calling the capability, the logger or any disposer, and leaves the world
  exactly as it was.\<close>

theorem disable_never_enabled_is_noop:
  assumes "\<not> enabled (ext w)" "enabling (ext w) = None"
    "\<not> activated (ext w)" "activating (ext w) = None"
  shows "ext_run w [CallDisable, Resume (length (tasks w)) f] = Some w"
  using assms by (simp add: disable_call_def deact_start_def dis_check_def spawn_def drop_task_def)

theorem disable_never_enabled_is_noop_witness:
  "\<not> enabled (ext (world_init (fext_new ''foo'' ''/ext/foo''))) \<and>
   ext_run (world_init (fext_new ''foo'' ''/ext/foo'')) [CallDisable, Resume 0 False] =
     Some (world_init (fext_new ''foo'' ''/ext/foo''))"
  using disable_never_enabled_is_noop [of "world_init (fext_new ''foo'' ''/ext/foo'')" False]
  by (simp add: world_init_def fext_new_def)

text \<open>C6. \<open>activate()\<close> does not require the extension to be enabled: from a fresh extension,
  \<open>activate()\<close> followed by the success of \<open>onActivate\<close> yields an activated extension
  that was never enabled and whose \<open>onEnable\<close> was never called.\<close>

theorem activate_without_enable:
  "\<exists>w. ext_run (world_init (fext_new n p)) [CallActivate, ActivateOk 0] = Some w \<and>
     ext_reach w \<and> activated (ext w) \<and> \<not> enabled (ext w) \<and> on_enable_calls w = 0"
proof -
  obtain w where w: "ext_run (world_init (fext_new n p)) [CallActivate, ActivateOk 0] = Some w"
    by (simp add: world_simps)
  moreover from w have "ext_reach w" by (rule ext_reach_from_init)
  moreover from w have "activated (ext w) \<and> \<not> enabled (ext w) \<and> on_enable_calls w = 0"
    by (auto simp: world_simps trace_counts effect_preds)
  ultimately show ?thesis by blast
qed

end
