(* ===== verification/Rpc.thy ===== *)
theory Rpc
  imports Prelude
begin

text \<open>
  The RPC protocol bridge between the host (\<open>MainThread\<close>) and the isolated extension
  process. \<open>RPCProtocol\<close> comes from the package \<open>@ali/ide-connection\<close>, which is not
  part of \<open>src/\<close>; it is modelled from the contract of the specification (sections 3,
  4.4 and 7): one endpoint holds the published services (\<open>set\<close>), the counter of
  correlation ids, the pending-call table, the messages it has sent (in order), the
  outcome of each settled call, and whether its channel has closed.

  A service is a JavaScript object of methods; only the methods whose name starts with
  the reserved marker \<open>$\<close> are dispatchable. A method body is a function from its
  arguments to a value or a thrown error (\<open>rpc_error + 'v\<close>). Messages carry their kind
  (request, response, error response), the correlation id and, for a request, the target
  identifier, the method and the arguments.

  \<open>link\<close> connects two endpoints by their outboxes: a delivery step takes the oldest
  undelivered message of one side and hands it to the other, so each direction is FIFO
  while the two directions interleave freely.
\<close>

datatype rpc_error = DispatchError string | ChannelClosed | DuplicateService string

datatype 'v msg =
    Request nat string string "'v list"
  | Reply nat 'v
  | ReplyErr nat rpc_error

datatype 'v outcome = Resolved 'v | Rejected rpc_error

type_synonym 'v service = "(string, 'v list \<Rightarrow> rpc_error + 'v) jsmap"

record 'v endpoint =
  ep_next :: nat
  ep_pending :: "nat list"
  ep_services :: "(string, 'v service) jsmap"
  ep_outbox :: "'v msg list"
  ep_outcomes :: "(nat \<times> 'v outcome) list"
  ep_closed :: bool

definition rpc_new :: "'v endpoint" where
  "rpc_new = \<lparr>ep_next = 0, ep_pending = [], ep_services = [], ep_outbox = [], ep_outcomes = [],
     ep_closed = False\<rparr>"

definition remote_callable :: "string \<Rightarrow> bool" where
  "remote_callable m = (take 1 m = ''$'')"

subsection \<open>The endpoint's operations\<close>

definition rpc_set :: "string \<Rightarrow> 'v service \<Rightarrow> 'v endpoint \<Rightarrow> rpc_error + 'v endpoint" where
  "rpc_set i impl ep =
     (if jsmap_has (ep_services ep) i then Inl (DuplicateService i)
      else Inr (ep\<lparr>ep_services := jsmap_set i impl (ep_services ep)\<rparr>))"

text \<open>A call through a proxy: a fresh correlation id, a pending slot and the request sent;
  on a closed channel the call is rejected at once.\<close>

definition rpc_call :: "string \<Rightarrow> string \<Rightarrow> 'v list \<Rightarrow> 'v endpoint \<Rightarrow> nat \<times> 'v endpoint" where
  "rpc_call t m args ep =
     (let i = ep_next ep in
      if ep_closed ep then (i, ep\<lparr>ep_next := Suc i, ep_outcomes := ep_outcomes ep @ [(i, Rejected ChannelClosed)]\<rparr>)
      else (i, ep\<lparr>ep_next := Suc i, ep_pending := ep_pending ep @ [i],
                 ep_outbox := ep_outbox ep @ [Request i t m args]\<rparr>))"

definition dispatch :: "'v endpoint \<Rightarrow> string \<Rightarrow> string \<Rightarrow> 'v list \<Rightarrow> rpc_error + 'v" where
  "dispatch ep t m args =
     (case jsmap_get (ep_services ep) t of
        None \<Rightarrow> Inl (DispatchError t)
      | Some svc \<Rightarrow>
          (if \<not> remote_callable m then Inl (DispatchError m)
           else case jsmap_get svc m of
             None \<Rightarrow> Inl (DispatchError m)
           | Some h \<Rightarrow> h args))"

definition settle :: "nat \<Rightarrow> 'v outcome \<Rightarrow> 'v endpoint \<Rightarrow> 'v endpoint" where
  "settle i r ep =
     (if i \<in> set (ep_pending ep)
      then ep\<lparr>ep_pending := remove1 i (ep_pending ep), ep_outcomes := ep_outcomes ep @ [(i, r)]\<rparr>
      else ep)"

fun rpc_receive :: "'v msg \<Rightarrow> 'v endpoint \<Rightarrow> 'v endpoint" where
  "rpc_receive (Request i t m args) ep =
     (if ep_closed ep then ep
      else ep\<lparr>ep_outbox := ep_outbox ep @
             [case dispatch ep t m args of Inr v \<Rightarrow> Reply i v | Inl e \<Rightarrow> ReplyErr i e]\<rparr>)"
| "rpc_receive (Reply i v) ep = settle i (Resolved v) ep"
| "rpc_receive (ReplyErr i e) ep = settle i (Rejected e) ep"

definition rejections :: "nat list \<Rightarrow> (nat \<times> 'v outcome) list" where
  "rejections is = map (\<lambda>i. (i, Rejected ChannelClosed)) is"

definition rpc_close :: "'v endpoint \<Rightarrow> 'v endpoint" where
  "rpc_close ep = ep\<lparr>ep_pending := [], ep_outcomes := ep_outcomes ep @ rejections (ep_pending ep),
     ep_closed := True\<rparr>"

subsection \<open>Two linked endpoints\<close>

record 'v link =
  host :: "'v endpoint"
  ext_host :: "'v endpoint"
  to_ext :: nat
  to_host :: nat

datatype side = HostSide | ExtSide

datatype 'v link_event =
    Call side string string "'v list"
  | Deliver side
  | Close

definition side_ep :: "side \<Rightarrow> 'v link \<Rightarrow> 'v endpoint" where
  "side_ep s l = (case s of HostSide \<Rightarrow> host l | ExtSide \<Rightarrow> ext_host l)"

definition upd_side :: "side \<Rightarrow> ('v endpoint \<Rightarrow> 'v endpoint) \<Rightarrow> 'v link \<Rightarrow> 'v link" where
  "upd_side s f l = (case s of HostSide \<Rightarrow> l\<lparr>host := f (host l)\<rparr> | ExtSide \<Rightarrow> l\<lparr>ext_host := f (ext_host l)\<rparr>)"

text \<open>\<open>Deliver HostSide\<close> hands the oldest undelivered message the host sent to the
  extension host (\<open>to_ext\<close> counts the host's messages already delivered), and
  symmetrically; \<open>Close\<close> tears the channel down on both sides.\<close>

fun link_step :: "'v link \<Rightarrow> 'v link_event \<Rightarrow> 'v link option" where
  "link_step l (Call s t m args) = Some (upd_side s (\<lambda>ep. snd (rpc_call t m args ep)) l)"
| "link_step l (Deliver HostSide) =
     (if to_ext l < length (ep_outbox (host l))
      then Some (l\<lparr>ext_host := rpc_receive (ep_outbox (host l) ! to_ext l) (ext_host l),
                   to_ext := Suc (to_ext l)\<rparr>)
      else None)"
| "link_step l (Deliver ExtSide) =
     (if to_host l < length (ep_outbox (ext_host l))
      then Some (l\<lparr>host := rpc_receive (ep_outbox (ext_host l) ! to_host l) (host l),
                   to_host := Suc (to_host l)\<rparr>)
      else None)"
| "link_step l Close = Some (l\<lparr>host := rpc_close (host l), ext_host := rpc_close (ext_host l)\<rparr>)"

fun link_run :: "'v link \<Rightarrow> 'v link_event list \<Rightarrow> 'v link option" where
  "link_run l [] = Some l"
| "link_run l (e # es) = (case link_step l e of None \<Rightarrow> None | Some l' \<Rightarrow> link_run l' es)"

definition link_new :: "'v service \<Rightarrow> string \<Rightarrow> 'v service \<Rightarrow> string \<Rightarrow> 'v link" where
  "link_new hs hid es eid = \<lparr>host = rpc_new\<lparr>ep_services := [(hid, hs)]\<rparr>,
     ext_host = rpc_new\<lparr>ep_services := [(eid, es)]\<rparr>, to_ext = 0, to_host = 0\<rparr>"

subsection \<open>Analysis\<close>


text \<open>The correlation ids an endpoint has issued, pending ones first, then the settled ones
  in the order they settled; \<open>ep_inv\<close> says each issued id is pending or settled, exactly
  once, and a closed endpoint has nothing pending.\<close>

definition call_ids :: "'v endpoint \<Rightarrow> nat list" where
  "call_ids ep = ep_pending ep @ map fst (ep_outcomes ep)"

definition ep_inv :: "'v endpoint \<Rightarrow> bool" where
  "ep_inv ep \<longleftrightarrow> distinct (call_ids ep) \<and> set (call_ids ep) = {..<ep_next ep} \<and>
     (ep_closed ep \<longrightarrow> ep_pending ep = [])"

text \<open>The endpoints reachable from a fresh one by the protocol's operations, in any order.\<close>

inductive ep_reach :: "'v endpoint \<Rightarrow> bool" where
  new: "ep_reach rpc_new"
| set: "ep_reach ep \<Longrightarrow> rpc_set i impl ep = Inr ep' \<Longrightarrow> ep_reach ep'"
| call: "ep_reach ep \<Longrightarrow> ep_reach (snd (rpc_call t m args ep))"
| receive: "ep_reach ep \<Longrightarrow> ep_reach (rpc_receive msg ep)"
| close: "ep_reach ep \<Longrightarrow> ep_reach (rpc_close ep)"

subsection \<open>The endpoint invariant\<close>

lemma ep_inv_new: "ep_inv rpc_new"
  by (simp add: ep_inv_def call_ids_def rpc_new_def)

lemma ep_inv_set:
  assumes inv: "ep_inv ep" and ok: "rpc_set i impl ep = Inr ep'"
  shows "ep_inv ep'"
proof -
  from ok have "ep' = ep\<lparr>ep_services := jsmap_set i impl (ep_services ep)\<rparr>"
    by (simp add: rpc_set_def split: if_splits)
  with inv show ?thesis by (simp add: ep_inv_def call_ids_def)
qed

lemma ep_inv_call:
  assumes inv: "ep_inv ep"
  shows "ep_inv (snd (rpc_call t m args ep))"
proof -
  let ?i = "ep_next ep"
  from inv have d: "distinct (call_ids ep)" and s: "set (call_ids ep) = {..<?i}"
    and c: "ep_closed ep \<Longrightarrow> ep_pending ep = []" by (simp_all add: ep_inv_def)
  have fresh: "?i \<notin> set (call_ids ep)" using s by simp
  show ?thesis
  proof (cases "ep_closed ep")
    case True
    have "call_ids (snd (rpc_call t m args ep)) = call_ids ep @ [?i]"
      using True by (simp add: rpc_call_def call_ids_def Let_def)
    then show ?thesis using d s fresh c True
      by (simp add: ep_inv_def rpc_call_def Let_def lessThan_Suc)
  next
    case False
    have "set (call_ids (snd (rpc_call t m args ep))) = insert ?i (set (call_ids ep))"
      "distinct (call_ids (snd (rpc_call t m args ep))) = distinct (?i # call_ids ep)"
      using False by (auto simp: rpc_call_def call_ids_def Let_def)
    then show ?thesis using d s fresh False
      by (simp add: ep_inv_def rpc_call_def Let_def lessThan_Suc)
  qed
qed

lemma call_ids_settle:
  "i \<in> set (ep_pending ep) \<Longrightarrow>
   call_ids (settle i r ep) = remove1 i (ep_pending ep) @ map fst (ep_outcomes ep) @ [i]"
  by (simp add: settle_def call_ids_def)

lemma ep_inv_settle:
  assumes inv: "ep_inv ep"
  shows "ep_inv (settle i r ep)"
proof (cases "i \<in> set (ep_pending ep)")
  case True
  from inv have d: "distinct (ep_pending ep @ map fst (ep_outcomes ep))"
    and s: "set (ep_pending ep @ map fst (ep_outcomes ep)) = {..<ep_next ep}"
    and c: "ep_closed ep \<longrightarrow> ep_pending ep = []"
    unfolding ep_inv_def call_ids_def by blast+
  from distinct_move [OF d True] s
  have "distinct (call_ids (settle i r ep)) \<and> set (call_ids (settle i r ep)) = {..<ep_next ep}"
    unfolding call_ids_settle [OF True] by simp
  moreover from c True have "\<not> ep_closed ep" by auto
  moreover have "ep_next (settle i r ep) = ep_next ep" "ep_closed (settle i r ep) = ep_closed ep"
    by (simp_all add: settle_def)
  ultimately show ?thesis unfolding ep_inv_def by simp
next
  case False
  then have "settle i r ep = ep" by (simp add: settle_def)
  with inv show ?thesis by simp
qed

lemma ep_inv_receive: "ep_inv ep \<Longrightarrow> ep_inv (rpc_receive msg ep)"
proof (cases msg)
  case (Request i t m args)
  assume inv: "ep_inv ep"
  have "call_ids (rpc_receive msg ep) = call_ids ep" "ep_next (rpc_receive msg ep) = ep_next ep"
    "ep_closed (rpc_receive msg ep) = ep_closed ep" "ep_pending (rpc_receive msg ep) = ep_pending ep"
    using Request by (simp_all add: call_ids_def)
  with inv show ?thesis unfolding ep_inv_def by simp
qed (simp_all add: ep_inv_settle)

lemma ep_inv_close: "ep_inv ep \<Longrightarrow> ep_inv (rpc_close ep)"
proof -
  assume inv: "ep_inv ep"
  have ids: "call_ids (rpc_close ep) = map fst (ep_outcomes ep) @ ep_pending ep"
    by (simp add: rpc_close_def call_ids_def rejections_def comp_def)
  from inv have "distinct (map fst (ep_outcomes ep) @ ep_pending ep)"
    "set (map fst (ep_outcomes ep) @ ep_pending ep) = {..<ep_next ep}"
    by (auto simp: ep_inv_def call_ids_def)
  with ids show ?thesis by (simp add: ep_inv_def rpc_close_def)
qed

text \<open>Every call made through an endpoint reachable by publishing services, calling,
  receiving messages and closing in any order is either pending or settled, exactly once, and
  the issued ids are exactly \<open>0..ep_next-1\<close>; a closed endpoint has no pending call.\<close>

lemma rpc_reachable_inv: "ep_reach ep \<Longrightarrow> ep_inv ep"
proof (induction rule: ep_reach.induct)
  case new
  show ?case by (rule ep_inv_new)
next
  case (set ep i impl ep')
  from set.IH set.hyps(2) show ?case by (rule ep_inv_set)
next
  case (call ep t m args)
  from call.IH show ?case by (rule ep_inv_call)
next
  case (receive ep msg)
  from receive.IH show ?case by (rule ep_inv_receive)
next
  case (close ep)
  from close.IH show ?case by (rule ep_inv_close)
qed

subsection \<open>Issued ids only grow\<close>

text \<open>The set of correlation ids an endpoint has issued grows by exactly the new id with a
  call and is left alone by every other operation; clients that remember an id use this.\<close>

lemma call_ids_rpc_call:
  "rpc_call t m args ep = (i, ep') \<Longrightarrow> set (call_ids ep') = insert i (set (call_ids ep))"
  by (auto simp: rpc_call_def call_ids_def Let_def split: if_splits)

lemma call_ids_settle_set: "set (call_ids (settle i r ep)) = set (call_ids ep)"
  unfolding settle_def call_ids_def by (auto dest: subsetD [OF set_remove1_subset] simp: in_set_remove1)

lemma call_ids_receive: "set (call_ids (rpc_receive msg ep)) = set (call_ids ep)"
  by (cases msg) (simp_all add: call_ids_settle_set, simp add: call_ids_def)

lemma call_ids_close: "set (call_ids (rpc_close ep)) = set (call_ids ep)"
  by (auto simp: rpc_close_def call_ids_def rejections_def image_image)

lemma call_ids_set: "rpc_set i impl ep = Inr ep' \<Longrightarrow> call_ids ep' = call_ids ep"
  by (auto simp: rpc_set_def call_ids_def split: if_splits)

subsection \<open>Properties of the protocol\<close>

lemma rejections_filter:
  "filter (\<lambda>p. fst p = i) (rejections is) = rejections (filter (\<lambda>j. j = i) is)"
  by (induction "is") (simp_all add: rejections_def)

lemma rpc_close_receive: "rpc_receive msg (rpc_close ep) = rpc_close ep"
  by (cases msg) (simp_all add: rpc_close_def settle_def)

text \<open>Closing the channel rejects every pending call exactly once with \<open>ChannelClosed\<close>,
  leaves nothing pending, and a closed endpoint ignores every later message (a late reply
  settles nothing, a late request is not served).\<close>

lemma rpc_close_rejects_pending:
  assumes inv: "ep_inv ep" and i: "i \<in> set (ep_pending ep)"
  shows "map snd (filter (\<lambda>p. fst p = i) (ep_outcomes (rpc_close ep))) = [Rejected ChannelClosed] \<and>
    ep_pending (rpc_close ep) = [] \<and> rpc_receive msg (rpc_close ep) = rpc_close ep"
proof -
  from inv have d: "distinct (ep_pending ep @ map fst (ep_outcomes ep))"
    unfolding ep_inv_def call_ids_def by blast
  with i have "i \<notin> fst ` set (ep_outcomes ep)" by auto
  then have old: "filter (\<lambda>p. fst p = i) (ep_outcomes ep) = []"
    by (auto simp: filter_empty_conv rev_image_eqI)
  from d have "distinct (ep_pending ep)" by simp
  from filter_eq_single [OF this i] have new: "filter (\<lambda>p. fst p = i) (rejections (ep_pending ep)) =
      [(i, Rejected ChannelClosed)]"
    unfolding rejections_filter by (simp add: rejections_def)
  have o: "ep_outcomes (rpc_close ep) = ep_outcomes ep @ rejections (ep_pending ep)"
    by (simp add: rpc_close_def)
  have "map snd (filter (\<lambda>p. fst p = i) (ep_outcomes (rpc_close ep))) = [Rejected ChannelClosed]"
    unfolding o filter_append old new by simp
  moreover have "ep_pending (rpc_close ep) = []" by (simp add: rpc_close_def)
  ultimately show ?thesis by (simp add: rpc_close_receive)
qed

text \<open>On a fresh link, a host call delivered to the extension host and its answer
  delivered back settles the call with the value of the published \<open>$\<close>-method, or
  rejects it with the dispatch error (unknown service, method without the marker or
  missing), and nothing stays pending.\<close>

lemma rpc_call_roundtrip:
  "\<exists>l. link_run (link_new hs hid es eid) [Call HostSide t m args, Deliver HostSide, Deliver ExtSide] = Some l \<and>
     ep_pending (host l) = [] \<and>
     ep_outcomes (host l) = [(0, case dispatch (ext_host (link_new hs hid es eid)) t m args of
                                   Inr v \<Rightarrow> Resolved v | Inl e \<Rightarrow> Rejected e)]"
  by (simp add: link_new_def rpc_new_def upd_side_def rpc_call_def settle_def dispatch_def
      split: sum.split)

end
