(* ===== verification/Manager.thy ===== *)
theory Manager
  imports Registry Lifecycle Rpc
begin

text \<open>
  The extension manager, \<open>FeatureExtensionManagerServiceImpl\<close>, and the process
  supervisor, \<open>FeatureExtensionProcessManageImpl\<close>, of
  \<open>src/packages/feature-extension/src/browser/extension.service.ts\<close> (lines 17--172).
  The manager owns the capability registry (theory \<open>Registry\<close>), the Map of feature
  extensions (each a lifecycle world of theory \<open>Lifecycle\<close>) and the host-side
  \<open>RPCProtocol\<close> (theory \<open>Rpc\<close>). Every \<open>RPCProtocol\<close> the manager creates is kept in
  \<open>m_protocols\<close>, oldest first; the field \<open>this.protocol\<close> is the last one.

  As in \<open>Lifecycle\<close>, each \<open>await\<close> of an asynchronous method is a suspended task of
  \<open>m_tasks\<close> and the environment settles what the code waits for: the node service's
  \<open>createExtProcess\<close>, the channel handler's \<open>openChannel\<close>, the messages the extension
  host sends on a protocol's channel and its closing, and the 2000 ms timer. A
  capability contribution's \<open>registerCapability\<close> hook is synchronous; it is modelled by
  the registry operations it performs, or a throw, in order.
\<close>

text \<open>The values exchanged with the extension host: a list of extensions (by their paths),
  a string, and \<open>undefined\<close>.\<close>

datatype rv = RExts "path list" | RPath path | RUnit

datatype contrib_action = CReg reg_op | CThrow

type_synonym contribution = "contrib_action list option"

datatype merror = ProcessSpawnError | ChannelOpenError | TypeError | RpcError rpc_error
  | NotImplemented

datatype meffect =
    MLogError | SpawnRequested | ChannelRequested | Published string
  | ActivateDone | ActivateFailed merror | ExtensionsRequested | ActivateRequested path
  | ActivateRequestedUndefined
  | BootstrapDone | BootstrapFailed merror

datatype mtask =
    MEnableAll "(name \<times> nat) list"
  | MSpawn
  | MChannel
  | MPublish
  | MTimer
  | MGetExt nat nat
  | MActExt nat nat

record mgr =
  m_registry :: registry
  m_window_name :: name
  m_contributions :: "contribution list"
  m_extensions :: "(name, world) jsmap"
  m_protocols :: "rv endpoint list"
  m_commands :: "rv service"
  m_tasks :: "mtask list"
  m_trace :: "meffect list"

datatype mevent =
    MCallActivate
  | MExt name event
  | MResume nat
  | MSpawnOk nat | MSpawnFail nat
  | MChannelOk nat | MChannelFail nat
  | MDeliver nat "rv msg"
  | MClose nat

definition MainThreadCommands_id :: string where
  "MainThreadCommands_id = ''MainThreadCommands''"

definition ExtHostExtensionService_id :: string where
  "ExtHostExtensionService_id = ''ExtHostExtensionService''"

definition mgr_init :: "name \<Rightarrow> contribution list \<Rightarrow> rv service \<Rightarrow> mgr" where
  "mgr_init g cs cmds = \<lparr>m_registry = registry_init, m_window_name = g, m_contributions = cs,
     m_extensions = [], m_protocols = [], m_commands = cmds, m_tasks = [], m_trace = []\<rparr>"

definition mlog :: "meffect list \<Rightarrow> mgr \<Rightarrow> mgr" where
  "mlog es m = m\<lparr>m_trace := m_trace m @ es\<rparr>"

definition mspawn :: "mtask \<Rightarrow> mgr \<Rightarrow> mgr" where
  "mspawn t m = m\<lparr>m_tasks := m_tasks m @ [t]\<rparr>"

definition mdrop :: "nat \<Rightarrow> mgr \<Rightarrow> mgr" where
  "mdrop k m = m\<lparr>m_tasks := take k (m_tasks m) @ drop (Suc k) (m_tasks m)\<rparr>"

subsection \<open>\<open>activate\<close>: the contribution loop and the bulk enable\<close>

text \<open>One contribution's \<open>registerCapability(this.registry)\<close>: its registry calls in
  order; a registry call that throws (a duplicate type) or a throw of its own ends it, and
  what it registered before stays registered. The result says whether it threw.\<close>

fun run_contrib :: "name \<Rightarrow> contrib_action list \<Rightarrow> registry \<Rightarrow> registry \<times> bool" where
  "run_contrib g [] r = (r, False)"
| "run_contrib g (CThrow # as) r = (r, True)"
| "run_contrib g (CReg op # as) r =
     (case reg_exec g op r of Inl _ \<Rightarrow> (r, True) | Inr r' \<Rightarrow> run_contrib g as r')"

text \<open>The loop over \<open>getContributions()\<close> with its per-item \<open>try\<close>/\<open>catch\<close>: a
  contribution without the hook is skipped, a throw is logged and the loop goes on.\<close>

fun run_contribs :: "name \<Rightarrow> contribution list \<Rightarrow> registry \<Rightarrow> registry \<times> meffect list" where
  "run_contribs g [] r = (r, [])"
| "run_contribs g (None # cs) r = run_contribs g cs r"
| "run_contribs g (Some as # cs) r =
     (let (r', threw) = run_contrib g as r; (r'', log) = run_contribs g cs r'
      in (r'', (if threw then [MLogError] else []) @ log))"

text \<open>\<open>this.extensions.forEach(e => promises.push(e.enable()))\<close>: each extension's
  \<open>enable()\<close> runs up to its first suspension; a call that joins an in-flight enable
  returns that promise, which \<open>Promise.all\<close> then waits for.\<close>

fun bulk_enable :: "(name, world) jsmap \<Rightarrow> (name, world) jsmap \<times> (name \<times> nat) list" where
  "bulk_enable [] = ([], [])"
| "bulk_enable ((n, w) # es) =
     (let (w', t) = enable_call w; (es', ps) = bulk_enable es
      in ((n, w') # es', (case t of Some (TEnable p) \<Rightarrow> [(n, p)] | _ \<Rightarrow> []) @ ps))"

definition mgr_activate :: "mgr \<Rightarrow> mgr" where
  "mgr_activate m =
     (let (r, log) = run_contribs (m_window_name m) (m_contributions m) (m_registry m);
          (es, ps) = bulk_enable (m_extensions m)
      in mspawn (MEnableAll ps) (mlog log (m\<lparr>m_registry := r, m_extensions := es\<rparr>)))"

definition all_settled :: "mgr \<Rightarrow> (name \<times> nat) list \<Rightarrow> bool" where
  "all_settled m ps =
     list_all (\<lambda>(n, p). case jsmap_get (m_extensions m) n of
                          Some w \<Rightarrow> p \<in> set (resolved w) | None \<Rightarrow> False) ps"

subsection \<open>The process and the protocol\<close>

text \<open>\<open>FeatureExtensionProcessManageImpl.create\<close>: ask the node service for the process
  and wait; \<open>createFeatureExtensionNodeProcess\<close> starts with it.\<close>

definition process_create :: "mgr \<Rightarrow> mgr" where
  "process_create m = mspawn MSpawn (mlog [SpawnRequested] m)"

definition initExtProtocol_open :: "mgr \<Rightarrow> mgr" where
  "initExtProtocol_open m = mspawn MChannel (mlog [ChannelRequested] m)"

definition initExtProtocol_finish :: "mgr \<Rightarrow> mgr" where
  "initExtProtocol_finish m = mspawn MPublish (m\<lparr>m_protocols := m_protocols m @ [rpc_new]\<rparr>)"

text \<open>\<open>setMainThreadAPI\<close> publishes the commands service on \<open>this.protocol\<close>; then
  \<open>activate\<close> resumes, arms the bootstrap timer and settles.\<close>

definition setMainThreadAPI :: "mgr \<Rightarrow> mgr" where
  "setMainThreadAPI m =
     (case rev (m_protocols m) of
        [] \<Rightarrow> mlog [ActivateFailed TypeError] m
      | ep # _ \<Rightarrow>
          (case rpc_set MainThreadCommands_id (m_commands m) ep of
             Inl e \<Rightarrow> mlog [ActivateFailed (RpcError e)] m
           | Inr ep' \<Rightarrow> mspawn MTimer (mlog [Published MainThreadCommands_id, ActivateDone]
                          (m\<lparr>m_protocols := butlast (m_protocols m) @ [ep']\<rparr>))))"

subsection \<open>\<open>activeExtension\<close>\<close>

definition activeExtension_start :: "mgr \<Rightarrow> mgr" where
  "activeExtension_start m =
     (if m_protocols m = [] then mlog [BootstrapFailed TypeError] m
      else (let p = length (m_protocols m) - 1;
                (i, ep') = rpc_call ExtHostExtensionService_id ''$getExtension'' [] (m_protocols m ! p)
            in mspawn (MGetExt p i)
                 (mlog [ExtensionsRequested] (m\<lparr>m_protocols := (m_protocols m)[p := ep']\<rparr>))))"

text \<open>\<open>extension[0].path\<close> on the answer of \<open>$getExtension\<close>: the path of the first
  extension of a list; on a non-empty string, its first character has no \<open>path\<close>, so
  \<open>$activateExtension\<close> is sent with \<open>undefined\<close> (\<open>RUnit\<close>); on an empty list, an empty
  string or \<open>undefined\<close>, \<open>extension[0]\<close> is \<open>undefined\<close> and reading \<open>path\<close> throws a
  \<open>TypeError\<close>.\<close>

definition activeExtension_got :: "nat \<Rightarrow> rv outcome \<Rightarrow> mgr \<Rightarrow> mgr" where
  "activeExtension_got p r m =
     (case r of
        Resolved (RExts (x # _)) \<Rightarrow>
          (let (j, ep') = rpc_call ExtHostExtensionService_id ''$activateExtension'' [RPath x]
                            (m_protocols m ! p)
           in mspawn (MActExt p j)
                (mlog [ActivateRequested x] (m\<lparr>m_protocols := (m_protocols m)[p := ep']\<rparr>)))
      | Resolved (RPath (c # _)) \<Rightarrow>
          (let (j, ep') = rpc_call ExtHostExtensionService_id ''$activateExtension'' [RUnit]
                            (m_protocols m ! p)
           in mspawn (MActExt p j)
                (mlog [ActivateRequestedUndefined] (m\<lparr>m_protocols := (m_protocols m)[p := ep']\<rparr>)))
      | Resolved _ \<Rightarrow> mlog [BootstrapFailed TypeError] m
      | Rejected e \<Rightarrow> mlog [BootstrapFailed (RpcError e)] m)"

definition activeExtension_done :: "rv outcome \<Rightarrow> mgr \<Rightarrow> mgr" where
  "activeExtension_done r m =
     (case r of Resolved _ \<Rightarrow> mlog [BootstrapDone] m | Rejected e \<Rightarrow> mlog [BootstrapFailed (RpcError e)] m)"

definition outcome_of :: "mgr \<Rightarrow> nat \<Rightarrow> nat \<Rightarrow> rv outcome option" where
  "outcome_of m p i = (if p < length (m_protocols m) then map_of (ep_outcomes (m_protocols m ! p)) i else None)"

subsection \<open>The methods that are not implemented\<close>

definition getFeatureExtensions :: "mgr \<Rightarrow> merror + world list" where
  "getFeatureExtensions m = Inl NotImplemented"

definition getFeatureExtension :: "mgr \<Rightarrow> name \<Rightarrow> merror + world" where
  "getFeatureExtension m n = Inl NotImplemented"

definition getFeatureExtensionNodeProcess :: "mgr \<Rightarrow> name \<Rightarrow> merror + unit" where
  "getFeatureExtensionNodeProcess m n = Inl NotImplemented"

definition runScriptInBrowser :: "mgr \<Rightarrow> path \<Rightarrow> merror + unit" where
  "runScriptInBrowser m s = Inl NotImplemented"

definition runScriptInNode :: "mgr \<Rightarrow> path \<Rightarrow> merror + unit" where
  "runScriptInNode m s = Inl NotImplemented"

subsection \<open>Tasks and the scheduler\<close>

text \<open>Resuming a suspended task once what it waits for has settled; a task waiting on the
  node service or the channel handler is resumed by the environment's answer instead.\<close>

fun mtask_step :: "mtask \<Rightarrow> mgr \<Rightarrow> mgr option" where
  "mtask_step (MEnableAll ps) m = (if all_settled m ps then Some (process_create m) else None)"
| "mtask_step MPublish m = Some (setMainThreadAPI m)"
| "mtask_step MTimer m = Some (activeExtension_start m)"
| "mtask_step (MGetExt p i) m = map_option (\<lambda>r. activeExtension_got p r m) (outcome_of m p i)"
| "mtask_step (MActExt p j) m = map_option (\<lambda>r. activeExtension_done r m) (outcome_of m p j)"
| "mtask_step MSpawn m = None"
| "mtask_step MChannel m = None"

definition task_at :: "mgr \<Rightarrow> nat \<Rightarrow> mtask \<Rightarrow> bool" where
  "task_at m k t = (k < length (m_tasks m) \<and> m_tasks m ! k = t)"

fun mgr_exec :: "mgr \<Rightarrow> mevent \<Rightarrow> mgr option" where
  "mgr_exec m MCallActivate = Some (mgr_activate m)"
| "mgr_exec m (MExt n ev) =
     (case jsmap_get (m_extensions m) n of
        None \<Rightarrow> None
      | Some w \<Rightarrow> map_option (\<lambda>w'. m\<lparr>m_extensions := jsmap_set n w' (m_extensions m)\<rparr>) (ext_exec w ev))"
| "mgr_exec m (MResume k) =
     (if k < length (m_tasks m) then mtask_step (m_tasks m ! k) (mdrop k m) else None)"
| "mgr_exec m (MSpawnOk k) =
     (if task_at m k MSpawn then Some (initExtProtocol_open (mdrop k m)) else None)"
| "mgr_exec m (MSpawnFail k) =
     (if task_at m k MSpawn then Some (mlog [ActivateFailed ProcessSpawnError] (mdrop k m)) else None)"
| "mgr_exec m (MChannelOk k) =
     (if task_at m k MChannel then Some (initExtProtocol_finish (mdrop k m)) else None)"
| "mgr_exec m (MChannelFail k) =
     (if task_at m k MChannel then Some (mlog [ActivateFailed ChannelOpenError] (mdrop k m)) else None)"
| "mgr_exec m (MDeliver p msg) =
     (if p < length (m_protocols m)
      then Some (m\<lparr>m_protocols := (m_protocols m)[p := rpc_receive msg (m_protocols m ! p)]\<rparr>)
      else None)"
| "mgr_exec m (MClose p) =
     (if p < length (m_protocols m)
      then Some (m\<lparr>m_protocols := (m_protocols m)[p := rpc_close (m_protocols m ! p)]\<rparr>)
      else None)"

fun mgr_run :: "mgr \<Rightarrow> mevent list \<Rightarrow> mgr option" where
  "mgr_run m [] = Some m"
| "mgr_run m (ev # evs) = (case mgr_exec m ev of None \<Rightarrow> None | Some m' \<Rightarrow> mgr_run m' evs)"

inductive mgr_reach :: "mgr \<Rightarrow> bool" where
  init: "mgr_reach (mgr_init g cs cmds)"
| step: "mgr_reach m \<Longrightarrow> mgr_exec m ev = Some m' \<Longrightarrow> mgr_reach m'"

subsection \<open>Analysis\<close>

text \<open>What every reachable manager state satisfies, and the bootstrap schedule used by the witnesses.\<close>

definition mgr_inv :: "mgr \<Rightarrow> bool" where
  "mgr_inv m \<longleftrightarrow> (\<forall>ep\<in>set (m_protocols m). ep_inv ep) \<and> m_extensions m = [] \<and>
     (\<forall>ps. MEnableAll ps \<in> set (m_tasks m) \<longrightarrow> ps = [])"

text \<open>A suspended \<open>activeExtension\<close> waits for the call it made: the protocol it names
  exists and has issued the correlation id it waits for.\<close>

definition task_tracks :: "mgr \<Rightarrow> mtask \<Rightarrow> bool" where
  "task_tracks m t =
     (case t of
        MGetExt p i \<Rightarrow> p < length (m_protocols m) \<and> i \<in> set (call_ids (m_protocols m ! p))
      | MActExt p i \<Rightarrow> p < length (m_protocols m) \<and> i \<in> set (call_ids (m_protocols m ! p))
      | _ \<Rightarrow> True)"

definition protocols_grow :: "rv endpoint list \<Rightarrow> rv endpoint list \<Rightarrow> bool" where
  "protocols_grow ps ps' \<longleftrightarrow> length ps \<le> length ps' \<and>
     (\<forall>p < length ps. set (call_ids (ps ! p)) \<subseteq> set (call_ids (ps' ! p)))"

definition mgr_track :: "mgr \<Rightarrow> bool" where
  "mgr_track m \<longleftrightarrow> list_all (task_tracks m) (m_tasks m)"

definition boot_events :: "mevent list" where
  "boot_events = [MCallActivate, MResume 0, MSpawnOk 0, MChannelOk 0, MResume 0, MResume 0]"

subsection \<open>Invariant\<close>


lemma mgr_inv_mlog [simp]: "mgr_inv (mlog es m) = mgr_inv m"
  by (simp add: mgr_inv_def mlog_def)

lemma mgr_inv_mspawn:
  "mgr_inv m \<Longrightarrow> (\<forall>ps. t = MEnableAll ps \<longrightarrow> ps = []) \<Longrightarrow> mgr_inv (mspawn t m)"
  by (auto simp: mgr_inv_def mspawn_def)

lemma mgr_inv_mdrop: "mgr_inv m \<Longrightarrow> mgr_inv (mdrop k m)"
  unfolding mgr_inv_def mdrop_def by (auto dest: in_set_takeD in_set_dropD)

lemma mgr_inv_protocols:
  "mgr_inv m \<Longrightarrow> p < length (m_protocols m) \<Longrightarrow> ep_inv (f (m_protocols m ! p)) \<Longrightarrow>
   mgr_inv (m\<lparr>m_protocols := (m_protocols m)[p := f (m_protocols m ! p)]\<rparr>)"
proof -
  assume inv: "mgr_inv m" and "p < length (m_protocols m)" and f: "ep_inv (f (m_protocols m ! p))"
  from inv have "\<forall>x\<in>set (m_protocols m). ep_inv x" by (simp add: mgr_inv_def)
  from this f have "\<forall>x\<in>set ((m_protocols m)[p := f (m_protocols m ! p)]). ep_inv x"
    by (rule ball_set_update)
  with inv show ?thesis by (simp add: mgr_inv_def)
qed

lemma mgr_inv_ep: "mgr_inv m \<Longrightarrow> p < length (m_protocols m) \<Longrightarrow> ep_inv (m_protocols m ! p)"
  unfolding mgr_inv_def by simp

lemma mgr_inv_init: "mgr_inv (mgr_init g cs cmds)"
  by (simp add: mgr_inv_def mgr_init_def)

lemma mgr_inv_activate: "mgr_inv m \<Longrightarrow> mgr_inv (mgr_activate m)"
proof -
  assume inv: "mgr_inv m"
  then have e: "m_extensions m = []" by (simp add: mgr_inv_def)
  obtain r log where rl: "run_contribs (m_window_name m) (m_contributions m) (m_registry m) = (r, log)"
    by fastforce
  have "mgr_activate m = mspawn (MEnableAll []) (mlog log (m\<lparr>m_registry := r, m_extensions := []\<rparr>))"
    by (simp add: mgr_activate_def rl e)
  moreover have "mgr_inv (m\<lparr>m_registry := r, m_extensions := []\<rparr>)" using inv by (simp add: mgr_inv_def)
  ultimately show ?thesis by (simp add: mgr_inv_mspawn)
qed

lemma mgr_inv_process_create: "mgr_inv m \<Longrightarrow> mgr_inv (process_create m)"
  by (simp add: process_create_def mgr_inv_mspawn)

lemma mgr_inv_open: "mgr_inv m \<Longrightarrow> mgr_inv (initExtProtocol_open m)"
  by (simp add: initExtProtocol_open_def mgr_inv_mspawn)

lemma mgr_inv_finish: "mgr_inv m \<Longrightarrow> mgr_inv (initExtProtocol_finish m)"
proof -
  assume inv: "mgr_inv m"
  then have "mgr_inv (m\<lparr>m_protocols := m_protocols m @ [rpc_new]\<rparr>)"
    by (simp add: mgr_inv_def ep_inv_new)
  then show ?thesis by (simp add: initExtProtocol_finish_def mgr_inv_mspawn)
qed

lemma mgr_inv_publish: "mgr_inv m \<Longrightarrow> mgr_inv (setMainThreadAPI m)"
proof (cases "rev (m_protocols m)")
  case Nil
  assume "mgr_inv m"
  with Nil show ?thesis by (simp add: setMainThreadAPI_def)
next
  case (Cons ep rest)
  assume inv: "mgr_inv m"
  then have ps: "\<forall>x\<in>set (m_protocols m). ep_inv x" by (simp add: mgr_inv_def)
  from Cons have split: "m_protocols m = rev rest @ [ep]"
    by (metis rev_rev_ident rev.simps(2))
  with ps have ep: "ep_inv ep" and bl: "\<forall>x\<in>set (butlast (m_protocols m)). ep_inv x" by auto
  show ?thesis
  proof (cases "rpc_set MainThreadCommands_id (m_commands m) ep")
    case (Inl e)
    with Cons inv show ?thesis by (simp add: setMainThreadAPI_def)
  next
    case (Inr ep')
    from ep_inv_set [OF ep Inr] bl
    have "\<forall>x\<in>set (butlast (m_protocols m) @ [ep']). ep_inv x" by simp
    with inv have "mgr_inv (m\<lparr>m_protocols := butlast (m_protocols m) @ [ep']\<rparr>)"
      by (simp add: mgr_inv_def)
    with Cons Inr show ?thesis by (simp add: setMainThreadAPI_def mgr_inv_mspawn)
  qed
qed

lemma mgr_inv_call:
  assumes inv: "mgr_inv m" and p: "p < length (m_protocols m)"
    and c: "rpc_call t meth args (m_protocols m ! p) = (i, ep')"
  shows "mgr_inv (m\<lparr>m_protocols := (m_protocols m)[p := ep']\<rparr>)"
proof -
  from ep_inv_call [OF mgr_inv_ep [OF inv p], of t meth args] c have "ep_inv ep'" by simp
  with mgr_inv_protocols [OF inv p, of "\<lambda>_. ep'"] show ?thesis by simp
qed

lemma mgr_inv_start: "mgr_inv m \<Longrightarrow> mgr_inv (activeExtension_start m)"
proof (cases "m_protocols m = []")
  case True
  assume "mgr_inv m"
  with True show ?thesis by (simp add: activeExtension_start_def)
next
  case False
  assume inv: "mgr_inv m"
  let ?p = "length (m_protocols m) - 1"
  obtain i ep' where c: "rpc_call ExtHostExtensionService_id ''$getExtension'' [] (m_protocols m ! ?p) = (i, ep')"
    by fastforce
  from False have "?p < length (m_protocols m)" by simp
  from mgr_inv_call [OF inv this c] False c show ?thesis
    by (simp add: activeExtension_start_def mgr_inv_mspawn Let_def)
qed

lemma outcome_of_some: "outcome_of m p i = Some r \<Longrightarrow> p < length (m_protocols m)"
  by (simp add: outcome_of_def split: if_splits)

text \<open>The two shapes of a step of \<open>activeExtension_got\<close>: a \<open>$activateExtension\<close> call
  with a new suspended task, or a logged failure.\<close>

lemma activeExtension_got_cases:
  assumes call: "\<And>a es. P (case rpc_call ExtHostExtensionService_id ''$activateExtension'' [a] (m_protocols m ! p) of
      (j, ep') \<Rightarrow> mspawn (MActExt p j) (mlog es (m\<lparr>m_protocols := (m_protocols m)[p := ep']\<rparr>)))"
    and fail: "\<And>es. P (mlog es m)"
  shows "P (activeExtension_got p r m)"
proof (cases r)
  case (Resolved v)
  show ?thesis
  proof (cases v)
    case (RExts xs)
    with Resolved call fail show ?thesis by (cases xs) (simp_all add: activeExtension_got_def Let_def)
  next
    case (RPath s)
    with Resolved call fail show ?thesis by (cases s) (simp_all add: activeExtension_got_def Let_def)
  next
    case RUnit
    with Resolved fail show ?thesis by (simp add: activeExtension_got_def)
  qed
next
  case (Rejected e)
  with fail show ?thesis by (simp add: activeExtension_got_def)
qed

lemma mgr_inv_got:
  assumes inv: "mgr_inv m" and p: "p < length (m_protocols m)"
  shows "mgr_inv (activeExtension_got p r m)"
proof (rule activeExtension_got_cases)
  fix a es
  obtain j ep' where c: "rpc_call ExtHostExtensionService_id ''$activateExtension'' [a] (m_protocols m ! p) = (j, ep')"
    by fastforce
  from mgr_inv_call [OF inv p c] c
  show "mgr_inv (case rpc_call ExtHostExtensionService_id ''$activateExtension'' [a] (m_protocols m ! p) of
      (j, ep') \<Rightarrow> mspawn (MActExt p j) (mlog es (m\<lparr>m_protocols := (m_protocols m)[p := ep']\<rparr>)))"
    by (simp add: mgr_inv_mspawn)
next
  fix es
  from inv show "mgr_inv (mlog es m)" by simp
qed

lemma mgr_inv_done: "mgr_inv m \<Longrightarrow> mgr_inv (activeExtension_done r m)"
  by (simp add: activeExtension_done_def split: outcome.split)

lemma mgr_inv_task_step:
  assumes inv: "mgr_inv m" and st: "mtask_step t m = Some m'"
  shows "mgr_inv m'"
proof (cases t)
  case (MEnableAll ps)
  with st have "m' = process_create m" by (simp split: if_splits)
  with inv show ?thesis by (simp add: mgr_inv_process_create)
next
  case (MGetExt p i)
  with st obtain r where "outcome_of m p i = Some r" "m' = activeExtension_got p r m" by auto
  with inv show ?thesis by (simp add: mgr_inv_got outcome_of_some)
next
  case (MActExt p j)
  with st inv show ?thesis by (auto simp: mgr_inv_done)
qed (use st inv in \<open>auto intro: mgr_inv_publish mgr_inv_start\<close>)

lemma mgr_inv_exec:
  assumes inv: "mgr_inv m" and ex: "mgr_exec m ev = Some m'"
  shows "mgr_inv m'"
proof (cases ev)
  case MCallActivate
  with ex inv show ?thesis by (auto simp: mgr_inv_activate)
next
  case (MExt n e)
  from inv have "m_extensions m = []" by (simp add: mgr_inv_def)
  with ex MExt show ?thesis by (simp add: jsmap_empty)
next
  case (MResume k)
  with ex have "k < length (m_tasks m)" "mtask_step (m_tasks m ! k) (mdrop k m) = Some m'"
    by (simp_all split: if_splits)
  with mgr_inv_mdrop [OF inv, of k] show ?thesis by (blast intro: mgr_inv_task_step)
next
  case (MDeliver p msg)
  with ex have p: "p < length (m_protocols m)"
    and m': "m' = m\<lparr>m_protocols := (m_protocols m)[p := rpc_receive msg (m_protocols m ! p)]\<rparr>"
    by (simp_all split: if_splits)
  from mgr_inv_protocols [where f = "rpc_receive msg", OF inv p ep_inv_receive [OF mgr_inv_ep [OF inv p]]] m'
  show ?thesis by simp
next
  case (MClose p)
  with ex have p: "p < length (m_protocols m)"
    and m': "m' = m\<lparr>m_protocols := (m_protocols m)[p := rpc_close (m_protocols m ! p)]\<rparr>"
    by (simp_all split: if_splits)
  from mgr_inv_protocols [where f = rpc_close, OF inv p ep_inv_close [OF mgr_inv_ep [OF inv p]]] m'
  show ?thesis by simp
qed (use ex inv in \<open>auto simp: mgr_inv_open mgr_inv_finish mgr_inv_mdrop split: if_splits\<close>)

lemma mgr_reach_inv: "mgr_reach m \<Longrightarrow> mgr_inv m"
proof (induction rule: mgr_reach.induct)
  case (init g cs cmds)
  show ?case by (rule mgr_inv_init)
next
  case (step m ev m')
  from step.IH step.hyps(2) show ?case by (rule mgr_inv_exec)
qed

lemma mgr_reach_run: "mgr_reach m \<Longrightarrow> mgr_run m evs = Some m' \<Longrightarrow> mgr_reach m'"
proof (induction evs arbitrary: m)
  case Nil
  then show ?case by simp
next
  case (Cons ev evs)
  from Cons.prems(2) obtain m1 where m1: "mgr_exec m ev = Some m1" and r: "mgr_run m1 evs = Some m'"
    by (auto split: option.splits)
  from Cons.prems(1) m1 have "mgr_reach m1" by (rule mgr_reach.step)
  from Cons.IH [OF this r] show ?case .
qed

subsection \<open>Suspended bootstrap tasks track their calls\<close>

text \<open>Protocols are only appended, and each one's set of issued correlation ids only grows
  (\<open>protocols_grow\<close>); a new \<open>MGetExt\<close> or \<open>MActExt\<close> task names the protocol and the id its
  \<open>rpc_call\<close> returned.\<close>

lemma protocols_grow_refl [simp]: "protocols_grow ps ps"
  by (simp add: protocols_grow_def)





lemma task_tracks_same: "m_protocols m' = m_protocols m \<Longrightarrow> task_tracks m' = task_tracks m"
  unfolding task_tracks_def by (intro ext) (simp split: mtask.split)

lemma task_tracks_mlog [simp]: "task_tracks (mlog es m) = task_tracks m"
  by (rule task_tracks_same) (simp add: mlog_def)

lemma task_tracks_mspawn [simp]: "task_tracks (mspawn t m) = task_tracks m"
  by (rule task_tracks_same) (simp add: mspawn_def)

lemma task_tracks_mdrop [simp]: "task_tracks (mdrop k m) = task_tracks m"
  by (rule task_tracks_same) (simp add: mdrop_def)

lemma mgr_track_mlog [simp]: "mgr_track (mlog es m) = mgr_track m"
  by (simp add: mgr_track_def) (simp add: mlog_def)












lemma outcome_of_mdrop [simp]: "outcome_of (mdrop k m) = outcome_of m"
  by (simp add: outcome_of_def mdrop_def fun_eq_iff)

lemma outcome_of_mlog [simp]: "outcome_of (mlog es m) = outcome_of m"
  by (simp add: outcome_of_def mlog_def fun_eq_iff)

lemma task_at_mdrop_run:
  "task_at m k t \<Longrightarrow> mgr_exec m (MResume k) = mtask_step t (mdrop k m)"
  by (simp add: task_at_def)

lemma run_contribs_log: "set (snd (run_contribs g cs r)) \<subseteq> {MLogError}"
proof (induction cs arbitrary: r)
  case Nil
  then show ?case by simp
next
  case (Cons c cs)
  show ?case
  proof (cases c)
    case None
    with Cons.IH show ?thesis by simp
  next
    case (Some as)
    obtain r1 t where rt: "run_contrib g as r = (r1, t)" by fastforce
    have "snd (run_contribs g (c # cs) r) = (if t then [MLogError] else []) @ snd (run_contribs g cs r1)"
      using Some rt by (simp split: prod.split)
    with Cons.IH [of r1] show ?thesis by auto
  qed
qed

text \<open>C20. The contribution loop isolates failures: running the contributions \<open>cs1 @ cs2\<close> is running \<open>cs1\<close> and then \<open>cs2\<close> on the registry it left, whatever threw in \<open>cs1\<close>, and the logged errors are concatenated.\<close>

lemma contributions_isolated:
  "run_contribs g (cs1 @ cs2) r =
     (let (r1, l1) = run_contribs g cs1 r; (r2, l2) = run_contribs g cs2 r1 in (r2, l1 @ l2))"
proof (induction cs1 arbitrary: r)
  case Nil
  then show ?case by (simp split: prod.split)
next
  case (Cons c cs1)
  then show ?case by (cases c) (simp_all split: prod.split)
qed

text \<open>C19. When the extension host answers \<open>$getExtension\<close> with an empty list, \<open>extension[0].path\<close> throws a \<open>TypeError\<close>: the bootstrap fails and \<open>$activateExtension\<close> is never sent.\<close>

lemma bootstrap_empty_extension_list:
  assumes "task_at m k (MGetExt p i)" and "outcome_of m p i = Some (Resolved (RExts []))"
  shows "mgr_exec m (MResume k) = Some (mlog [BootstrapFailed TypeError] (mdrop k m))"
proof -
  from assms(1) have "mgr_exec m (MResume k) = mtask_step (MGetExt p i) (mdrop k m)"
    by (rule task_at_mdrop_run)
  with assms(2) show ?thesis by (simp add: activeExtension_got_def)
qed

text \<open>C14. Liveness of activation: for any contributions and commands service, under the schedule in which the node service spawns the process, the channel opens, the timer fires and the extension host answers, \<open>activate\<close> publishes the commands service under its identifier, settles, and the bootstrap asks for the extensions and activates the first one by its path, with no call left pending.\<close>

lemma bootstrap_activates_first_extension:
  "\<exists>ep. mgr_run (mgr_init g cs cmds)
      [MCallActivate, MResume 0, MSpawnOk 0, MChannelOk 0, MResume 0, MResume 0,
       MDeliver 0 (Reply 0 (RExts (x # xs))), MResume 0, MDeliver 0 (Reply 1 v), MResume 0] =
    Some ((mgr_init g cs cmds)\<lparr>m_registry := fst (run_contribs g cs registry_init),
      m_protocols := [ep],
      m_trace := snd (run_contribs g cs registry_init) @ [SpawnRequested, ChannelRequested,
        Published MainThreadCommands_id, ActivateDone, ExtensionsRequested, ActivateRequested x,
        BootstrapDone]\<rparr>) \<and>
    jsmap_get (ep_services ep) MainThreadCommands_id = Some cmds \<and>
    ep_outbox ep = [Request 0 ExtHostExtensionService_id ''$getExtension'' [],
                    Request 1 ExtHostExtensionService_id ''$activateExtension'' [RPath x]] \<and>
    ep_pending ep = []"
  by (simp add: mgr_init_def mgr_activate_def mspawn_def mlog_def mdrop_def task_at_def
      all_settled_def process_create_def initExtProtocol_open_def initExtProtocol_finish_def
      setMainThreadAPI_def activeExtension_start_def activeExtension_got_def activeExtension_done_def
      outcome_of_def rpc_new_def rpc_set_def rpc_call_def settle_def jsmap_empty jsmap_get_def
      split: prod.split)

text \<open>C17. If the channel closes while the bootstrap waits for \<open>$getExtension\<close>, the call is rejected with \<open>ChannelClosed\<close> and the bootstrap ends with that error, sending nothing more.\<close>

lemma bootstrap_close_rejects:
  assumes reach: "mgr_reach m" and t: "task_at m k (MGetExt p i)" and p: "p < length (m_protocols m)"
    and i: "i \<in> set (ep_pending (m_protocols m ! p))"
  shows "mgr_run m [MClose p, MResume k] =
           Some (mlog [BootstrapFailed (RpcError ChannelClosed)]
             (mdrop k (m\<lparr>m_protocols := (m_protocols m)[p := rpc_close (m_protocols m ! p)]\<rparr>)))"
proof -
  let ?m1 = "m\<lparr>m_protocols := (m_protocols m)[p := rpc_close (m_protocols m ! p)]\<rparr>"
  have inv: "ep_inv (m_protocols m ! p)" by (rule mgr_inv_ep [OF mgr_reach_inv [OF reach] p])
  from rpc_close_rejects_pending [OF inv i]
  have "map snd (filter (\<lambda>q. fst q = i) (ep_outcomes (rpc_close (m_protocols m ! p)))) =
          [Rejected ChannelClosed]" by blast
  then have o: "outcome_of ?m1 p i = Some (Rejected ChannelClosed)"
    using p by (simp add: outcome_of_def map_of_filter_first)
  from t have t1: "task_at ?m1 k (MGetExt p i)" by (simp add: task_at_def)
  have "mgr_exec ?m1 (MResume k) = mtask_step (MGetExt p i) (mdrop k ?m1)"
    using t1 by (rule task_at_mdrop_run)
  with o have "mgr_exec ?m1 (MResume k) =
      Some (mlog [BootstrapFailed (RpcError ChannelClosed)] (mdrop k ?m1))"
    by (simp add: activeExtension_got_def)
  with p show ?thesis by simp
qed

text \<open>C15. \<open>activate\<close> is not guarded: two overlapping calls spawn two processes and create two protocols; the first protocol never gets the commands service and the second publication fails as a duplicate.\<close>

lemma concurrent_activate_spawns_twice:
  "\<exists>m'. mgr_run (mgr_init g cs cmds)
      [MCallActivate, MCallActivate, MResume 0, MResume 0, MSpawnOk 0, MSpawnOk 0,
       MChannelOk 0, MChannelOk 0, MResume 0, MResume 0] = Some m' \<and>
    count_list (m_trace m') SpawnRequested = 2 \<and> length (m_protocols m') = 2 \<and>
    \<not> jsmap_has (ep_services (m_protocols m' ! 0)) MainThreadCommands_id \<and>
    ActivateFailed (RpcError (DuplicateService MainThreadCommands_id)) \<in> set (m_trace m')"
proof -
  have c: "count_list (snd (run_contribs g cs r)) SpawnRequested = 0" for r
    using run_contribs_log [of g cs r] by (auto simp: count_list_0_iff)
  show ?thesis
    by (simp add: mgr_init_def mgr_activate_def mspawn_def mlog_def mdrop_def task_at_def
      all_settled_def process_create_def initExtProtocol_open_def initExtProtocol_finish_def
      setMainThreadAPI_def rpc_new_def rpc_set_def jsmap_empty jsmap_has_def c split_def Let_def)
qed

text \<open>C18. If the node service fails to create the process, \<open>activate\<close> fails with the spawn error, no channel or protocol is created, no timer is armed, and the manager does nothing more until \<open>activate\<close> is called again.\<close>

lemma spawn_failure_rejects_activate:
  "\<exists>m'. mgr_run (mgr_init g cs cmds) [MCallActivate, MResume 0, MSpawnFail 0] = Some m' \<and>
     last (m_trace m') = ActivateFailed ProcessSpawnError \<and> m_protocols m' = [] \<and> m_tasks m' = [] \<and>
     (\<forall>ev. ev = MCallActivate \<or> mgr_exec m' ev = None)"
proof -
  have "\<forall>ev. ev = MCallActivate \<or> mgr_exec m' ev = None"
    if "m_tasks m' = []" "m_protocols m' = []" "m_extensions m' = []" for m'
  proof
    fix ev
    show "ev = MCallActivate \<or> mgr_exec m' ev = None"
      using that by (cases ev) (simp_all add: task_at_def jsmap_empty)
  qed
  then show ?thesis
    by (simp add: mgr_init_def mgr_activate_def mspawn_def mlog_def mdrop_def task_at_def
      all_settled_def process_create_def split: prod.split)
qed


text \<open>C21. No code path adds to \<open>this.extensions\<close> (the discovery loop is commented out): in every reachable state the Map is empty and the bulk enable waits for nothing.\<close>

lemma mgr_extensions_never_populated:
  "mgr_reach m \<Longrightarrow> m_extensions m = [] \<and> set (m_tasks m) \<inter> range MEnableAll \<subseteq> {MEnableAll []}"
  using mgr_reach_inv by (auto simp: mgr_inv_def)

lemma boot_state:
  "\<exists>m. mgr_run (mgr_init ''w'' [] []) boot_events = Some m \<and> mgr_reach m \<and>
     task_at m 0 (MGetExt 0 0) \<and> m_protocols m \<noteq> [] \<and> ep_pending (m_protocols m ! 0) = [0]"
proof -
  have "\<exists>m. mgr_run (mgr_init ''w'' [] []) boot_events = Some m \<and>
     task_at m 0 (MGetExt 0 0) \<and> m_protocols m \<noteq> [] \<and> ep_pending (m_protocols m ! 0) = [0]"
    by (simp add: boot_events_def mgr_init_def mgr_activate_def mspawn_def mlog_def mdrop_def
      task_at_def all_settled_def process_create_def initExtProtocol_open_def
      initExtProtocol_finish_def setMainThreadAPI_def activeExtension_start_def rpc_new_def
      rpc_set_def rpc_call_def jsmap_empty)
  then obtain m where r: "mgr_run (mgr_init ''w'' [] []) boot_events = Some m"
    and f: "task_at m 0 (MGetExt 0 0)" "m_protocols m \<noteq> []" "ep_pending (m_protocols m ! 0) = [0]"
    by blast
  have "mgr_reach m" by (rule mgr_reach_run [OF mgr_reach.init r])
  with r f show ?thesis by blast
qed


lemma mgr_extensions_never_populated_witness:
  "\<exists>m. mgr_run (mgr_init ''w'' [] []) boot_events = Some m \<and> mgr_reach m \<and>
     m_extensions m = [] \<and> set (m_tasks m) \<inter> range MEnableAll \<subseteq> {MEnableAll []}"
proof -
  from boot_state obtain m where "mgr_run (mgr_init ''w'' [] []) boot_events = Some m"
    "mgr_reach m" by blast
  with mgr_extensions_never_populated [of m] show ?thesis by blast
qed

lemma bootstrap_close_rejects_witness:
  "\<exists>m. mgr_run (mgr_init ''w'' [] []) boot_events = Some m \<and> mgr_reach m \<and>
     task_at m 0 (MGetExt 0 0) \<and> 0 < length (m_protocols m) \<and> 0 \<in> set (ep_pending (m_protocols m ! 0)) \<and>
     mgr_run m [MClose 0, MResume 0] =
       Some (mlog [BootstrapFailed (RpcError ChannelClosed)]
         (mdrop 0 (m\<lparr>m_protocols := (m_protocols m)[0 := rpc_close (m_protocols m ! 0)]\<rparr>)))"
proof -
  from boot_state obtain m where r: "mgr_run (mgr_init ''w'' [] []) boot_events = Some m"
    and h: "mgr_reach m" "task_at m 0 (MGetExt 0 0)" "m_protocols m \<noteq> []"
      "ep_pending (m_protocols m ! 0) = [0]" by blast
  from h(3) have p: "0 < length (m_protocols m)" by simp
  from h(4) have i: "0 \<in> set (ep_pending (m_protocols m ! 0))" by simp
  from bootstrap_close_rejects [OF h(1) h(2) p i] r h(1) h(2) p i show ?thesis by blast
qed

lemma bootstrap_empty_extension_list_witness:
  "\<exists>m. mgr_run (mgr_init ''w'' [] []) (boot_events @ [MDeliver 0 (Reply 0 (RExts []))]) = Some m \<and>
     task_at m 0 (MGetExt 0 0) \<and> outcome_of m 0 0 = Some (Resolved (RExts [])) \<and>
     mgr_exec m (MResume 0) = Some (mlog [BootstrapFailed TypeError] (mdrop 0 m))"
proof -
  have "\<exists>m. mgr_run (mgr_init ''w'' [] []) (boot_events @ [MDeliver 0 (Reply 0 (RExts []))]) = Some m \<and>
     task_at m 0 (MGetExt 0 0) \<and> outcome_of m 0 0 = Some (Resolved (RExts []))"
    by (simp add: boot_events_def mgr_init_def mgr_activate_def mspawn_def mlog_def mdrop_def
      task_at_def all_settled_def process_create_def initExtProtocol_open_def
      initExtProtocol_finish_def setMainThreadAPI_def activeExtension_start_def rpc_new_def
      rpc_set_def rpc_call_def jsmap_empty outcome_of_def settle_def)
  then obtain m where "mgr_run (mgr_init ''w'' [] []) (boot_events @ [MDeliver 0 (Reply 0 (RExts []))]) = Some m"
    and h: "task_at m 0 (MGetExt 0 0)" "outcome_of m 0 0 = Some (Resolved (RExts []))" by blast
  with bootstrap_empty_extension_list [OF h] show ?thesis by blast
qed

end
