(* ===== verification/FileResource.thy ===== *)
theory FileResource
  imports Prelude
begin

text \<open>
  \<open>FileResource\<close> and \<open>FileResourceResolver\<close> of
  \<open>src/packages/file-service/src/browser/file-service-contribution.ts\<close>. A resource
  caches the \<open>FileStat\<close> of its file (\<open>this.stat\<close>), owns a collection of disposables (its
  change emitter, its \<open>onFilesChanged\<close> listener and the file watcher) and counts how often it
  has fired \<open>onDidChangeContents\<close>.

  The file service client (\<open>IFileServiceClient\<close> of \<open>../common\<close>, outside \<open>src/\<close>) is
  modelled from its contract as a store of files with a modification clock: \<open>setContent\<close>
  and \<open>updateContent\<close> refuse a stat older than the file (out of sync), \<open>createFile\<close>
  refuses an existing file, \<open>getFileStat\<close> may be refused for a file it cannot stat, and
  \<open>watchFileChanges\<close> may fail. Other programs change the store between the resource's
  calls (\<open>fs_write\<close>, \<open>fs_delete\<close>). Each method of the resource runs against one state of
  the store; the store's answers are those of that state.
\<close>

record fstat =
  st_uri :: string
  st_mtime :: nat
  st_isdir :: bool

record fentry =
  f_dir :: bool
  f_content :: string
  f_mtime :: nat
  f_stat_ok :: bool

record fs =
  fs_files :: "string \<Rightarrow> fentry option"
  fs_clock :: nat
  fs_watch_ok :: bool

datatype ferr =
    FileNotFound | FileExists | FileIsDirectory | OutOfSync | StatFailed | WatchFailed
  | ResourceNotFound | IsADirectory | NotReadYet

datatype disp = DEmitter | DFilesListener | DWatcher

record fres =
  r_uri :: string
  r_stat :: "fstat option"
  r_toDispose :: "disp list"
  r_fired :: nat

text \<open>A text edit of \<open>TextDocumentContentChangeEvent\<close>: replace the characters from one
  offset to another by a text.\<close>

type_synonym change = "nat \<times> nat \<times> string"

definition apply_change :: "string \<Rightarrow> change \<Rightarrow> string" where
  "apply_change s ch = (case ch of (a, b, t) \<Rightarrow> take a s @ t @ drop b s)"

subsection \<open>The file service client\<close>

definition stat_of :: "string \<Rightarrow> fentry \<Rightarrow> fstat" where
  "stat_of u f = \<lparr>st_uri = u, st_mtime = f_mtime f, st_isdir = f_dir f\<rparr>"

definition fs_exists :: "fs \<Rightarrow> string \<Rightarrow> bool" where
  "fs_exists s u = (fs_files s u \<noteq> None)"

definition fs_getFileStat :: "fs \<Rightarrow> string \<Rightarrow> ferr + fstat" where
  "fs_getFileStat s u =
     (case fs_files s u of None \<Rightarrow> Inl FileNotFound
      | Some f \<Rightarrow> if f_stat_ok f then Inr (stat_of u f) else Inl StatFailed)"

definition fs_resolveContent :: "fs \<Rightarrow> string \<Rightarrow> ferr + fstat \<times> string" where
  "fs_resolveContent s u =
     (case fs_files s u of None \<Rightarrow> Inl FileNotFound
      | Some f \<Rightarrow> if f_dir f then Inl FileIsDirectory else Inr (stat_of u f, f_content f))"

definition fs_store :: "fs \<Rightarrow> string \<Rightarrow> fentry \<Rightarrow> fstat \<times> fs" where
  "fs_store s u f = (let t = Suc (fs_clock s); f' = f\<lparr>f_mtime := t\<rparr>
                     in (stat_of u f', s\<lparr>fs_files := (fs_files s)(u \<mapsto> f'), fs_clock := t\<rparr>))"

definition fs_checked :: "fs \<Rightarrow> fstat \<Rightarrow> ferr + fentry" where
  "fs_checked s st =
     (case fs_files s (st_uri st) of None \<Rightarrow> Inl FileNotFound
      | Some f \<Rightarrow> if f_dir f then Inl FileIsDirectory
                  else if st_mtime st < f_mtime f then Inl OutOfSync else Inr f)"

definition fs_setContent :: "fs \<Rightarrow> fstat \<Rightarrow> string \<Rightarrow> ferr + fstat \<times> fs" where
  "fs_setContent s st c =
     (case fs_checked s st of Inl e \<Rightarrow> Inl e
      | Inr f \<Rightarrow> Inr (fs_store s (st_uri st) (f\<lparr>f_content := c\<rparr>)))"

definition fs_updateContent :: "fs \<Rightarrow> fstat \<Rightarrow> change list \<Rightarrow> ferr + fstat \<times> fs" where
  "fs_updateContent s st chs =
     (case fs_checked s st of Inl e \<Rightarrow> Inl e
      | Inr f \<Rightarrow> Inr (fs_store s (st_uri st) (f\<lparr>f_content := foldl apply_change (f_content f) chs\<rparr>)))"

definition fs_createFile :: "fs \<Rightarrow> string \<Rightarrow> string \<Rightarrow> ferr + fstat \<times> fs" where
  "fs_createFile s u c =
     (if fs_exists s u then Inl FileExists
      else Inr (fs_store s u \<lparr>f_dir = False, f_content = c, f_mtime = 0, f_stat_ok = True\<rparr>))"

definition fs_write :: "fs \<Rightarrow> string \<Rightarrow> string \<Rightarrow> fs" where
  "fs_write s u c =
     snd (fs_store s u (case fs_files s u of
                          None \<Rightarrow> \<lparr>f_dir = False, f_content = c, f_mtime = 0, f_stat_ok = True\<rparr>
                        | Some f \<Rightarrow> f\<lparr>f_content := c\<rparr>))"

definition fs_delete :: "fs \<Rightarrow> string \<Rightarrow> fs" where
  "fs_delete s u = s\<lparr>fs_files := (fs_files s)(u := None), fs_clock := Suc (fs_clock s)\<rparr>"

subsection \<open>\<open>FileResource\<close>\<close>

definition fres_new :: "string \<Rightarrow> fres" where
  "fres_new u = \<lparr>r_uri = u, r_stat = None, r_toDispose = [DEmitter], r_fired = 0\<rparr>"

text \<open>\<open>getFileStat\<close>: the \<open>try\<close> around \<open>return this.fileSystem.getFileStat(..)\<close> returns
  the promise without awaiting it, so a rejection is not caught there and reaches the caller.\<close>

definition getFileStat :: "fs \<Rightarrow> string \<Rightarrow> ferr + fstat option" where
  "getFileStat s u = (if \<not> fs_exists s u then Inr None else map_sum id Some (fs_getFileStat s u))"

definition init :: "fres \<Rightarrow> fs \<Rightarrow> ferr + fres" where
  "init r s =
     (case getFileStat s (r_uri r) of
        Inl e \<Rightarrow> Inl e
      | Inr st \<Rightarrow>
          (if (case st of Some x \<Rightarrow> st_isdir x | None \<Rightarrow> False) then Inl IsADirectory
           else (let r1 = r\<lparr>r_stat := st, r_toDispose := r_toDispose r @ [DFilesListener]\<rparr>
                 in if fs_exists s (r_uri r) \<and> fs_watch_ok s
                    then Inr (r1\<lparr>r_toDispose := r_toDispose r1 @ [DWatcher]\<rparr>)
                    else Inr r1)))"

definition fr_dispose :: "fres \<Rightarrow> fres" where
  "fr_dispose r = r\<lparr>r_toDispose := []\<rparr>"

definition readContents :: "fres \<Rightarrow> fs \<Rightarrow> fres \<times> (ferr + string)" where
  "readContents r s =
     (case fs_resolveContent s (r_uri r) of
        Inr (st, c) \<Rightarrow> (r\<lparr>r_stat := Some st\<rparr>, Inr c)
      | Inl FileNotFound \<Rightarrow> (r\<lparr>r_stat := None\<rparr>, Inl ResourceNotFound)
      | Inl e \<Rightarrow> (r, Inl e))"

definition doSaveContents :: "fres \<Rightarrow> fs \<Rightarrow> string \<Rightarrow> ferr + fstat \<times> fs" where
  "doSaveContents r s c =
     (case getFileStat s (r_uri r) of
        Inl e \<Rightarrow> Inl e
      | Inr (Some st) \<Rightarrow> fs_setContent s st c
      | Inr None \<Rightarrow> fs_createFile s (r_uri r) c)"

definition saveContents :: "fres \<Rightarrow> fs \<Rightarrow> string \<Rightarrow> ferr + fres \<times> fs" where
  "saveContents r s c =
     (case doSaveContents r s c of Inl e \<Rightarrow> Inl e | Inr (st, s') \<Rightarrow> Inr (r\<lparr>r_stat := Some st\<rparr>, s'))"

definition saveContentChanges :: "fres \<Rightarrow> fs \<Rightarrow> change list \<Rightarrow> ferr + fres \<times> fs" where
  "saveContentChanges r s chs =
     (case r_stat r of
        None \<Rightarrow> Inl NotReadYet
      | Some st \<Rightarrow> (case fs_updateContent s st chs of
                      Inl e \<Rightarrow> Inl e | Inr (st', s') \<Rightarrow> Inr (r\<lparr>r_stat := Some st'\<rparr>, s')))"

definition isInSync :: "fs \<Rightarrow> string \<Rightarrow> fstat option \<Rightarrow> ferr + bool" where
  "isInSync s u cur =
     (case getFileStat s u of
        Inl e \<Rightarrow> Inl e
      | Inr st \<Rightarrow> Inr (case cur of None \<Rightarrow> st = None
                       | Some c \<Rightarrow> (case st of None \<Rightarrow> False | Some x \<Rightarrow> st_mtime x \<le> st_mtime c)))"

definition sync :: "fres \<Rightarrow> fs \<Rightarrow> ferr + fres" where
  "sync r s =
     (case isInSync s (r_uri r) (r_stat r) of
        Inl e \<Rightarrow> Inl e
      | Inr True \<Rightarrow> Inr r
      | Inr False \<Rightarrow> Inr (r\<lparr>r_fired := Suc (r_fired r)\<rparr>))"

text \<open>The listener \<open>init\<close> subscribes to \<open>onFilesChanged\<close>: an event is the list of the
  changed uris.\<close>

definition on_files_changed :: "fres \<Rightarrow> fs \<Rightarrow> string list \<Rightarrow> ferr + fres" where
  "on_files_changed r s ev = (if length (filter (\<lambda>e. e = r_uri r) ev) > 0 then sync r s else Inr r)"

subsection \<open>\<open>FileResourceResolver\<close>\<close>

definition resolve :: "string \<Rightarrow> string \<Rightarrow> fs \<Rightarrow> ferr + fres option" where
  "resolve scheme u s = (if scheme \<noteq> ''file'' then Inr None else map_sum id Some (init (fres_new u) s))"

subsection \<open>Fixtures for the witnesses\<close>

definition demo_file :: "bool \<Rightarrow> bool \<Rightarrow> fentry" where
  "demo_file d ok = \<lparr>f_dir = d, f_content = ''hi'', f_mtime = 1, f_stat_ok = ok\<rparr>"

definition demo_fs :: "fentry option \<Rightarrow> fs" where
  "demo_fs f = \<lparr>fs_files = (\<lambda>_. None)(''/a'' := f), fs_clock = 1, fs_watch_ok = True\<rparr>"

subsection \<open>Properties\<close>


lemma getFileStat_absent: "fs_files s u = None \<Longrightarrow> getFileStat s u = Inr None"
  by (simp add: getFileStat_def fs_exists_def)

lemma getFileStat_present:
  "fs_files s u = Some f \<Longrightarrow> getFileStat s u = (if f_stat_ok f then Inr (Some (stat_of u f)) else Inl StatFailed)"
  by (simp add: getFileStat_def fs_exists_def fs_getFileStat_def)

lemma fs_store_at:
  "fs_store s u f = (st, s') \<Longrightarrow>
   fs_files s' u = Some (f\<lparr>f_mtime := fs_clock s'\<rparr>) \<and> st = stat_of u (f\<lparr>f_mtime := fs_clock s'\<rparr>) \<and>
   fs_clock s' = Suc (fs_clock s)"
  by (auto simp: fs_store_def Let_def)

lemma save_result:
  assumes "saveContents r s c = Inr (r', s')"
  shows "\<exists>f. fs_files s' (r_uri r) = Some f \<and> f_stat_ok f \<and> \<not> f_dir f \<and> f_content f = c \<and>
    f_mtime f = fs_clock s' \<and> r' = r\<lparr>r_stat := Some (stat_of (r_uri r) f)\<rparr>"
proof -
  let ?u = "r_uri r"
  from assms obtain st where d: "doSaveContents r s c = Inr (st, s')" and r': "r' = r\<lparr>r_stat := Some st\<rparr>"
    by (auto simp: saveContents_def split: sum.splits prod.splits)
  show ?thesis
  proof (cases "fs_files s ?u")
    case None
    with d have "fs_store s ?u \<lparr>f_dir = False, f_content = c, f_mtime = 0, f_stat_ok = True\<rparr> = (st, s')"
      by (simp add: doSaveContents_def getFileStat_absent fs_createFile_def fs_exists_def)
    from fs_store_at [OF this] r' show ?thesis by auto
  next
    case (Some f)
    with d have ok: "f_stat_ok f"
      by (cases "f_stat_ok f") (simp_all add: doSaveContents_def getFileStat_present)
    with Some d have "fs_setContent s (stat_of ?u f) c = Inr (st, s')"
      by (simp add: doSaveContents_def getFileStat_present)
    then have nd: "\<not> f_dir f" and "fs_store s ?u (f\<lparr>f_content := c\<rparr>) = (st, s')"
      using Some by (simp_all add: fs_setContent_def fs_checked_def stat_of_def split: if_splits)
    from fs_store_at [OF this(2)] r' ok nd show ?thesis by auto
  qed
qed

lemma save_succeeds:
  assumes "case fs_files s (r_uri r) of None \<Rightarrow> True | Some f \<Rightarrow> \<not> f_dir f \<and> f_stat_ok f"
  shows "\<exists>r' s'. saveContents r s c = Inr (r', s')"
proof (cases "fs_files s (r_uri r)")
  case None
  then show ?thesis
    by (simp add: saveContents_def doSaveContents_def getFileStat_absent fs_createFile_def
        fs_exists_def split: prod.split)
next
  case (Some f)
  with assms show ?thesis
    by (simp add: saveContents_def doSaveContents_def getFileStat_present fs_setContent_def
        fs_checked_def stat_of_def split: prod.split)
qed

lemma save_read_back:
  assumes "saveContents r s c = Inr (r', s')"
  shows "readContents r' s' = (r', Inr c)"
proof -
  from save_result [OF assms] obtain f where f: "fs_files s' (r_uri r) = Some f" "\<not> f_dir f"
    "f_content f = c" "r' = r\<lparr>r_stat := Some (stat_of (r_uri r) f)\<rparr>" by blast
  then show ?thesis by (simp add: readContents_def fs_resolveContent_def)
qed

text \<open>C22. Save then read: when the resource's file is absent, or a file the service can stat,
  \<open>saveContents\<close> succeeds and a following \<open>readContents\<close> returns the saved text and leaves
  the cached stat as the save set it.\<close>

lemma save_read_roundtrip:
  assumes "case fs_files s (r_uri r) of None \<Rightarrow> True | Some f \<Rightarrow> \<not> f_dir f \<and> f_stat_ok f"
  shows "\<exists>r' s'. saveContents r s c = Inr (r', s') \<and> readContents r' s' = (r', Inr c)"
proof -
  from save_succeeds [OF assms] obtain r' s' where sv: "saveContents r s c = Inr (r', s')" by blast
  with save_read_back [OF sv] show ?thesis by blast
qed

text \<open>C23. After its own save the resource is in sync: a change notification for its uri fires nothing; once another program writes the file, the same notification fires \<open>onDidChangeContents\<close> once.\<close>

lemma sync_after_save:
  assumes "saveContents r s c = Inr (r', s')"
  shows "on_files_changed r' s' [r_uri r] = Inr r' \<and>
    on_files_changed r' (fs_write s' (r_uri r) c2) [r_uri r] = Inr (r'\<lparr>r_fired := Suc (r_fired r')\<rparr>)"
proof -
  from save_result [OF assms] obtain f where f: "fs_files s' (r_uri r) = Some f" "f_stat_ok f"
    "f_mtime f = fs_clock s'" "r' = r\<lparr>r_stat := Some (stat_of (r_uri r) f)\<rparr>" by blast
  have "on_files_changed r' s' [r_uri r] = Inr r'"
    using f by (simp add: on_files_changed_def sync_def isInSync_def getFileStat_present)
  moreover have "on_files_changed r' (fs_write s' (r_uri r) c2) [r_uri r] = Inr (r'\<lparr>r_fired := Suc (r_fired r')\<rparr>)"
    using f by (simp add: on_files_changed_def sync_def isInSync_def getFileStat_present fs_write_def
        fs_store_def stat_of_def Let_def)
  ultimately show ?thesis ..
qed

text \<open>C24. The \<open>try\<close>/\<open>catch\<close> of \<open>getFileStat\<close> does not catch the service's rejection, since the promise is returned without \<open>await\<close>: when the service cannot stat an existing file, resolving it fails with that error instead of logging it and treating the stat as undefined.\<close>

lemma stat_failure_escapes_init:
  "fs_files s u = Some f \<Longrightarrow> \<not> f_stat_ok f \<Longrightarrow> resolve ''file'' u s = Inl StatFailed"
  by (simp add: resolve_def init_def fres_new_def getFileStat_present)

text \<open>C25. \<open>saveContents\<close> takes a fresh stat before writing, so after a read and a change by another program it silently overwrites that change, while \<open>saveContentChanges\<close> with the same cached stat is refused as out of sync.\<close>

lemma save_overwrites_external_change:
  assumes f: "fs_files s (r_uri r) = Some f" "\<not> f_dir f" "f_stat_ok f" "f_mtime f \<le> fs_clock s"
  shows "(\<exists>r3 s3. saveContents (fst (readContents r s)) (fs_write s (r_uri r) c2) c = Inr (r3, s3) \<and>
            map_option f_content (fs_files s3 (r_uri r)) = Some c) \<and>
    saveContentChanges (fst (readContents r s)) (fs_write s (r_uri r) c2) chs = Inl OutOfSync"
proof -
  let ?u = "r_uri r" and ?s2 = "fs_write s (r_uri r) c2"
  let ?r1 = "fst (readContents r s)"
  have r1: "?r1 = r\<lparr>r_stat := Some (stat_of ?u f)\<rparr>"
    using f by (simp add: readContents_def fs_resolveContent_def)
  have s2: "fs_files ?s2 ?u = Some (f\<lparr>f_content := c2, f_mtime := Suc (fs_clock s)\<rparr>)"
    using f by (simp add: fs_write_def fs_store_def Let_def)
  have "case fs_files ?s2 (r_uri ?r1) of None \<Rightarrow> True | Some f \<Rightarrow> \<not> f_dir f \<and> f_stat_ok f"
    using f s2 r1 by simp
  from save_succeeds [OF this, of c] obtain r3 s3 where sv: "saveContents ?r1 ?s2 c = Inr (r3, s3)" by blast
  from save_result [OF sv] r1 have "map_option f_content (fs_files s3 ?u) = Some c" by auto
  moreover have "saveContentChanges ?r1 ?s2 chs = Inl OutOfSync"
    using f s2 r1 by (simp add: saveContentChanges_def fs_updateContent_def fs_checked_def stat_of_def)
  ultimately show ?thesis using sv by blast
qed

text \<open>C26. Reading a file that does not exist fails with \<open>ResourceError.NotFound\<close> and forgets the cached stat, after which \<open>saveContentChanges\<close> fails with \<open>has not been read yet\<close>.\<close>

lemma read_missing_resets_stat:
  "fs_files s (r_uri r) = None \<Longrightarrow>
   readContents r s = (r\<lparr>r_stat := None\<rparr>, Inl ResourceNotFound) \<and>
   saveContentChanges (r\<lparr>r_stat := None\<rparr>) s chs = Inl NotReadYet"
  by (simp add: readContents_def fs_resolveContent_def saveContentChanges_def)

text \<open>C27. The resolver serves only the \<open>file\<close> scheme, and resolving a directory fails with \<open>The given uri is a directory\<close>.\<close>

lemma resolve_rejects_directory:
  "fs_files s u = Some f \<Longrightarrow> f_dir f \<Longrightarrow> f_stat_ok f \<Longrightarrow>
   resolve ''file'' u s = Inl IsADirectory \<and> resolve ''http'' u s = Inr None"
  by (simp add: resolve_def init_def fres_new_def getFileStat_present stat_of_def)

subsection \<open>Witnesses\<close>

lemma save_read_roundtrip_witness:
  "\<exists>r' s'. saveContents (fres_new ''/a'') (demo_fs (Some (demo_file False True))) ''x'' = Inr (r', s') \<and> readContents r' s' = (r', Inr ''x'')"
  by (rule save_read_roundtrip) (simp add: fres_new_def demo_fs_def demo_file_def)

lemma sync_after_save_witness:
  "\<exists>r' s'. saveContents (fres_new ''/a'') (demo_fs (Some (demo_file False True))) ''x'' = Inr (r', s') \<and>
     on_files_changed r' s' [''/a''] = Inr r' \<and>
     on_files_changed r' (fs_write s' ''/a'' ''y'') [''/a''] = Inr (r'\<lparr>r_fired := Suc (r_fired r')\<rparr>)"
proof -
  have "case fs_files (demo_fs (Some (demo_file False True))) (r_uri (fres_new ''/a'')) of None \<Rightarrow> True | Some f \<Rightarrow> \<not> f_dir f \<and> f_stat_ok f"
    by (simp add: fres_new_def demo_fs_def demo_file_def)
  from save_succeeds [OF this, of "''x''"] obtain r' s' where
    sv: "saveContents (fres_new ''/a'') (demo_fs (Some (demo_file False True))) ''x'' = Inr (r', s')" by blast
  from sync_after_save [OF sv, of "''y''"] sv show ?thesis by (simp add: fres_new_def demo_fs_def demo_file_def)
qed

lemma stat_failure_escapes_init_witness: "resolve ''file'' ''/a'' (demo_fs (Some (demo_file False False))) = Inl StatFailed"
  by (rule stat_failure_escapes_init [of _ _ "demo_file False False"]) (simp_all add: demo_fs_def demo_file_def)

lemma save_overwrites_external_change_witness:
  "(\<exists>r3 s3. saveContents (fst (readContents (fres_new ''/a'') (demo_fs (Some (demo_file False True))))) (fs_write (demo_fs (Some (demo_file False True))) ''/a'' ''ext'') ''mine'' = Inr (r3, s3) \<and>
      map_option f_content (fs_files s3 ''/a'') = Some ''mine'') \<and>
   saveContentChanges (fst (readContents (fres_new ''/a'') (demo_fs (Some (demo_file False True))))) (fs_write (demo_fs (Some (demo_file False True))) ''/a'' ''ext'') [(0, 0, ''x'')] = Inl OutOfSync"
  using save_overwrites_external_change [of "demo_fs (Some (demo_file False True))" "fres_new ''/a''" "demo_file False True" "''ext''" "''mine''" "[(0, 0, ''x'')]"]
  by (simp add: fres_new_def demo_fs_def demo_file_def)

lemma read_missing_resets_stat_witness:
  "readContents (fres_new ''/a'') (demo_fs None) = ((fres_new ''/a'')\<lparr>r_stat := None\<rparr>, Inl ResourceNotFound) \<and>
   saveContentChanges ((fres_new ''/a'')\<lparr>r_stat := None\<rparr>) (demo_fs None) [(0, 0, ''x'')] = Inl NotReadYet"
  by (rule read_missing_resets_stat) (simp add: fres_new_def demo_fs_def demo_file_def)

lemma resolve_rejects_directory_witness:
  "resolve ''file'' ''/a'' (demo_fs (Some (demo_file True True))) = Inl IsADirectory \<and> resolve ''http'' ''/a'' (demo_fs (Some (demo_file True True))) = Inr None"
  by (rule resolve_rejects_directory [of _ _ "demo_file True True"]) (simp_all add: demo_fs_def demo_file_def)

end
