(* ===== verification/Layout.thy ===== *)
theory Layout
  imports Rpc
begin

text \<open>
  \<open>MainThreaLayout\<close> of \<open>src/packages/kaitian-extension/src/browser/kaitian/main.thread.layout.ts\<close>,
  the host side of the extension layout API. Its state is the \<open>handlerMap\<close> (keyed by a
  handler's \<open>containerId\<close>), the event-bus subscriptions it is waiting on, the disposables
  it owns (\<open>addDispose\<close>), and the proxy to \<open>ExtHostLayout\<close>, an endpoint of theory \<open>Rpc\<close>
  whose outbox holds the \<open>$acceptMessage\<close> requests the listeners send.

  The layout service (\<open>IMainLayoutService\<close>, outside \<open>src/\<close>) is modelled from its
  contract: a Map from tab bar id to its handler, which has a \<open>containerId\<close>, a size, an
  active flag and the number of listener pairs bound to its \<open>onActivate\<close>/\<open>onInActivate\<close>.
  The environment registers tab bars (publishing \<open>TabBarRegistrationEvent\<close> to the
  subscriptions in order) and activates or deactivates them.
\<close>

record tabbar =
  tb_containerId :: string
  tb_size :: nat
  tb_active :: bool
  tb_listeners :: nat

record layout =
  lw_tabbars :: "(string, tabbar) jsmap"
  lw_handlerMap :: "(string, string) jsmap"
  lw_subs :: "(nat \<times> string) list"
  lw_next :: nat
  lw_disposables :: "nat list"
  lw_proxy :: "string endpoint"
  lw_warned :: "string list"

datatype layout_error = LayoutTypeError

definition ExtHostLayout_id :: string where
  "ExtHostLayout_id = ''ExtHostLayout''"

definition layout_new :: "(string, tabbar) jsmap \<Rightarrow> string endpoint \<Rightarrow> layout" where
  "layout_new tbs ep = \<lparr>lw_tabbars = tbs, lw_handlerMap = [], lw_subs = [], lw_next = 0,
     lw_disposables = [], lw_proxy = ep, lw_warned = []\<rparr>"

definition getHandler :: "layout \<Rightarrow> string \<Rightarrow> layout \<times> tabbar option" where
  "getHandler w i =
     (case jsmap_get (lw_tabbars w) i of
        None \<Rightarrow> (w\<lparr>lw_warned := lw_warned w @ [i]\<rparr>, None)
      | Some h \<Rightarrow> (w, Some h))"

definition upd_tabbar :: "string \<Rightarrow> (tabbar \<Rightarrow> tabbar) \<Rightarrow> layout \<Rightarrow> layout" where
  "upd_tabbar i f w =
     (case jsmap_get (lw_tabbars w) i of None \<Rightarrow> w
      | Some h \<Rightarrow> w\<lparr>lw_tabbars := jsmap_set i (f h) (lw_tabbars w)\<rparr>)"

text \<open>\<open>$setSize\<close>, \<open>$activate\<close>, \<open>$deactivate\<close>: the handler is used without a check, so an
  unknown id gives a warning and then a \<open>TypeError\<close>.\<close>

definition with_handler :: "string \<Rightarrow> (tabbar \<Rightarrow> tabbar) \<Rightarrow> layout \<Rightarrow> layout_error + layout" where
  "with_handler i f w =
     (case getHandler w i of (w', None) \<Rightarrow> Inl LayoutTypeError | (w', Some h) \<Rightarrow> Inr (upd_tabbar i f w'))"

definition mt_setSize :: "string \<Rightarrow> nat \<Rightarrow> layout \<Rightarrow> layout_error + layout" where
  "mt_setSize i n = with_handler i (\<lambda>h. h\<lparr>tb_size := n\<rparr>)"

definition mt_activate :: "string \<Rightarrow> layout \<Rightarrow> layout_error + layout" where
  "mt_activate i = with_handler i (\<lambda>h. h\<lparr>tb_active := True\<rparr>)"

definition mt_deactivate :: "string \<Rightarrow> layout \<Rightarrow> layout_error + layout" where
  "mt_deactivate i = with_handler i (\<lambda>h. h\<lparr>tb_active := False\<rparr>)"

text \<open>\<open>bindHandleEvents\<close> for the handler of tab bar \<open>i\<close>: store it under its container id
  and add one pair of listeners to it.\<close>

definition bindHandleEvents :: "string \<Rightarrow> layout \<Rightarrow> layout" where
  "bindHandleEvents i w =
     (case jsmap_get (lw_tabbars w) i of
        None \<Rightarrow> w
      | Some h \<Rightarrow> upd_tabbar i (\<lambda>h. h\<lparr>tb_listeners := Suc (tb_listeners h)\<rparr>)
                   (w\<lparr>lw_handlerMap := jsmap_set (tb_containerId h) i (lw_handlerMap w)\<rparr>))"

definition connectTabbar :: "string \<Rightarrow> layout \<Rightarrow> layout" where
  "connectTabbar i w =
     (if jsmap_has (lw_handlerMap w) i then w
      else case jsmap_get (lw_tabbars w) i of
        Some h \<Rightarrow> bindHandleEvents i w
      | None \<Rightarrow> (let n = lw_next w in
                 w\<lparr>lw_subs := lw_subs w @ [(n, i)], lw_next := Suc n,
                   lw_disposables := lw_disposables w @ [n]\<rparr>))"

text \<open>The layout service registers tab bar \<open>i\<close>; the event bus then runs the subscriptions
  in order, and each one waiting for \<open>i\<close> binds the handler and disposes itself.\<close>

fun run_subs :: "string \<Rightarrow> (nat \<times> string) list \<Rightarrow> layout \<Rightarrow> layout" where
  "run_subs i [] w = w"
| "run_subs i ((n, j) # ss) w =
     run_subs i ss (if j = i then (bindHandleEvents i w)\<lparr>lw_subs := filter (\<lambda>s. fst s \<noteq> n) (lw_subs (bindHandleEvents i w))\<rparr>
                    else w)"

definition register_tabbar :: "string \<Rightarrow> tabbar \<Rightarrow> layout \<Rightarrow> layout option" where
  "register_tabbar i h w =
     (if jsmap_has (lw_tabbars w) i then None
      else Some (run_subs i (lw_subs w) (w\<lparr>lw_tabbars := jsmap_set i h (lw_tabbars w)\<rparr>)))"

text \<open>The handler fires \<open>onActivate\<close> (or \<open>onInActivate\<close>): every bound listener sends
  \<open>$acceptMessage(containerId, msg)\<close> through the proxy.\<close>

definition send_accept :: "string \<Rightarrow> string \<Rightarrow> layout \<Rightarrow> layout" where
  "send_accept c m w = w\<lparr>lw_proxy := snd (rpc_call ExtHostLayout_id ''$acceptMessage'' [c, m] (lw_proxy w))\<rparr>"

definition fire_tabbar :: "string \<Rightarrow> string \<Rightarrow> layout \<Rightarrow> layout option" where
  "fire_tabbar i m w =
     (case jsmap_get (lw_tabbars w) i of
        None \<Rightarrow> None
      | Some h \<Rightarrow> Some ((send_accept (tb_containerId h) m ^^ tb_listeners h) w))"

definition layout_dispose :: "layout \<Rightarrow> layout" where
  "layout_dispose w = w\<lparr>lw_subs := filter (\<lambda>s. fst s \<notin> set (lw_disposables w)) (lw_subs w),
     lw_disposables := []\<rparr>"

datatype layout_event =
    SetSize string nat | Activate string | Deactivate string | ConnectTabbar string
  | RegisterTabbar string tabbar | FireActivate string | FireDeactivate string | DisposeLayout

fun layout_exec :: "layout \<Rightarrow> layout_event \<Rightarrow> layout_error + layout" where
  "layout_exec w (SetSize i n) = mt_setSize i n w"
| "layout_exec w (Activate i) = mt_activate i w"
| "layout_exec w (Deactivate i) = mt_deactivate i w"
| "layout_exec w (ConnectTabbar i) = Inr (connectTabbar i w)"
| "layout_exec w (RegisterTabbar i h) = (case register_tabbar i h w of None \<Rightarrow> Inr w | Some w' \<Rightarrow> Inr w')"
| "layout_exec w (FireActivate i) = (case fire_tabbar i ''activate'' w of None \<Rightarrow> Inr w | Some w' \<Rightarrow> Inr w')"
| "layout_exec w (FireDeactivate i) = (case fire_tabbar i ''deactivate'' w of None \<Rightarrow> Inr w | Some w' \<Rightarrow> Inr w')"
| "layout_exec w DisposeLayout = Inr (layout_dispose w)"

fun layout_run :: "layout \<Rightarrow> layout_event list \<Rightarrow> layout_error + layout" where
  "layout_run w [] = Inr w"
| "layout_run w (e # es) = (case layout_exec w e of Inl err \<Rightarrow> Inl err | Inr w' \<Rightarrow> layout_run w' es)"

subsection \<open>Analysis\<close>


text \<open>What every reachable state satisfies, and the reachable states: from a fresh
  instance over any registered tab bars, by any sequence of calls and environment events.\<close>

definition layout_inv :: "layout \<Rightarrow> bool" where
  "layout_inv w \<longleftrightarrow> (\<forall>s\<in>set (lw_subs w). \<not> jsmap_has (lw_tabbars w) (snd s)) \<and> ep_inv (lw_proxy w)"

inductive layout_reach :: "layout \<Rightarrow> bool" where
  init: "layout_reach (layout_new tbs rpc_new)"
| step: "layout_reach w \<Longrightarrow> layout_exec w e = Inr w' \<Longrightarrow> layout_reach w'"

subsection \<open>Properties\<close>

lemma upd_tabbar_has [simp]:
  "jsmap_has (lw_tabbars (upd_tabbar i f w)) k = jsmap_has (lw_tabbars w) k"
proof (cases "jsmap_get (lw_tabbars w) i")
  case None
  then show ?thesis by (simp add: upd_tabbar_def)
next
  case (Some h)
  then have "jsmap_has (lw_tabbars w) i" by (simp add: jsmap_has_get)
  with Some show ?thesis by (auto simp: upd_tabbar_def jsmap_has_set)
qed

lemma upd_tabbar_other [simp]:
  "lw_subs (upd_tabbar i f w) = lw_subs w" "lw_proxy (upd_tabbar i f w) = lw_proxy w"
  by (simp_all add: upd_tabbar_def split: option.split)

lemma bind_keys [simp]:
  "jsmap_has (lw_tabbars (bindHandleEvents i w)) k = jsmap_has (lw_tabbars w) k"
  "lw_subs (bindHandleEvents i w) = lw_subs w" "lw_proxy (bindHandleEvents i w) = lw_proxy w"
  by (simp_all add: bindHandleEvents_def split: option.split)

lemma run_subs_keys:
  "jsmap_has (lw_tabbars (run_subs i ss w)) k = jsmap_has (lw_tabbars w) k \<and>
   lw_proxy (run_subs i ss w) = lw_proxy w \<and>
   set (lw_subs (run_subs i ss w)) \<subseteq> set (lw_subs w) - {s. s \<in> set ss \<and> snd s = i}"
proof (induction ss arbitrary: w)
  case Nil
  then show ?case by simp
next
  case (Cons s ss)
  obtain n j where s: "s = (n, j)" by fastforce
  show ?case
  proof (cases "j = i")
    case True
    let ?w1 = "(bindHandleEvents i w)\<lparr>lw_subs := filter (\<lambda>s. fst s \<noteq> n) (lw_subs w)\<rparr>"
    from Cons.IH [of ?w1] True s show ?thesis by auto
  next
    case False
    from Cons.IH [of w] False s show ?thesis by auto
  qed
qed

lemma send_accept_pow:
  "lw_tabbars ((send_accept c m ^^ k) w) = lw_tabbars w \<and> lw_subs ((send_accept c m ^^ k) w) = lw_subs w \<and>
   (ep_inv (lw_proxy w) \<longrightarrow> ep_inv (lw_proxy ((send_accept c m ^^ k) w)))"
proof (induction k)
  case 0
  then show ?case by simp
next
  case (Suc k)
  then show ?case by (simp add: send_accept_def ep_inv_call)
qed

lemma with_handler_inv:
  assumes "layout_inv w" "with_handler i f w = Inr w'"
  shows "layout_inv w'"
proof -
  from assms(2) have "w' = upd_tabbar i f (w\<lparr>lw_warned := lw_warned w @ [i]\<rparr>) \<or> w' = upd_tabbar i f w"
    by (auto simp: with_handler_def getHandler_def split: option.splits)
  with assms(1) show ?thesis by (elim disjE) (simp_all add: layout_inv_def)
qed

lemma fire_tabbar_inv:
  assumes inv: "layout_inv w" and f: "fire_tabbar i m w = Some w'"
  shows "layout_inv w'"
proof -
  from f obtain h where "jsmap_get (lw_tabbars w) i = Some h"
    and "w' = (send_accept (tb_containerId h) m ^^ tb_listeners h) w"
    by (auto simp: fire_tabbar_def split: option.splits)
  with send_accept_pow [where c = "tb_containerId h" and m = m and k = "tb_listeners h" and w = w] inv show ?thesis
    by (simp add: layout_inv_def)
qed

lemma layout_inv_exec:
  assumes inv: "layout_inv w" and ex: "layout_exec w e = Inr w'"
  shows "layout_inv w'"
proof (cases e)
  case (SetSize i n)
  with ex inv show ?thesis by (simp add: mt_setSize_def with_handler_inv)
next
  case (Activate i)
  with ex inv show ?thesis by (simp add: mt_activate_def with_handler_inv)
next
  case (Deactivate i)
  with ex inv show ?thesis by (simp add: mt_deactivate_def with_handler_inv)
next
  case (ConnectTabbar i)
  with ex have w': "w' = connectTabbar i w" by simp
  show ?thesis
  proof (cases "jsmap_get (lw_tabbars w) i")
    case None
    then have "\<not> jsmap_has (lw_tabbars w) i" by (simp add: jsmap_has_get)
    with None inv w' show ?thesis by (auto simp: connectTabbar_def layout_inv_def Let_def)
  next
    case (Some h)
    with inv w' show ?thesis by (auto simp: connectTabbar_def layout_inv_def)
  qed
next
  case (RegisterTabbar i h)
  show ?thesis
  proof (cases "jsmap_has (lw_tabbars w) i")
    case True
    with ex RegisterTabbar inv show ?thesis by (simp add: register_tabbar_def)
  next
    case False
    let ?w1 = "w\<lparr>lw_tabbars := jsmap_set i h (lw_tabbars w)\<rparr>"
    from False ex RegisterTabbar have w': "w' = run_subs i (lw_subs w) ?w1"
      by (simp add: register_tabbar_def)
    from run_subs_keys [of i "lw_subs w" ?w1]
    have k: "\<And>k. jsmap_has (lw_tabbars w') k = (k = i \<or> jsmap_has (lw_tabbars w) k)"
      and p: "lw_proxy w' = lw_proxy w"
      and sb: "set (lw_subs w') \<subseteq> set (lw_subs w) - {s. s \<in> set (lw_subs w) \<and> snd s = i}"
      unfolding w' by (simp_all add: jsmap_has_set)
    show ?thesis unfolding layout_inv_def
    proof (intro conjI ballI)
      fix s assume "s \<in> set (lw_subs w')"
      with sb have "s \<in> set (lw_subs w)" "snd s \<noteq> i" by auto
      with inv k show "\<not> jsmap_has (lw_tabbars w') (snd s)" by (auto simp: layout_inv_def)
    next
      from inv p show "ep_inv (lw_proxy w')" by (simp add: layout_inv_def)
    qed
  qed
next
  case (FireActivate i)
  with ex inv show ?thesis by (auto split: option.splits intro: fire_tabbar_inv)
next
  case (FireDeactivate i)
  with ex inv show ?thesis by (auto split: option.splits intro: fire_tabbar_inv)
next
  case DisposeLayout
  with ex have "w' = layout_dispose w" by simp
  with inv show ?thesis unfolding layout_inv_def layout_dispose_def by simp
qed

text \<open>C30. In every reachable state of the layout API each live event-bus subscription waits for a tab bar that is not registered, and the proxy endpoint keeps each correlation id pending or settled exactly once.\<close>

lemma layout_reachable_inv: "layout_reach w \<Longrightarrow> layout_inv w"
proof (induction rule: layout_reach.induct)
  case (init tbs)
  show ?case by (simp add: layout_inv_def layout_new_def ep_inv_new)
next
  case (step w e w')
  from step.IH step.hyps(2) show ?case by (rule layout_inv_exec)
qed

lemma layout_run_replicate_connect:
  "layout_run w (replicate k (ConnectTabbar t) @ es) = layout_run ((connectTabbar t ^^ k) w) es"
  by (induction k arbitrary: w) (simp_all add: funpow_swap1)

lemma connect_pow:
  assumes "tb_containerId h \<noteq> t" "\<not> jsmap_has (lw_handlerMap w) t"
    "jsmap_get (lw_tabbars w) t = Some h"
  shows "\<not> jsmap_has (lw_handlerMap ((connectTabbar t ^^ k) w)) t \<and>
    jsmap_get (lw_tabbars ((connectTabbar t ^^ k) w)) t = Some (h\<lparr>tb_listeners := tb_listeners h + k\<rparr>) \<and>
    lw_proxy ((connectTabbar t ^^ k) w) = lw_proxy w"
proof (induction k)
  case 0
  with assms show ?case by simp
next
  case (Suc k)
  then show ?case using assms(1)
    by (simp add: connectTabbar_def bindHandleEvents_def upd_tabbar_def jsmap_has_set jsmap_get_set)
qed

lemma send_accept_outbox:
  "\<not> ep_closed (lw_proxy w) \<Longrightarrow>
   ep_outbox (lw_proxy ((send_accept c m ^^ n) w)) = ep_outbox (lw_proxy w) @
     map (\<lambda>j. Request j ExtHostLayout_id ''$acceptMessage'' [c, m]) [ep_next (lw_proxy w) ..< ep_next (lw_proxy w) + n] \<and>
   ep_next (lw_proxy ((send_accept c m ^^ n) w)) = ep_next (lw_proxy w) + n \<and>
   \<not> ep_closed (lw_proxy ((send_accept c m ^^ n) w))"
  by (induction n) (simp_all add: send_accept_def rpc_call_def Let_def)

text \<open>C29. \<open>$connectTabbar(id)\<close> checks \<open>handlerMap.has(id)\<close> but stores the handler under its \<open>containerId\<close>; when the two differ every call binds another pair of listeners, so after \<open>k\<close> calls one activation sends \<open>k\<close> more messages than before.\<close>

lemma connect_repeats_listeners:
  assumes "tb_containerId h \<noteq> t" "\<not> jsmap_has (lw_handlerMap w) t"
    "jsmap_get (lw_tabbars w) t = Some h" "\<not> ep_closed (lw_proxy w)"
  shows "\<exists>w'. layout_run w (replicate k (ConnectTabbar t) @ [FireActivate t]) = Inr w' \<and>
    ep_outbox (lw_proxy w') = ep_outbox (lw_proxy w) @
      map (\<lambda>j. Request j ExtHostLayout_id ''$acceptMessage'' [tb_containerId h, ''activate''])
        [ep_next (lw_proxy w) ..< ep_next (lw_proxy w) + (tb_listeners h + k)]"
proof -
  let ?w = "(connectTabbar t ^^ k) w"
  from connect_pow [OF assms(1-3), of k]
  have g: "jsmap_get (lw_tabbars ?w) t = Some (h\<lparr>tb_listeners := tb_listeners h + k\<rparr>)"
    and p: "lw_proxy ?w = lw_proxy w" by blast+
  from assms(4) p have o: "\<not> ep_closed (lw_proxy ?w)" by simp
  from send_accept_outbox [OF o, where c = "tb_containerId h" and m = "''activate''" and n = "tb_listeners h + k"] g p
  show ?thesis by (simp add: layout_run_replicate_connect fire_tabbar_def)
qed

text \<open>C28. Two \<open>$connectTabbar\<close> calls for a tab bar that is not registered yet leave two subscriptions; when it registers both bind the handler, and one activation sends \<open>$acceptMessage(id, activate)\<close> twice.\<close>

lemma duplicate_connect_duplicates_messages:
  "\<exists>w. layout_run (layout_new [] rpc_new)
      [ConnectTabbar t, ConnectTabbar t,
       RegisterTabbar t \<lparr>tb_containerId = t, tb_size = n, tb_active = b, tb_listeners = 0\<rparr>,
       FireActivate t] = Inr w \<and>
    ep_outbox (lw_proxy w) = [Request 0 ExtHostLayout_id ''$acceptMessage'' [t, ''activate''],
                              Request 1 ExtHostLayout_id ''$acceptMessage'' [t, ''activate'']]"
  by (simp add: layout_new_def connectTabbar_def register_tabbar_def bindHandleEvents_def
      upd_tabbar_def fire_tabbar_def send_accept_def rpc_new_def rpc_call_def jsmap_empty
      jsmap_has_def jsmap_get_def)

text \<open>C31. A single \<open>$connectTabbar\<close> before the tab bar registers binds its handler once registration happens, drops the subscription, makes a later call a no-op, and each activation or deactivation then sends exactly one message.\<close>

lemma connect_once_binds_once:
  "\<exists>w. layout_run (layout_new [] rpc_new)
      [ConnectTabbar t, RegisterTabbar t \<lparr>tb_containerId = t, tb_size = n, tb_active = b, tb_listeners = 0\<rparr>,
       ConnectTabbar t, FireActivate t, FireDeactivate t] = Inr w \<and>
    lw_subs w = [] \<and> jsmap_get (lw_handlerMap w) t = Some t \<and>
    ep_outbox (lw_proxy w) = [Request 0 ExtHostLayout_id ''$acceptMessage'' [t, ''activate''],
                              Request 1 ExtHostLayout_id ''$acceptMessage'' [t, ''deactivate'']]"
  by (simp add: layout_new_def connectTabbar_def register_tabbar_def bindHandleEvents_def
      upd_tabbar_def fire_tabbar_def send_accept_def rpc_new_def rpc_call_def jsmap_empty
      jsmap_has_def jsmap_get_def)

text \<open>C32. \<open>$setSize\<close>, \<open>$activate\<close> and \<open>$deactivate\<close> on an id with no tab bar warn and then throw a \<open>TypeError\<close> (the handler is dereferenced unchecked).\<close>

lemma unknown_tabbar_type_error:
  "jsmap_get (lw_tabbars w) i = None \<Longrightarrow>
   layout_exec w (SetSize i n) = Inl LayoutTypeError \<and> layout_exec w (Activate i) = Inl LayoutTypeError \<and>
   layout_exec w (Deactivate i) = Inl LayoutTypeError"
  by (simp add: mt_setSize_def mt_activate_def mt_deactivate_def with_handler_def getHandler_def)

subsection \<open>Witnesses\<close>

lemma layout_reachable_inv_witness:
  "layout_reach (connectTabbar ''t'' (layout_new [] rpc_new)) \<and> layout_inv (connectTabbar ''t'' (layout_new [] rpc_new))"
proof -
  have "layout_exec (layout_new [] rpc_new) (ConnectTabbar ''t'') = Inr (connectTabbar ''t'' (layout_new [] rpc_new))"
    by simp
  with layout_reach.init have r: "layout_reach (connectTabbar ''t'' (layout_new [] rpc_new))"
    by (rule layout_reach.step)
  with layout_reachable_inv [OF r] show ?thesis by simp
qed

lemma connect_repeats_listeners_witness:
  "\<exists>w'. layout_run (layout_new [(''t'', \<lparr>tb_containerId = ''c'', tb_size = 0, tb_active = False, tb_listeners = 0\<rparr>)] rpc_new)
      (replicate 3 (ConnectTabbar ''t'') @ [FireActivate ''t'']) = Inr w' \<and>
    ep_outbox (lw_proxy w') = map (\<lambda>j. Request j ExtHostLayout_id ''$acceptMessage'' [''c'', ''activate'']) [0 ..< 3]"
  using connect_repeats_listeners [of "\<lparr>tb_containerId = ''c'', tb_size = 0, tb_active = False, tb_listeners = 0\<rparr>" "''t''"
      "layout_new [(''t'', \<lparr>tb_containerId = ''c'', tb_size = 0, tb_active = False, tb_listeners = 0\<rparr>)] rpc_new" 3]
  by (simp add: layout_new_def rpc_new_def jsmap_has_def jsmap_get_def)

lemma unknown_tabbar_type_error_witness:
  "layout_exec (layout_new [] rpc_new) (SetSize ''x'' 3) = Inl LayoutTypeError \<and>
   layout_exec (layout_new [] rpc_new) (Activate ''x'') = Inl LayoutTypeError \<and>
   layout_exec (layout_new [] rpc_new) (Deactivate ''x'') = Inl LayoutTypeError"
  by (rule unknown_tabbar_type_error) (simp add: layout_new_def jsmap_empty)

end
