(* ===== verification/Chat.thy ===== *)
theory Chat
  imports Prelude
begin

text \<open>
  \<open>ChatInternalService\<close> of \<open>src/packages/ai-native/src/browser/chat/chat.internal.service.ts\<close>:
  the latest request id with its change event, and the current session model
  (\<open>#sessionModel\<close>), through which every request goes to the chat manager.

  \<open>ChatManagerService\<close> (\<open>./chat-manager.service\<close>, outside \<open>src/\<close>) is modelled from its
  contract: a Map of session models by session id, the pending-request table (one
  cancellation source per session with a request in flight), and fresh ids. \<open>clearSession\<close>
  and \<open>createRequest\<close> reject an unknown session; \<open>createRequest\<close> returns \<open>undefined\<close>
  while the session has a request in flight; \<open>sendRequest\<close> registers the pending request,
  which the environment completes later; \<open>cancelRequest\<close> cancels and forgets it.
\<close>

record creq =
  rq_id :: nat
  rq_input :: string
  rq_agent :: string
  rq_command :: "string option"

record csession =
  cs_requests :: "creq list"
  cs_disposed :: bool

record chatmgr =
  cm_sessions :: "(nat, csession) jsmap"
  cm_pending :: "nat list"
  cm_next :: nat

datatype chat_error = UnknownSession nat

record chat =
  ch_latest :: "string option"
  ch_session :: nat
  ch_fired :: "string list"

record chatw =
  cw_svc :: chat
  cw_mgr :: chatmgr

subsection \<open>The chat manager\<close>

definition chatmgr_init :: chatmgr where
  "chatmgr_init = \<lparr>cm_sessions = [], cm_pending = [], cm_next = 0\<rparr>"

definition cm_startSession :: "chatmgr \<Rightarrow> nat \<times> chatmgr" where
  "cm_startSession cm = (let i = cm_next cm in
     (i, cm\<lparr>cm_sessions := jsmap_set i \<lparr>cs_requests = [], cs_disposed = False\<rparr> (cm_sessions cm),
            cm_next := Suc i\<rparr>))"

definition cm_clearSession :: "nat \<Rightarrow> chatmgr \<Rightarrow> chat_error + chatmgr" where
  "cm_clearSession i cm =
     (if \<not> jsmap_has (cm_sessions cm) i then Inl (UnknownSession i)
      else Inr (cm\<lparr>cm_sessions := jsmap_delete i (cm_sessions cm), cm_pending := removeAll i (cm_pending cm)\<rparr>))"

definition cm_createRequest :: "nat \<Rightarrow> string \<Rightarrow> string \<Rightarrow> string option \<Rightarrow> chatmgr \<Rightarrow>
    chat_error + creq option \<times> chatmgr" where
  "cm_createRequest i input agent cmd cm =
     (case jsmap_get (cm_sessions cm) i of
        None \<Rightarrow> Inl (UnknownSession i)
      | Some s \<Rightarrow>
          (if i \<in> set (cm_pending cm) then Inr (None, cm)
           else (let r = \<lparr>rq_id = cm_next cm, rq_input = input, rq_agent = agent, rq_command = cmd\<rparr>
                 in Inr (Some r, cm\<lparr>cm_sessions := jsmap_set i (s\<lparr>cs_requests := cs_requests s @ [r]\<rparr>) (cm_sessions cm),
                                    cm_next := Suc (cm_next cm)\<rparr>))))"

definition cm_sendRequest :: "nat \<Rightarrow> creq \<Rightarrow> bool \<Rightarrow> chatmgr \<Rightarrow> chat_error + chatmgr" where
  "cm_sendRequest i r regen cm =
     (if \<not> jsmap_has (cm_sessions cm) i then Inl (UnknownSession i)
      else Inr (cm\<lparr>cm_pending := removeAll i (cm_pending cm) @ [i]\<rparr>))"

definition cm_cancelRequest :: "nat \<Rightarrow> chatmgr \<Rightarrow> chatmgr" where
  "cm_cancelRequest i cm = cm\<lparr>cm_pending := removeAll i (cm_pending cm)\<rparr>"

definition cm_requestDone :: "nat \<Rightarrow> chatmgr \<Rightarrow> chatmgr" where
  "cm_requestDone i cm = cm\<lparr>cm_pending := removeAll i (cm_pending cm)\<rparr>"

definition cm_disposeSession :: "nat \<Rightarrow> chatmgr \<Rightarrow> chatmgr" where
  "cm_disposeSession i cm =
     (case jsmap_get (cm_sessions cm) i of None \<Rightarrow> cm
      | Some s \<Rightarrow> cm\<lparr>cm_sessions := jsmap_set i (s\<lparr>cs_disposed := True\<rparr>) (cm_sessions cm)\<rparr>)"

subsection \<open>\<open>ChatInternalService\<close>\<close>

definition chat_new :: "chatmgr \<Rightarrow> chatw" where
  "chat_new cm = (let (i, cm') = cm_startSession cm in
     \<lparr>cw_svc = \<lparr>ch_latest = None, ch_session = i, ch_fired = []\<rparr>, cw_mgr = cm'\<rparr>)"

definition setLatestRequestId :: "string \<Rightarrow> chatw \<Rightarrow> chatw" where
  "setLatestRequestId x w =
     w\<lparr>cw_svc := (cw_svc w)\<lparr>ch_latest := Some x, ch_fired := ch_fired (cw_svc w) @ [x]\<rparr>\<rparr>"

definition createRequest :: "string \<Rightarrow> string \<Rightarrow> string option \<Rightarrow> chatw \<Rightarrow> chat_error + creq option \<times> chatw" where
  "createRequest input agent cmd w =
     (case cm_createRequest (ch_session (cw_svc w)) input agent cmd (cw_mgr w) of
        Inl e \<Rightarrow> Inl e | Inr (r, cm') \<Rightarrow> Inr (r, w\<lparr>cw_mgr := cm'\<rparr>))"

definition sendRequest :: "creq \<Rightarrow> bool \<Rightarrow> chatw \<Rightarrow> chat_error + chatw" where
  "sendRequest r regen w =
     (case cm_sendRequest (ch_session (cw_svc w)) r regen (cw_mgr w) of
        Inl e \<Rightarrow> Inl e | Inr cm' \<Rightarrow> Inr (w\<lparr>cw_mgr := cm'\<rparr>))"

definition cancelRequest :: "chatw \<Rightarrow> chatw" where
  "cancelRequest w = w\<lparr>cw_mgr := cm_cancelRequest (ch_session (cw_svc w)) (cw_mgr w)\<rparr>"

definition clearSessionModel :: "chatw \<Rightarrow> chat_error + chatw" where
  "clearSessionModel w =
     (case cm_clearSession (ch_session (cw_svc w)) (cw_mgr w) of
        Inl e \<Rightarrow> Inl e
      | Inr cm' \<Rightarrow> (let (i, cm'') = cm_startSession cm' in
                    Inr (w\<lparr>cw_svc := (cw_svc w)\<lparr>ch_session := i\<rparr>, cw_mgr := cm''\<rparr>)))"

definition chat_dispose :: "chatw \<Rightarrow> chatw" where
  "chat_dispose w = w\<lparr>cw_mgr := cm_disposeSession (ch_session (cw_svc w)) (cw_mgr w)\<rparr>"

datatype chat_op =
    OpSetLatest string | OpCreate string string "string option" | OpSend creq bool | OpCancel
  | OpClear | OpDispose | OpDone nat

fun chat_exec :: "chatw \<Rightarrow> chat_op \<Rightarrow> chat_error + chatw" where
  "chat_exec w (OpSetLatest x) = Inr (setLatestRequestId x w)"
| "chat_exec w (OpCreate a b c) = map_sum id snd (createRequest a b c w)"
| "chat_exec w (OpSend r g) = sendRequest r g w"
| "chat_exec w OpCancel = Inr (cancelRequest w)"
| "chat_exec w OpClear = clearSessionModel w"
| "chat_exec w OpDispose = Inr (chat_dispose w)"
| "chat_exec w (OpDone i) = Inr (w\<lparr>cw_mgr := cm_requestDone i (cw_mgr w)\<rparr>)"

text \<open>What every reachable state satisfies: the service's session is one the manager
  holds, every pending request belongs to a held session, and every held id is below the
  next fresh id. The reachable states start from a fresh manager.\<close>

definition chat_inv :: "chatw \<Rightarrow> bool" where
  "chat_inv w \<longleftrightarrow> jsmap_has (cm_sessions (cw_mgr w)) (ch_session (cw_svc w)) \<and>
     (\<forall>i\<in>set (cm_pending (cw_mgr w)). jsmap_has (cm_sessions (cw_mgr w)) i) \<and>
     (\<forall>i. jsmap_has (cm_sessions (cw_mgr w)) i \<longrightarrow> i < cm_next (cw_mgr w))"

inductive chat_reach :: "chatw \<Rightarrow> bool" where
  init: "chat_reach (chat_new chatmgr_init)"
| step: "chat_reach w \<Longrightarrow> chat_exec w op = Inr w' \<Longrightarrow> chat_reach w'"

subsection \<open>Properties\<close>


lemma jsmap_has_present: "jsmap_get m k = Some v \<Longrightarrow> jsmap_has m k"
  by (simp add: jsmap_has_get)

lemma jsmap_set_present_has:
  "jsmap_get m k = Some v \<Longrightarrow> jsmap_has (jsmap_set k v' m) = jsmap_has m"
  by (auto simp: fun_eq_iff jsmap_has_set dest: jsmap_has_present)

lemma cm_create_keys:
  "cm_createRequest i a b c cm = Inr (r, cm') \<Longrightarrow>
   jsmap_has (cm_sessions cm') = jsmap_has (cm_sessions cm) \<and> cm_pending cm' = cm_pending cm \<and>
   cm_next cm \<le> cm_next cm'"
  by (auto simp: cm_createRequest_def Let_def jsmap_set_present_has split: option.splits if_splits)

lemma cm_dispose_keys:
  "jsmap_has (cm_sessions (cm_disposeSession i cm)) = jsmap_has (cm_sessions cm) \<and>
   cm_pending (cm_disposeSession i cm) = cm_pending cm \<and> cm_next (cm_disposeSession i cm) = cm_next cm"
  by (auto simp: cm_disposeSession_def jsmap_set_present_has split: option.splits)

lemma cm_start_keys:
  "cm_startSession cm = (j, cm') \<Longrightarrow>
   j = cm_next cm \<and> jsmap_has (cm_sessions cm') = (jsmap_has (cm_sessions cm))(j := True) \<and>
   cm_pending cm' = cm_pending cm \<and> cm_next cm' = Suc (cm_next cm) \<and>
   jsmap_get (cm_sessions cm') j = Some \<lparr>cs_requests = [], cs_disposed = False\<rparr>"
  by (auto simp: cm_startSession_def Let_def jsmap_has_set jsmap_get_set fun_eq_iff)

lemma cm_clear_keys:
  "cm_clearSession i cm = Inr cm' \<Longrightarrow>
   jsmap_has (cm_sessions cm') = (jsmap_has (cm_sessions cm))(i := False) \<and>
   cm_pending cm' = removeAll i (cm_pending cm) \<and> cm_next cm' = cm_next cm"
  by (auto simp: cm_clearSession_def jsmap_has_delete fun_eq_iff split: if_splits)

lemma chat_inv_exec:
  assumes inv: "chat_inv w" and ex: "chat_exec w op = Inr w'"
  shows "chat_inv w'"
proof (cases op)
  case (OpCreate a b c)
  with ex obtain r cm' where cr: "cm_createRequest (ch_session (cw_svc w)) a b c (cw_mgr w) = Inr (r, cm')"
    and w': "w' = w\<lparr>cw_mgr := cm'\<rparr>"
    by (auto simp: createRequest_def split: sum.splits prod.splits)
  from cm_create_keys [OF cr] inv w' show ?thesis by (auto simp: chat_inv_def)
next
  case OpClear
  with ex obtain cm' j cm'' where cl: "cm_clearSession (ch_session (cw_svc w)) (cw_mgr w) = Inr cm'"
    and st: "cm_startSession cm' = (j, cm'')"
    and w': "w' = w\<lparr>cw_svc := (cw_svc w)\<lparr>ch_session := j\<rparr>, cw_mgr := cm''\<rparr>"
    by (auto simp: clearSessionModel_def Let_def split: sum.splits prod.splits)
  from cm_clear_keys [OF cl] cm_start_keys [OF st] inv w' show ?thesis
    by (auto simp: chat_inv_def)
next
  case OpDispose
  with ex cm_dispose_keys inv show ?thesis by (auto simp: chat_inv_def chat_dispose_def)
next
  case (OpSend r g)
  with ex inv show ?thesis
    by (auto simp: chat_inv_def sendRequest_def cm_sendRequest_def split: if_splits)
qed (use ex inv in \<open>auto simp: chat_inv_def setLatestRequestId_def cancelRequest_def
  cm_cancelRequest_def cm_requestDone_def\<close>)

text \<open>C33. In every reachable state the service's \<open>#sessionModel\<close> is a session the chat manager holds, every pending request belongs to a held session, and ids are fresh.\<close>

lemma chat_reachable_inv: "chat_reach w \<Longrightarrow> chat_inv w"
proof (induction rule: chat_reach.induct)
  case init
  show ?case by (simp add: chat_new_def chatmgr_init_def cm_startSession_def chat_inv_def jsmap_has_def)
next
  case (step w op w')
  from step.IH step.hyps(2) show ?case by (rule chat_inv_exec)
qed

lemma chat_inv_fresh:
  "chat_inv w \<Longrightarrow> \<not> jsmap_has (cm_sessions (cw_mgr w)) (cm_next (cw_mgr w)) \<and>
     cm_next (cw_mgr w) \<notin> set (cm_pending (cw_mgr w))"
  by (auto simp: chat_inv_def)

text \<open>C34. \<open>clearSessionModel\<close> never fails in a state satisfying the invariant: it removes the old session together with its pending request, switches to a new, different session, and the next \<open>createRequest\<close> is the only request of the new session.\<close>

lemma clear_session_fresh:
  assumes inv: "chat_inv w"
  shows "\<exists>w' r w''. clearSessionModel w = Inr w' \<and>
    ch_session (cw_svc w') \<noteq> ch_session (cw_svc w) \<and>
    \<not> jsmap_has (cm_sessions (cw_mgr w')) (ch_session (cw_svc w)) \<and>
    ch_session (cw_svc w) \<notin> set (cm_pending (cw_mgr w')) \<and>
    createRequest a b c w' = Inr (Some r, w'') \<and>
    jsmap_get (cm_sessions (cw_mgr w'')) (ch_session (cw_svc w')) = Some \<lparr>cs_requests = [r], cs_disposed = False\<rparr>"
proof -
  let ?i = "ch_session (cw_svc w)" and ?cm = "cw_mgr w"
  from inv have has: "jsmap_has (cm_sessions ?cm) ?i" by (simp add: chat_inv_def)
  let ?cm1 = "?cm\<lparr>cm_sessions := jsmap_delete ?i (cm_sessions ?cm), cm_pending := removeAll ?i (cm_pending ?cm)\<rparr>"
  have cl: "cm_clearSession ?i ?cm = Inr ?cm1" using has by (simp add: cm_clearSession_def)
  obtain j cm2 where st: "cm_startSession ?cm1 = (j, cm2)" by fastforce
  from cm_start_keys [OF st] have j: "j = cm_next ?cm" and k2: "jsmap_has (cm_sessions cm2) = (jsmap_has (cm_sessions ?cm1))(j := True)"
    and p2: "cm_pending cm2 = removeAll ?i (cm_pending ?cm)" by simp_all
  from cm_start_keys [OF st]
  have g2: "jsmap_get (cm_sessions cm2) j = Some \<lparr>cs_requests = [], cs_disposed = False\<rparr>" by blast
  let ?w' = "w\<lparr>cw_svc := (cw_svc w)\<lparr>ch_session := j\<rparr>, cw_mgr := cm2\<rparr>"
  have c: "clearSessionModel w = Inr ?w'" using cl st by (simp add: clearSessionModel_def)
  from inv has j have ne: "j \<noteq> ?i" by (auto simp: chat_inv_def)
  from chat_inv_fresh [OF inv] j p2 have jp: "j \<notin> set (cm_pending cm2)" by simp
  have gone: "\<not> jsmap_has (cm_sessions cm2) ?i" using k2 ne by (simp add: jsmap_has_delete)
  let ?r = "\<lparr>rq_id = cm_next cm2, rq_input = a, rq_agent = b, rq_command = c\<rparr>"
  let ?cm3 = "cm2\<lparr>cm_sessions := jsmap_set j \<lparr>cs_requests = [?r], cs_disposed = False\<rparr> (cm_sessions cm2),
                   cm_next := Suc (cm_next cm2)\<rparr>"
  have cr: "createRequest a b c ?w' = Inr (Some ?r, ?w'\<lparr>cw_mgr := ?cm3\<rparr>)"
    using g2 jp by (simp add: createRequest_def cm_createRequest_def Let_def)
  show ?thesis
    using c ne gone p2 cr by (auto simp: jsmap_get_set)
qed

text \<open>C35. While the session has a request in flight, \<open>createRequest\<close> returns \<open>undefined\<close> and changes nothing; after \<open>cancelRequest\<close> it creates a request again.\<close>

lemma create_refused_while_pending:
  assumes "chat_inv w" and "sendRequest q g w = Inr w1"
  shows "createRequest a b c w1 = Inr (None, w1) \<and>
    (\<exists>r w2. createRequest a b c (cancelRequest w1) = Inr (Some r, w2))"
proof -
  let ?i = "ch_session (cw_svc w)"
  from assms(2) have w1: "w1 = w\<lparr>cw_mgr := (cw_mgr w)\<lparr>cm_pending := removeAll ?i (cm_pending (cw_mgr w)) @ [?i]\<rparr>\<rparr>"
    by (simp add: sendRequest_def cm_sendRequest_def split: if_splits)
  from assms(1) obtain s where g: "jsmap_get (cm_sessions (cw_mgr w)) ?i = Some s"
    by (auto simp: chat_inv_def jsmap_has_get)
  show ?thesis
    using g w1 by (simp add: createRequest_def cm_createRequest_def cancelRequest_def cm_cancelRequest_def Let_def)
qed

text \<open>C36. A sequence of \<open>setLatestRequestId\<close> calls leaves the last id as \<open>latestRequestId\<close> and fires \<open>onChangeRequestId\<close> once per call with the ids in call order, without touching the chat manager.\<close>

lemma set_latest_sequence:
  "ch_latest (cw_svc (fold setLatestRequestId xs w)) = (if xs = [] then ch_latest (cw_svc w) else Some (last xs)) \<and>
   ch_fired (cw_svc (fold setLatestRequestId xs w)) = ch_fired (cw_svc w) @ xs \<and>
   cw_mgr (fold setLatestRequestId xs w) = cw_mgr w"
  by (induction xs arbitrary: w) (simp_all add: setLatestRequestId_def)

text \<open>C37. \<open>dispose\<close> disposes the session model but leaves it current and held by the manager: a later \<open>createRequest\<close> still adds a request to the disposed session.\<close>

lemma dispose_keeps_serving:
  assumes "chat_inv w" and "ch_session (cw_svc w) \<notin> set (cm_pending (cw_mgr w))"
  shows "\<exists>r w' s. createRequest a b c (chat_dispose w) = Inr (Some r, w') \<and>
    jsmap_get (cm_sessions (cw_mgr w')) (ch_session (cw_svc w)) = Some s \<and> cs_disposed s \<and>
    last (cs_requests s) = r"
proof -
  let ?i = "ch_session (cw_svc w)"
  from assms(1) obtain s where g: "jsmap_get (cm_sessions (cw_mgr w)) ?i = Some s"
    by (auto simp: chat_inv_def jsmap_has_get)
  then show ?thesis using assms(2)
    by (simp add: chat_dispose_def cm_disposeSession_def createRequest_def cm_createRequest_def Let_def jsmap_get_set)
qed

subsection \<open>Witnesses\<close>

lemma chat_reachable_inv_witness: "chat_reach (chat_new chatmgr_init) \<and> chat_inv (chat_new chatmgr_init)"
  using chat_reachable_inv [OF chat_reach.init] chat_reach.init by blast

lemma clear_session_fresh_witness:
  "chat_inv (chat_new chatmgr_init) \<and>
   (\<exists>w' r w''. clearSessionModel (chat_new chatmgr_init) = Inr w' \<and>
    ch_session (cw_svc w') \<noteq> ch_session (cw_svc (chat_new chatmgr_init)) \<and>
    \<not> jsmap_has (cm_sessions (cw_mgr w')) (ch_session (cw_svc (chat_new chatmgr_init))) \<and>
    ch_session (cw_svc (chat_new chatmgr_init)) \<notin> set (cm_pending (cw_mgr w')) \<and>
    createRequest ''hi'' ''agent'' None w' = Inr (Some r, w'') \<and>
    jsmap_get (cm_sessions (cw_mgr w'')) (ch_session (cw_svc w')) = Some \<lparr>cs_requests = [r], cs_disposed = False\<rparr>)"
proof -
  have inv: "chat_inv (chat_new chatmgr_init)"
    by (simp add: chat_inv_def chat_new_def chatmgr_init_def cm_startSession_def jsmap_has_def)
  from clear_session_fresh [OF inv, of "''hi''" "''agent''" None] inv show ?thesis by blast
qed

lemma create_refused_while_pending_witness:
  "chat_inv (chat_new chatmgr_init) \<and>
   sendRequest \<lparr>rq_id = 9, rq_input = ''q'', rq_agent = ''a'', rq_command = None\<rparr> False (chat_new chatmgr_init) =
     Inr ((chat_new chatmgr_init)\<lparr>cw_mgr := (cw_mgr (chat_new chatmgr_init))\<lparr>cm_pending := [0]\<rparr>\<rparr>) \<and>
   createRequest ''hi'' ''agent'' None ((chat_new chatmgr_init)\<lparr>cw_mgr := (cw_mgr (chat_new chatmgr_init))\<lparr>cm_pending := [0]\<rparr>\<rparr>) =
     Inr (None, (chat_new chatmgr_init)\<lparr>cw_mgr := (cw_mgr (chat_new chatmgr_init))\<lparr>cm_pending := [0]\<rparr>\<rparr>) \<and>
   (\<exists>r w2. createRequest ''hi'' ''agent'' None
      (cancelRequest ((chat_new chatmgr_init)\<lparr>cw_mgr := (cw_mgr (chat_new chatmgr_init))\<lparr>cm_pending := [0]\<rparr>\<rparr>)) = Inr (Some r, w2))"
proof -
  have inv: "chat_inv (chat_new chatmgr_init)"
    by (simp add: chat_inv_def chat_new_def chatmgr_init_def cm_startSession_def jsmap_has_def)
  have snd: "sendRequest \<lparr>rq_id = 9, rq_input = ''q'', rq_agent = ''a'', rq_command = None\<rparr> False (chat_new chatmgr_init) =
     Inr ((chat_new chatmgr_init)\<lparr>cw_mgr := (cw_mgr (chat_new chatmgr_init))\<lparr>cm_pending := [0]\<rparr>\<rparr>)"
    by (simp add: sendRequest_def cm_sendRequest_def chat_new_def chatmgr_init_def cm_startSession_def jsmap_has_def)
  from create_refused_while_pending [OF inv snd, of "''hi''" "''agent''" None] inv snd show ?thesis by blast
qed

lemma dispose_keeps_serving_witness:
  "chat_inv (chat_new chatmgr_init) \<and> ch_session (cw_svc (chat_new chatmgr_init)) \<notin> set (cm_pending (cw_mgr (chat_new chatmgr_init))) \<and>
   (\<exists>r w' s. createRequest ''hi'' ''agent'' None (chat_dispose (chat_new chatmgr_init)) = Inr (Some r, w') \<and>
    jsmap_get (cm_sessions (cw_mgr w')) (ch_session (cw_svc (chat_new chatmgr_init))) = Some s \<and> cs_disposed s \<and>
    last (cs_requests s) = r)"
proof -
  have inv: "chat_inv (chat_new chatmgr_init)"
    by (simp add: chat_inv_def chat_new_def chatmgr_init_def cm_startSession_def jsmap_has_def)
  have np: "ch_session (cw_svc (chat_new chatmgr_init)) \<notin> set (cm_pending (cw_mgr (chat_new chatmgr_init)))"
    by (simp add: chat_new_def chatmgr_init_def cm_startSession_def)
  from dispose_keeps_serving [OF inv np, of "''hi''" "''agent''" None] inv np show ?thesis by blast
qed

end
