(* ===== verification/Hash.thy ===== *)
theory Hash
  imports Prelude
begin

text \<open>
  \<open>HashCalculateContribution\<close> of
  \<open>src/packages/core-node/src/hash-calculate/hash-calculate.contribution.ts\<close>. Its
  \<open>initialize\<close> awaits the hash service's own \<open>initialize\<close> (outside \<open>src/\<close>, modelled as
  its outcome) and, in the \<open>catch\<close>, throws a new \<open>Error\<close> whose message is a fixed prefix,
  a line break, a space and the interpolated \<open>err.message\<close>.

  What the service may reject with is any JavaScript value, classified by what
  \<open>err.message\<close> does with it (\<open>thrown\<close>): an object (an \<open>Error\<close> or any other) whose
  \<open>message\<close> property holds a string, an object without that property, a non-nullish
  primitive (both read \<open>undefined\<close>, which the template prints as \<open>undefined\<close>), or
  \<open>null\<close>/\<open>undefined\<close>, for which the property read itself throws a \<open>TypeError\<close> inside
  the \<open>catch\<close>, so the wrapped error is never built. \<open>js_message\<close> is that property read,
  \<open>None\<close> for the \<open>TypeError\<close>. A \<open>message\<close> property holding a non-string value is not
  represented.
\<close>

datatype thrown = JsObject "string option" | JsPrimitive | JsNullish

datatype hash_failure = InitFail string | CatchTypeError

definition js_message :: "thrown \<Rightarrow> string option" where
  "js_message e =
     (case e of
        JsObject (Some m) \<Rightarrow> Some m
      | JsObject None \<Rightarrow> Some ''undefined''
      | JsPrimitive \<Rightarrow> Some ''undefined''
      | JsNullish \<Rightarrow> None)"

definition hash_init_prefix :: string where
  "hash_init_prefix = ''hashCalculateService init fail: '' @ [CHR 0x0A] @ '' ''"

definition hash_initialize :: "thrown + unit \<Rightarrow> hash_failure + unit" where
  "hash_initialize r =
     (case r of
        Inr u \<Rightarrow> Inr u
      | Inl e \<Rightarrow> (case js_message e of
                   None \<Rightarrow> Inl CatchTypeError
                 | Some m \<Rightarrow> Inl (InitFail (hash_init_prefix @ m))))"

text \<open>C38. \<open>initialize\<close> succeeds exactly when the hash service does. A failure reaches the
  caller as the wrapped error carrying message \<open>m\<close> after the prefix exactly when the
  service rejected with an object whose \<open>message\<close> is \<open>m\<close>, or, for \<open>m = undefined\<close>, with
  an object without a message or a primitive, which the wrapped error cannot tell apart;
  a rejection with \<open>null\<close> or \<open>undefined\<close> escapes as a \<open>TypeError\<close> thrown inside the
  \<open>catch\<close>, without the prefix.\<close>

lemma hash_initialize_wraps:
  "(hash_initialize r = Inr () \<longleftrightarrow> r = Inr ()) \<and>
   (hash_initialize (Inl e) = Inl (InitFail (hash_init_prefix @ m)) \<longleftrightarrow>
      e = JsObject (Some m) \<or> (m = ''undefined'' \<and> (e = JsObject None \<or> e = JsPrimitive))) \<and>
   hash_initialize (Inl JsNullish) = Inl CatchTypeError"
proof -
  have "hash_initialize r = Inr () \<longleftrightarrow> r = Inr ()"
    by (simp add: hash_initialize_def split: sum.split option.split)
  moreover have "hash_initialize (Inl e) = Inl (InitFail (hash_init_prefix @ m)) \<longleftrightarrow>
      e = JsObject (Some m) \<or> (m = ''undefined'' \<and> (e = JsObject None \<or> e = JsPrimitive))"
  proof (cases e)
    case (JsObject mo)
    then show ?thesis by (cases mo) (auto simp: hash_initialize_def js_message_def)
  qed (auto simp: hash_initialize_def js_message_def)
  moreover have "hash_initialize (Inl JsNullish) = Inl CatchTypeError"
    by (simp add: hash_initialize_def js_message_def)
  ultimately show ?thesis by blast
qed

end
