(* ===== verification/Spec2Isabelle.thy ===== *)
theory Spec2Isabelle
  imports Manager FileResource Layout Chat Hash
begin

text \<open>
  \<^bold>\<open>A verification library for five source files of the OpenSumi IDE core.\<close>

  \<^bold>\<open>The program.\<close> \<open>src/packages/feature-extension/src/browser/extension.service.ts\<close> holds
  the feature-extension subsystem: a capability type registry
  (\<open>FeatureExtensionCapabilityRegistryImpl\<close>), the lifecycle of one extension
  (\<open>FeatureExtension\<close>: enable, disable, activate, deactivate, dispose, with in-flight
  promise guards), the manager (\<open>FeatureExtensionManagerServiceImpl\<close>), which lets the
  capability contributions register, enables the known extensions, asks the process
  supervisor (\<open>FeatureExtensionProcessManageImpl\<close>) for the extension process, opens the
  \<open>ExtProtocol\<close> channel, wraps it in an \<open>RPCProtocol\<close>, publishes \<open>MainThreadCommands\<close> and,
  2000 ms later, asks the extension host for its extensions and activates the first one.
  \<open>main.thread.layout.ts\<close> is the host side of the layout API that the extension host
  calls over such a protocol; \<open>file-service-contribution.ts\<close> is the file resource and its
  resolver; \<open>chat.internal.service.ts\<close> is the chat service that routes requests to the
  chat manager; \<open>hash-calculate.contribution.ts\<close> wraps the hash service's start-up.

  \<^bold>\<open>Theories.\<close>
  \<^item> \<open>Prelude\<close>: the JavaScript containers every component uses. A \<open>Map\<close> is an
    association list in insertion order (\<open>jsmap_get\<close>, \<open>jsmap_set\<close>, \<open>jsmap_delete\<close>,
    \<open>jsmap_values\<close>), \<open>indexOf\<close>/\<open>splice\<close> are \<open>js_index_of\<close>/\<open>js_splice1\<close>, with their
    refinement to HOL maps and lists (collection \<open>jsmap_simps\<close>,
    \<open>js_remove_found_remove1\<close>) and shared list lemmas.
  \<^item> \<open>Registry\<close> (lines 174--242): record \<open>registry\<close> for the four fields, one definition per
    method, the returned \<open>IDisposable\<close> closures defunctionalised as \<open>reg_disposer\<close> and
    run by \<open>reg_dispose\<close>, the calls as data (\<open>reg_op\<close>, \<open>reg_exec\<close>) and the reachable
    registries \<open>reg_reach\<close>. The free identifier \<open>name\<close> in \<open>this.types.set(name, type)\<close>
    is the browser's global \<open>window.name\<close>, the parameter \<open>gname\<close>.
  \<^item> \<open>Lifecycle\<close> (lines 244--369): record \<open>fext\<close> for the extension's fields and record
    \<open>world\<close> for an extension together with its suspended callers (\<open>task\<close>, one constructor
    per \<open>await\<close>), the capability's unsettled promises and the trace of effects. An
    \<open>event\<close> is a call, the settlement of a capability promise, or the resumption of a
    task; \<open>ext_exec\<close> is one step, \<open>ext_run\<close> a schedule and \<open>ext_reach\<close> every
    interleaving.
  \<^item> \<open>Rpc\<close>: the \<open>RPCProtocol\<close> of \<open>@ali/ide-connection\<close>, which is not under \<open>src/\<close>,
    modelled from the specification: published services, correlation ids, the pending-call
    table, the outbox, settlement by response or error response, closing; \<open>link\<close> joins
    two endpoints with FIFO delivery in each direction; \<open>ep_inv\<close> is the endpoint invariant.
  \<^item> \<open>Manager\<close> (lines 17--172): record \<open>mgr\<close> with the registry, the extension Map (of
    lifecycle worlds), every protocol created, the suspended tasks of \<open>activate\<close>,
    \<open>createFeatureExtensionNodeProcess\<close> and \<open>activeExtension\<close>, and the trace; \<open>mgr_exec\<close>
    is one step of the manager or of its environment (node service, channel handler,
    extension host, timer); \<open>mgr_reach\<close> every interleaving. The extension host's answers
    are values of \<open>rv\<close> (a list of paths, a string, or \<open>undefined\<close>), and
    \<open>activeExtension_got\<close> reads \<open>extension[0].path\<close> on each as JavaScript does.
  \<^item> \<open>FileResource\<close>: record \<open>fres\<close> for \<open>FileResource\<close>, one definition per method, over
    a file-service client modelled from its contract (record \<open>fs\<close>).
  \<^item> \<open>Layout\<close>: record \<open>layout\<close> for \<open>MainThreaLayout\<close> with its proxy (an \<open>Rpc\<close> endpoint),
    the layout service's tab bars and the event-bus subscriptions; \<open>layout_exec\<close> is a call
    or an environment event, \<open>layout_reach\<close> every sequence of them.
  \<^item> \<open>Chat\<close>: record \<open>chatw\<close> for \<open>ChatInternalService\<close> and the chat manager it calls
    (modelled from its contract); \<open>chat_exec\<close> is one call, \<open>chat_reach\<close> every sequence.
  \<^item> \<open>Hash\<close>: \<open>hash_initialize\<close> for \<open>HashCalculateContribution.initialize\<close>, over the
    caught value \<open>thrown\<close> (an object with or without a \<open>message\<close>, a primitive, or
    \<open>null\<close>/\<open>undefined\<close>) and the JavaScript reading of \<open>err.message\<close> (\<open>js_message\<close>).

  \<^bold>\<open>How the components meet.\<close> \<open>Manager\<close> runs a contribution's hook as a list of
  \<open>Registry\<close> calls (\<open>reg_exec\<close>), calls \<open>Lifecycle\<close>'s \<open>enable_call\<close> for the bulk enable,
  and talks to the extension host through \<open>Rpc\<close>'s \<open>rpc_call\<close>, \<open>rpc_receive\<close>,
  \<open>rpc_set\<close> and \<open>rpc_close\<close>; \<open>Layout\<close> sends its \<open>$acceptMessage\<close> messages with
  \<open>rpc_call\<close>. The endpoint invariant of \<open>Rpc\<close> (\<open>ep_inv_new\<close>, \<open>ep_inv_set\<close>,
  \<open>ep_inv_call\<close>, \<open>ep_inv_receive\<close>, \<open>ep_inv_close\<close>) is the interface both clients
  discharge their own invariants with (C17, C30), and the growth of an endpoint's issued
  correlation ids (\<open>call_ids_rpc_call\<close>, \<open>call_ids_receive\<close>, \<open>call_ids_close\<close>,
  \<open>call_ids_set\<close>) is what the manager's task invariant (C16) rests on.

  \<^bold>\<open>What is proved.\<close> The claims C1--C39 are stated in the theory of their component, C40 here:
  \<^item> lifecycle (C1--C6): at most one capability call in flight in every interleaving, the
    collapse of concurrent enables, and three divergences from the specification: an
    extension can never be re-enabled after \<open>disable\<close>, two concurrent \<open>disable\<close> calls run
    the disposer twice, and \<open>activate\<close> does not require \<open>enable\<close>;
  \<^item> registry (C7--C13): the global-key defect (at most one type, overwriting, the exact
    error condition), the disposers' round trip and its failure on duplicates, and the
    refinement of the extra-metadata Map, and the well-formedness of every reachable registry
    (C39);
  \<^item> manager (C14--C21): activation completes and activates the first extension under the
    successful schedule, concurrent activation spawns twice, every suspended bootstrap step
    waits on a protocol the manager created and an id that protocol issued, over all
    interleavings, the error paths of channel close, spawn failure and an empty extension
    list, isolation of failing contributions, and the never-populated extension Map;
  \<^item> file resource (C22--C27): save/read round trip, sync after a save, the escaping stat
    rejection, the overwrite of external changes, and the not-found and directory paths;
  \<^item> layout (C28--C32): duplicated and accumulating listeners, the subscription invariant,
    the single-binding path and the \<open>TypeError\<close> on unknown ids;
  \<^item> chat (C33--C37): the session invariant, \<open>clearSessionModel\<close>, requests refused while
    one is in flight, the latest-id event sequence, and serving after \<open>dispose\<close>;
  \<^item> hash contribution (C38): the error wrapping, with the \<open>TypeError\<close> that reading
    \<open>err.message\<close> raises on a \<open>null\<close> or \<open>undefined\<close> rejection;
  \<^item> across components (C40): the registry's global-key defect as \<open>activate\<close> exposes it.
  Every invariant is proved by rule induction over the component's reachability predicate
  from lemmas that each operation preserves it.

  \<^bold>\<open>Asynchrony, bounds and fuel.\<close> No fuel and no bound is needed: every loop of the
  source iterates a finite list (contributions, extensions, subscriptions) and is a
  structural recursion (\<open>run_contribs\<close>, \<open>bulk_enable\<close>, \<open>run_subs\<close>), and unbounded
  behaviour comes only from the environment, which the schedulers take as a finite list of
  events (\<open>ext_run\<close>, \<open>mgr_run\<close>, \<open>layout_run\<close>) or as any number of steps (the \<open>reach\<close>
  predicates). An \<open>await\<close> is a suspension point where any other event may happen; the
  continuation of an \<open>await\<close> of an already settled promise inside the same method is merged
  with the step before it where no other task can observe the difference. Integers of the
  source are counters and ids, modelled as \<open>nat\<close>; \<open>indexOf\<close> returns an \<open>int\<close>.

  \<^bold>\<open>Not modelled.\<close> Dependency injection and decorators (the injected services are
  parameters or fields of the records); the contents of log and console messages (recorded
  only as trace effects or warnings); the websocket channel machinery of \<open>initExtProtocol\<close>
  (\<open>RPCServiceCenter\<close>, \<open>createWebSocketConnection\<close>, the message emitter), which only
  forwards messages and is subsumed by the \<open>Rpc\<close> link; the commented-out discovery loop of
  \<open>activate\<close> (lines 62--83) and \<open>setMainThreadAPI\<close> (lines 124--132), which do not run;
  \<open>FeatureExtension.asAbsolute\<close> and \<open>FileResource.getFsPath\<close>, pure pass-throughs without
  state; the implementations behind the external interfaces (node service, file-service
  client, layout service and tab bar handlers, chat manager, hash service,
  \<open>MainThreadCommands\<close>), modelled only by the contract the code relies on; and the
  interleaving of two \<open>FileResource\<close> methods with each other (each method runs against
  one state of the file store, other programs change the store between calls).
\<close>

section \<open>Properties across components\<close>

text \<open>C40. The registry's global-key defect seen from the manager: when two capability
  contributions each register a type whose name differs from \<open>window.name\<close>, \<open>activate\<close>
  runs both without any error, and the registry ends up holding only the second type; the
  first registration is silently lost.\<close>

theorem activate_keeps_only_last_type:
  assumes "ftype_name t1 \<noteq> g" "ftype_name t2 \<noteq> g"
  shows "getTypes (m_registry (mgr_activate (mgr_init g [Some [CReg (OpRegisterType t1)], Some [CReg (OpRegisterType t2)]] cmds))) = [t2] \<and>
    MLogError \<notin> set (m_trace (mgr_activate (mgr_init g [Some [CReg (OpRegisterType t1)], Some [CReg (OpRegisterType t2)]] cmds)))"
  using assms by (simp add: mgr_activate_def mgr_init_def registry_init_def registerFeatureExtensionType_def
      getTypes_def jsmap_values_def jsmap_has_def mspawn_def mlog_def)

theorem activate_keeps_only_last_type_witness:
  "getTypes (m_registry (mgr_activate (mgr_init '''' [Some [CReg (OpRegisterType \<lparr>ftype_name = ''a'', ftype_id = 1\<rparr>)],
      Some [CReg (OpRegisterType \<lparr>ftype_name = ''b'', ftype_id = 2\<rparr>)]] []))) = [\<lparr>ftype_name = ''b'', ftype_id = 2\<rparr>] \<and>
   MLogError \<notin> set (m_trace (mgr_activate (mgr_init '''' [Some [CReg (OpRegisterType \<lparr>ftype_name = ''a'', ftype_id = 1\<rparr>)],
      Some [CReg (OpRegisterType \<lparr>ftype_name = ''b'', ftype_id = 2\<rparr>)]] [])))"
  by (rule activate_keeps_only_last_type) simp_all

end
